(* ===== verification/Prelude.thy ===== *)
theory Prelude
  imports Main "HOL-Library.AList"
begin

text \<open>
  Shared vocabulary of the development: the JavaScript values the program reads
  from its HTTP collaborators (a JSON datatype and the property read of
  \<^verbatim>\<open>data.embedding\<close>), the error values that stand for every \<^verbatim>\<open>throw\<close> of
  \<^verbatim>\<open>src/unnamed/part_000\<close> (the module \<^verbatim>\<open>rag.js\<close>), the character classes of the
  regular expressions of \<^verbatim>\<open>preprocessText\<close> and \<^verbatim>\<open>splitIntoChunks\<close>,
  \<^verbatim>\<open>String.prototype.trim\<close>, \<^verbatim>\<open>Array.prototype.join\<close> and the decimal rendering of
  a number inside a template literal.  Strings are \<open>char list\<close>s: one \<open>char\<close> per
  UTF-16 code unit of the Latin-1 range, which is what \<^verbatim>\<open>length\<close> counts.
\<close>

section \<open>Errors\<close>

text \<open>Errors the vector index (Pinecone) reports to the client.\<close>

datatype pinecone_error =
    IndexNotFound
  | IndexAlreadyExists
  | DimensionMismatch nat nat
  | NonNumericValues

text \<open>
  One constructor per kind of exception the module lets escape: a rejected
  \<^verbatim>\<open>fetch\<close>, a non-2xx answer (\<^verbatim>\<open>HTTP error! status\<close>), a body that is no JSON,
  a property read on \<^verbatim>\<open>null\<close>, the embedding check, the PDF wrapper, the
  readiness poll, and whatever the index answers.
\<close>

datatype error =
    FetchFailed
  | HttpError nat
  | JsonSyntaxError
  | JsTypeError
  | InvalidEmbeddingFormat
  | PdfProcessingFailed
  | IndexNotReady nat
  | Pinecone pinecone_error

section \<open>JSON values\<close>

text \<open>
  Numbers are kept as integers: no property of the pipeline depends on their
  fractional part.  An object is the association list \<^verbatim>\<open>JSON.parse\<close> builds, in
  source order.
\<close>

datatype json =
    JNull
  | JBool bool
  | JNum int
  | JStr string
  | JArr "json list"
  | JObj "(string \<times> json) list"

type_synonym obj = "string \<rightharpoonup> json"

type_synonym tenant = string

text \<open>
  \<^verbatim>\<open>v.k\<close> on a parsed value: a read on \<^verbatim>\<open>null\<close> throws a \<^verbatim>\<open>TypeError\<close>; on an object
  the last binding of a duplicated key wins, as in \<^verbatim>\<open>JSON.parse\<close>; anything else
  has no such property (\<open>None\<close> is \<^verbatim>\<open>undefined\<close>).
\<close>

fun js_prop :: "json \<Rightarrow> string \<Rightarrow> error + json option" where
  "js_prop JNull k = Inl JsTypeError"
| "js_prop (JObj kvs) k = Inr (map_of (rev kvs) k)"
| "js_prop v k = Inr None"

section \<open>Character classes\<close>

text \<open>
  \<^verbatim>\<open>\s\<close> of a JavaScript regular expression, restricted to the Latin-1 range: tab,
  line feed, vertical tab, form feed, carriage return, space and no-break space.
  \<^verbatim>\<open>String.prototype.trim\<close> strips the same set.
\<close>

definition is_space :: "char \<Rightarrow> bool" where
  "is_space c \<longleftrightarrow> (let n = (of_char c :: nat) in (9 \<le> n \<and> n \<le> 13) \<or> n = 32 \<or> n = 160)"

definition is_lower :: "char \<Rightarrow> bool" where
  "is_lower c \<longleftrightarrow> (let n = (of_char c :: nat) in 97 \<le> n \<and> n \<le> 122)"

definition is_upper :: "char \<Rightarrow> bool" where
  "is_upper c \<longleftrightarrow> (let n = (of_char c :: nat) in 65 \<le> n \<and> n \<le> 90)"

text \<open>\<^verbatim>\<open>[.,!?]\<close> of \<^verbatim>\<open>preprocessText\<close>.\<close>

definition is_punct :: "char \<Rightarrow> bool" where
  "is_punct c \<longleftrightarrow> c = CHR ''.'' \<or> c = CHR '','' \<or> c = CHR ''!'' \<or> c = CHR ''?''"

text \<open>\<^verbatim>\<open>[.!?]\<close> of the sentence split in \<^verbatim>\<open>splitIntoChunks\<close>.\<close>

definition is_delim :: "char \<Rightarrow> bool" where
  "is_delim c \<longleftrightarrow> c = CHR ''.'' \<or> c = CHR ''!'' \<or> c = CHR ''?''"

named_theorems char_class "the definitions of the character classes"

declare is_space_def [char_class] is_lower_def [char_class] is_upper_def [char_class]
  is_punct_def [char_class] is_delim_def [char_class]

section \<open>String built-ins\<close>

definition js_trim :: "string \<Rightarrow> string" where
  "js_trim s = rev (dropWhile is_space (rev (dropWhile is_space s)))"

text \<open>\<^verbatim>\<open>xs.join(sep)\<close>.\<close>

fun join :: "string \<Rightarrow> string list \<Rightarrow> string" where
  "join sep [] = []"
| "join sep [x] = x"
| "join sep (x # y # xs) = x @ sep @ join sep (y # xs)"

text \<open>The line feed \<^verbatim>\<open>'\n'\<close>, as a one-character string.\<close>

definition nl :: string where
  "nl = [CHR 0x0A]"

text \<open>A number in a template literal, \<^verbatim>\<open>`${n}`\<close>, for the naturals the module prints.\<close>

fun nat_str :: "nat \<Rightarrow> string" where
  "nat_str n = (if n < 10 then [char_of (48 + n)] else nat_str (n div 10) @ [char_of (48 + n mod 10)])"

declare nat_str.simps [simp del]

section \<open>Lemmas on the built-ins\<close>

lemma is_space_not_punct [simp]: "is_punct c \<Longrightarrow> \<not> is_space c"
  by (auto simp: char_class)

lemma is_delim_punct [simp]: "is_delim c \<Longrightarrow> is_punct c"
  by (auto simp: char_class)

lemma is_delim_not_space [simp]: "is_delim c \<Longrightarrow> \<not> is_space c"
  by (auto simp: char_class)

lemma space_char_is_space [simp]: "is_space (CHR '' '')"
  by (simp add: is_space_def)

lemma js_trim_Nil [simp]: "js_trim [] = []"
  by (simp add: js_trim_def)

lemma set_js_trim: "set (js_trim s) \<subseteq> set s"
  by (auto simp: js_trim_def dest!: set_dropWhileD)

lemma join_Cons: "xs \<noteq> [] \<Longrightarrow> join sep (x # xs) = x @ sep @ join sep xs"
  by (cases xs) auto

lemma join_append_single:
  "xs \<noteq> [] \<Longrightarrow> join sep (xs @ [y]) = join sep xs @ sep @ y"
  by (induction sep xs rule: join.induct) auto

lemma join_append:
  "xs \<noteq> [] \<Longrightarrow> ys \<noteq> [] \<Longrightarrow> join sep (xs @ ys) = join sep xs @ sep @ join sep ys"
  by (induction sep xs rule: join.induct) (auto simp: join_Cons)

lemma join_map_join:
  "\<forall>g \<in> set gs. g \<noteq> [] \<Longrightarrow> join sep (map (join sep) gs) = join sep (concat gs)"
proof (induction gs)
  case (Cons g gs)
  then show ?case
    by (cases "gs = []") (auto simp: join_Cons join_append)
qed simp

lemma join_nonempty: "x \<in> set xs \<Longrightarrow> x \<noteq> [] \<Longrightarrow> join sep xs \<noteq> []"
  by (induction sep xs rule: join.induct) auto

lemma foldl_invariant:
  "I a \<Longrightarrow> (\<And>a x. x \<in> set xs \<Longrightarrow> I a \<Longrightarrow> I (f a x)) \<Longrightarrow> I (foldl f a xs)"
  by (induction xs arbitrary: a) auto

lemma length_join:
  "length (join sep xs) = sum_list (map length xs) + length sep * (length xs - 1)"
  by (induction sep xs rule: join.induct) auto

lemma nat_str_digits: "c \<in> set (nat_str n) \<Longrightarrow> 48 \<le> (of_char c :: nat) \<and> (of_char c :: nat) < 58"
proof (induction n rule: nat_str.induct)
  case (1 n)
  then show ?case
    by (cases "n < 10") (auto simp: nat_str.simps [of n] of_char_of)
qed

lemma nat_str_Nil [simp]: "nat_str n \<noteq> []"
  by (subst nat_str.simps) simp

lemma char_digit_inject:
  "char_of (48 + a) = (char_of (48 + b) :: char) \<Longrightarrow> a < 10 \<Longrightarrow> b < 10 \<Longrightarrow> a = b" for a b :: nat
proof -
  assume "char_of (48 + a) = (char_of (48 + b) :: char)" "a < 10" "b < 10"
  then have "(of_char (char_of (48 + a) :: char) :: nat) = of_char (char_of (48 + b) :: char)" by simp
  with \<open>a < 10\<close> \<open>b < 10\<close> show "a = b" by (simp add: of_char_of)
qed

lemma nat_str_small: "n < 10 \<Longrightarrow> nat_str n = [char_of (48 + n)]"
  by (simp add: nat_str.simps [of n])

lemma nat_str_large: "\<not> n < 10 \<Longrightarrow> nat_str n = nat_str (n div 10) @ [char_of (48 + n mod 10)]"
  by (simp add: nat_str.simps [of n])

lemma nat_str_inject: "nat_str n = nat_str m \<Longrightarrow> n = m"
proof (induction n arbitrary: m rule: nat_str.induct)
  case (1 n)
  consider "n < 10" "m < 10" | "n < 10" "\<not> m < 10" | "\<not> n < 10" "m < 10" | "\<not> n < 10" "\<not> m < 10"
    by blast
  then show ?case
  proof cases
    case 1
    with "1.prems" show ?thesis by (simp only: nat_str_small list.inject char_digit_inject)
  next
    case 2
    with "1.prems" show ?thesis
      using nat_str_Nil [of "m div 10"] by (simp add: nat_str_small [OF 2(1)] nat_str_large [OF 2(2)])
  next
    case 3
    with "1.prems" show ?thesis
      using nat_str_Nil [of "n div 10"] by (simp add: nat_str_small [OF 3(2)] nat_str_large [OF 3(1)])
  next
    case 4
    from "1.prems" have "nat_str (n div 10) @ [char_of (48 + n mod 10)] = nat_str (m div 10) @ [char_of (48 + m mod 10)]"
      by (simp only: nat_str_large [OF 4(1)] nat_str_large [OF 4(2)])
    then have "nat_str (n div 10) = nat_str (m div 10)" and c: "char_of (48 + n mod 10) = (char_of (48 + m mod 10) :: char)"
      by simp_all
    then have "n div 10 = m div 10" and "n mod 10 = m mod 10"
      using "1.IH" [OF 4(1)] char_digit_inject [OF c] by simp_all
    then show ?thesis
      using div_mult_mod_eq [of n 10] div_mult_mod_eq [of m 10] by linarith
  qed
qed

lemma append_sep_inject:
  "x \<notin> set a \<Longrightarrow> x \<notin> set a' \<Longrightarrow> a @ x # r = a' @ x # r' \<Longrightarrow> a = a' \<and> r = r'"
proof (induction a arbitrary: a')
  case Nil
  then show ?case by (cases a') auto
next
  case (Cons y a)
  then show ?case by (cases a') auto
qed

lemma last_dropWhile: "dropWhile P xs \<noteq> [] \<Longrightarrow> last (dropWhile P xs) = last xs"
  by (induction xs) auto

text \<open>A string is left unchanged by \<^verbatim>\<open>trim\<close> exactly when it does not start or end
  with white space; \<^verbatim>\<open>trim\<close> is idempotent.\<close>

lemma js_trim_id: "s = [] \<or> \<not> is_space (hd s) \<and> \<not> is_space (last s) \<Longrightarrow> js_trim s = s"
proof (cases s)
  case (Cons c cs)
  assume "s = [] \<or> \<not> is_space (hd s) \<and> \<not> is_space (last s)"
  with Cons have h: "\<not> is_space c" and l: "\<not> is_space (last s)" by auto
  have d1: "dropWhile is_space s = s" using Cons h by simp
  obtain d ds where r: "rev s = d # ds" using Cons by (cases "rev s") auto
  then have "d = last s" by (metis hd_rev list.sel(1))
  with l have d2: "dropWhile is_space (rev s) = rev s" by (simp only: r dropWhile.simps if_False)
  show ?thesis by (simp add: js_trim_def d1 d2)
qed (simp add: js_trim_def)

lemma js_trim_ends: "js_trim s \<noteq> [] \<Longrightarrow> \<not> is_space (hd (js_trim s)) \<and> \<not> is_space (last (js_trim s))"
proof -
  let ?x = "dropWhile is_space s"
  let ?y = "dropWhile is_space (rev ?x)"
  assume ne: "js_trim s \<noteq> []"
  then have y: "?y \<noteq> []" by (simp add: js_trim_def)
  then have x: "?x \<noteq> []" by (metis dropWhile.simps(1) rev.simps(1))
  have "hd (js_trim s) = last ?y" by (simp add: js_trim_def hd_rev)
  also have "\<dots> = last (rev ?x)" using y by (rule last_dropWhile)
  also have "\<dots> = hd ?x" using x by (simp add: last_rev)
  finally have "\<not> is_space (hd (js_trim s))" using hd_dropWhile [OF x] by simp
  moreover have "last (js_trim s) = hd ?y" by (simp add: js_trim_def last_rev)
  ultimately show ?thesis using hd_dropWhile [OF y] by simp
qed

lemma js_trim_idem [simp]: "js_trim (js_trim s) = js_trim s"
proof (cases "js_trim s = []")
  case False
  then show ?thesis using js_trim_ends [of s] by (intro js_trim_id) simp
qed simp

end
