(* ===== verification/Normalize.thy ===== *)
theory Normalize
  imports Prelude
begin

text \<open>
  \<^verbatim>\<open>preprocessText\<close> (\<^verbatim>\<open>src/unnamed/part_000\<close>, lines 53--64): five global
  regular-expression replacements and a trim, applied in the source's order.
  Each replacement is a left-to-right scan that resumes after the text a match
  consumed, as \<^verbatim>\<open>String.prototype.replace\<close> with the \<^verbatim>\<open>g\<close> flag does.
\<close>

text \<open>\<^verbatim>\<open>.replace(/([a-z])([A-Z])/g, '$1 $2')\<close>: the upper-case letter is consumed.\<close>

fun camel_split :: "string \<Rightarrow> string" where
  "camel_split (a # b # cs) =
     (if is_lower a \<and> is_upper b then a # CHR '' '' # b # camel_split cs
      else a # camel_split (b # cs))"
| "camel_split cs = cs"

text \<open>\<^verbatim>\<open>.replace(/\s+/g, ' ')\<close>: a maximal run of white space becomes one space.\<close>

function collapse_ws :: "string \<Rightarrow> string" where
  "collapse_ws [] = []"
| "collapse_ws (c # cs) =
     (if is_space c then CHR '' '' # collapse_ws (dropWhile is_space cs)
      else c # collapse_ws cs)"
  by pat_completeness auto
termination
  by (relation "measure length") (auto simp: le_imp_less_Suc length_dropWhile_le)

text \<open>
  \<^verbatim>\<open>.replace(/\s+([.,!?])/g, '$1')\<close>: a run of white space followed by a
  punctuation mark is dropped; a run followed by anything else is kept, and the
  scan goes on from its next character.
\<close>

function strip_space_punct :: "string \<Rightarrow> string" where
  "strip_space_punct [] = []"
| "strip_space_punct (c # cs) =
     (if is_space c \<and> (case dropWhile is_space cs of p # _ \<Rightarrow> is_punct p | [] \<Rightarrow> False)
      then strip_space_punct (dropWhile is_space cs)
      else c # strip_space_punct cs)"
  by pat_completeness auto
termination
  by (relation "measure length") (auto simp: le_imp_less_Suc length_dropWhile_le)

text \<open>
  \<^verbatim>\<open>.replace(/([.,!?])([^\s])/g, '$1 $2')\<close>: the character after the mark is
  consumed by the match, so in \<^verbatim>\<open>"..."\<close> only the first pair is separated.
\<close>

fun space_after_punct :: "string \<Rightarrow> string" where
  "space_after_punct (p # c # cs) =
     (if is_punct p \<and> \<not> is_space c then p # CHR '' '' # c # space_after_punct cs
      else p # space_after_punct (c # cs))"
| "space_after_punct cs = cs"

definition preprocess_text :: "string \<Rightarrow> string" where
  "preprocess_text text =
     js_trim (space_after_punct (strip_space_punct (collapse_ws (camel_split text))))"

section \<open>White space after normalisation\<close>

text \<open>Every white-space character is a blank, and no two white-space characters are
  adjacent.\<close>

definition blanks_only :: "string \<Rightarrow> bool" where
  "blanks_only s \<longleftrightarrow> (\<forall>c \<in> set s. is_space c \<longrightarrow> c = CHR '' '')"

definition single_spaced :: "string \<Rightarrow> bool" where
  "single_spaced s \<longleftrightarrow> successively (\<lambda>a b. \<not> (is_space a \<and> is_space b)) s"

lemma successively_dropWhile: "successively P xs \<Longrightarrow> successively P (dropWhile Q xs)"
  using successively_append_iff [of P "takeWhile Q xs" "dropWhile Q xs"] by simp

lemma collapse_ws_dropWhile_hd:
  "collapse_ws (dropWhile is_space cs) = [] \<or> \<not> is_space (hd (collapse_ws (dropWhile is_space cs)))"
proof (cases "dropWhile is_space cs")
  case (Cons d ds)
  then have "\<not> is_space d" using hd_dropWhile [of is_space cs] by simp
  with Cons show ?thesis by simp
next
  case Nil
  show ?thesis by (simp only: Nil collapse_ws.simps(1) simp_thms)
qed

lemma collapse_ws_blanks: "blanks_only (collapse_ws s)"
  by (induction s rule: collapse_ws.induct) (auto simp: blanks_only_def dest: set_dropWhileD)

lemma collapse_ws_single: "single_spaced (collapse_ws s)"
proof (induction s rule: collapse_ws.induct)
  case (2 c cs)
  then show ?case
    using collapse_ws_dropWhile_hd [of cs]
    by (cases "collapse_ws cs") (auto simp: single_spaced_def successively_Cons)
qed (simp add: single_spaced_def)

lemma single_spaced_tl: "single_spaced (c # cs) \<Longrightarrow> single_spaced cs"
  by (cases cs) (auto simp: single_spaced_def)

lemma set_strip_space_punct: "set (strip_space_punct s) \<subseteq> set s"
  by (induction s rule: strip_space_punct.induct) (auto dest: set_dropWhileD)

lemma strip_space_punct_hd:
  "strip_space_punct s \<noteq> [] \<Longrightarrow> is_space (hd (strip_space_punct s)) \<Longrightarrow> s \<noteq> [] \<and> is_space (hd s)"
proof (induction s rule: strip_space_punct.induct)
  case (2 c cs)
  show ?case
  proof (cases "is_space c \<and> (case dropWhile is_space cs of p # _ \<Rightarrow> is_punct p | [] \<Rightarrow> False)")
    case True
    then obtain p r where d: "dropWhile is_space cs = p # r" and "is_punct p" by (auto split: list.splits)
    have "strip_space_punct (c # cs) = strip_space_punct (p # r)" using True d by simp
    also have "\<dots> = p # strip_space_punct r" using \<open>is_punct p\<close> by simp
    finally have "hd (strip_space_punct (c # cs)) = p" by (simp only: list.sel(1))
    with 2(4) \<open>is_punct p\<close> show ?thesis by (metis is_space_not_punct)
  next
    case False
    then have "strip_space_punct (c # cs) = c # strip_space_punct cs"
      by (subst strip_space_punct.simps(2)) (rule if_not_P)
    with 2(4) show ?thesis by (metis list.distinct(1) list.sel(1))
  qed
qed simp

lemma strip_space_punct_single: "single_spaced s \<Longrightarrow> single_spaced (strip_space_punct s)"
proof (induction s rule: strip_space_punct.induct)
  case (2 c cs)
  have cs: "single_spaced cs" using 2(3) by (rule single_spaced_tl)
  show ?case
  proof (cases "is_space c \<and> (case dropWhile is_space cs of p # _ \<Rightarrow> is_punct p | [] \<Rightarrow> False)")
    case True
    have "single_spaced (dropWhile is_space cs)" using cs by (simp add: single_spaced_def successively_dropWhile)
    with True 2(1) show ?thesis by simp
  next
    case False
    have "single_spaced (strip_space_punct cs)" using False cs 2(2) by blast
    moreover have "\<not> (is_space c \<and> is_space (hd (strip_space_punct cs)))" if "strip_space_punct cs \<noteq> []"
      using strip_space_punct_hd [OF that] 2(3) by (cases cs) (auto simp: single_spaced_def)
    ultimately show ?thesis using False by (auto simp: single_spaced_def successively_Cons)
  qed
qed (simp add: single_spaced_def)

lemma set_space_after_punct: "set (space_after_punct s) \<subseteq> insert (CHR '' '') (set s)"
  by (induction s rule: space_after_punct.induct) auto

lemma space_after_punct_hd: "s \<noteq> [] \<Longrightarrow> space_after_punct s \<noteq> [] \<and> hd (space_after_punct s) = hd s"
  by (induction s rule: space_after_punct.induct) auto

lemma space_after_punct_single: "single_spaced s \<Longrightarrow> single_spaced (space_after_punct s)"
proof (induction s rule: space_after_punct.induct)
  case (1 p c cs)
  show ?case
  proof (cases "is_punct p \<and> \<not> is_space c")
    case True
    have "single_spaced cs" using 1(3) by (blast dest: single_spaced_tl)
    then have "single_spaced (space_after_punct cs)" using True 1(1) by blast
    with True show ?thesis
      using space_after_punct_hd [of cs] by (cases cs) (auto simp: single_spaced_def successively_Cons)
  next
    case False
    have "single_spaced (c # cs)" using 1(3) by (rule single_spaced_tl)
    then have "single_spaced (space_after_punct (c # cs))" using False 1(2) by blast
    with False 1(3) show ?thesis
      using space_after_punct_hd [of "c # cs"] by (auto simp: single_spaced_def successively_Cons)
  qed
qed auto

lemma js_trim_single: "single_spaced s \<Longrightarrow> single_spaced (js_trim s)"
  by (simp add: single_spaced_def js_trim_def successively_dropWhile conj_commute)

lemma js_trim_blanks: "blanks_only s \<Longrightarrow> blanks_only (js_trim s)"
  using set_js_trim by (auto simp: blanks_only_def)

lemma strip_space_punct_blanks: "blanks_only s \<Longrightarrow> blanks_only (strip_space_punct s)"
  using set_strip_space_punct by (auto simp: blanks_only_def)

lemma space_after_punct_blanks: "blanks_only s \<Longrightarrow> blanks_only (space_after_punct s)"
  using set_space_after_punct by (fastforce simp: blanks_only_def)

section \<open>Text of lower-case words\<close>

text \<open>Words of lower-case letters pass through every step of the normaliser unchanged.\<close>

lemma is_lower_plain: "is_lower c \<Longrightarrow> \<not> is_upper c \<and> \<not> is_space c \<and> \<not> is_punct c"
  by (auto simp: char_class Let_def)

lemma camel_split_lower:
  "list_all is_lower A \<Longrightarrow> r = [] \<or> \<not> is_upper (hd r) \<Longrightarrow> camel_split (A @ r) = A @ camel_split r"
proof (induction A)
  case (Cons a A)
  then show ?case
    by (cases A; cases r) (auto dest: is_lower_plain)
qed simp

lemma collapse_ws_lower: "list_all is_lower A \<Longrightarrow> collapse_ws (A @ r) = A @ collapse_ws r"
  by (induction A) (auto dest: is_lower_plain)

lemma strip_space_punct_lower: "list_all is_lower A \<Longrightarrow> strip_space_punct (A @ r) = A @ strip_space_punct r"
  by (induction A) (auto dest: is_lower_plain)

lemma space_after_punct_lower: "list_all is_lower A \<Longrightarrow> space_after_punct (A @ r) = A @ space_after_punct r"
proof (induction A)
  case (Cons a A)
  then show ?case
    by (cases A; cases r) (auto dest: is_lower_plain)
qed simp

lemma preprocess_text_two_words:
  assumes "list_all is_lower A" "list_all is_lower B" "A \<noteq> []" "B \<noteq> []"
  shows "preprocess_text (A @ ''. '' @ B) = A @ ''. '' @ B"
proof -
  have hB: "\<not> is_upper (hd B) \<and> \<not> is_space (hd B) \<and> \<not> is_punct (hd B)"
    using assms(2,4) by (cases B) (auto dest: is_lower_plain)
  have cB: "camel_split B = B" using camel_split_lower [OF assms(2), of "[]"] by simp
  have wB: "collapse_ws B = B" using collapse_ws_lower [OF assms(2), of "[]"] by simp
  have sB: "strip_space_punct B = B" using strip_space_punct_lower [OF assms(2), of "[]"] by simp
  have pB: "space_after_punct B = B" using space_after_punct_lower [OF assms(2), of "[]"] by simp
  have dB: "dropWhile is_space B = B" using hB by (cases B) auto
  have "camel_split (A @ ''. '' @ B) = A @ ''. '' @ B"
    using camel_split_lower [OF assms(1), of "''. '' @ B"] cB assms(4) by (cases B) (simp_all add: char_class)
  moreover have "collapse_ws (A @ ''. '' @ B) = A @ ''. '' @ B"
    using collapse_ws_lower [OF assms(1), of "''. '' @ B"] wB dB by (simp add: char_class)
  moreover have "strip_space_punct (A @ ''. '' @ B) = A @ ''. '' @ B"
    using strip_space_punct_lower [OF assms(1), of "''. '' @ B"] sB dB hB
    by (cases B) (simp_all add: char_class)
  moreover have "space_after_punct (A @ ''. '' @ B) = A @ ''. '' @ B"
    using space_after_punct_lower [OF assms(1), of "''. '' @ B"] pB hB assms(4)
    by (cases B) (simp_all add: char_class)
  moreover have "js_trim (A @ ''. '' @ B) = A @ ''. '' @ B"
    using assms(1,3) assms(2,4) by (intro js_trim_id) (auto simp: list_all_iff dest: is_lower_plain)
  ultimately show ?thesis by (simp add: preprocess_text_def)
qed

section \<open>Properties of the normaliser\<close>

text \<open>
  C40. The output of \<^verbatim>\<open>preprocessText\<close> is white-space normalised: every
  white-space character in it is a blank, no two white-space characters are
  adjacent, and it neither starts nor ends with white space.
\<close>

theorem preprocess_text_whitespace:
  "(\<forall>c \<in> set (preprocess_text s). is_space c \<longrightarrow> c = CHR '' '') \<and>
   successively (\<lambda>a b. \<not> (is_space a \<and> is_space b)) (preprocess_text s) \<and>
   (preprocess_text s = [] \<or> \<not> is_space (hd (preprocess_text s)) \<and> \<not> is_space (last (preprocess_text s)))"
proof -
  have "blanks_only (preprocess_text s)"
    unfolding preprocess_text_def
    by (intro js_trim_blanks space_after_punct_blanks strip_space_punct_blanks collapse_ws_blanks)
  moreover have "single_spaced (preprocess_text s)"
    unfolding preprocess_text_def
    by (intro js_trim_single space_after_punct_single strip_space_punct_single collapse_ws_single)
  moreover have "preprocess_text s = [] \<or> \<not> is_space (hd (preprocess_text s)) \<and> \<not> is_space (last (preprocess_text s))"
    unfolding preprocess_text_def using js_trim_ends by blast
  ultimately show ?thesis by (simp add: blanks_only_def single_spaced_def)
qed

text \<open>Two adjacent marks: the comment \<^verbatim>\<open>Remove spaces before punctuation\<close> is
  undone by the next replacement, which puts a blank between the marks and
  consumes the second one, so no blank is put after it.\<close>

lemma preprocess_text_space_before_punct: "preprocess_text ''a.,b'' = ''a. ,b''"
  by (simp add: preprocess_text_def js_trim_def char_class)

theorem preprocess_text_whitespace_witness:
  "preprocess_text '' Hello   world .Bye'' = ''Hello world. Bye'' \<and>
   successively (\<lambda>a b. \<not> (is_space a \<and> is_space b)) ''Hello world. Bye''"
proof -
  have e: "preprocess_text '' Hello   world .Bye'' = ''Hello world. Bye''"
    by (simp add: preprocess_text_def js_trim_def char_class)
  show ?thesis using preprocess_text_whitespace [of "'' Hello   world .Bye''"] by (simp add: e)
qed

end
