(* ===== verification/Chunker.thy ===== *)
theory Chunker
  imports Normalize
begin

text \<open>
  \<^verbatim>\<open>splitIntoChunks\<close> (\<^verbatim>\<open>src/unnamed/part_000\<close>, lines 66--89): normalise, split
  at every run of \<^verbatim>\<open>[.!?]\<close>, trim each piece, and pack the non-empty pieces
  greedily into chunks joined by \<^verbatim>\<open>". "\<close>, each closed by a \<^verbatim>\<open>"."\<close>.
  The loop body is \<open>chunk_step\<close> over the state \<open>(currentChunk, chunks)\<close>; the
  loop is a \<open>foldl\<close>.  A reference model, \<open>chunk_groups\<close>, packs the list of
  sentences into groups; the lemmas show that the string-accumulating loop renders
  exactly these groups and derive content preservation, the size bound and
  greediness from the group view.
\<close>

text \<open>\<^verbatim>\<open>cleanText.split(/[.!?]+/)\<close>.\<close>

function split_delims :: "string \<Rightarrow> string list" where
  "split_delims s =
     (case dropWhile (\<lambda>c. \<not> is_delim c) s of
        [] \<Rightarrow> [s]
      | d # rest \<Rightarrow> takeWhile (\<lambda>c. \<not> is_delim c) s # split_delims (dropWhile is_delim rest))"
  by pat_completeness auto
termination
proof (relation "measure length")
  fix s d rest
  assume "dropWhile (\<lambda>c. \<not> is_delim c) s = d # rest"
  then have "length (d # rest) \<le> length s"
    by (metis length_dropWhile_le)
  then show "(dropWhile is_delim rest, s) \<in> measure length"
    using length_dropWhile_le [of is_delim rest] by simp
qed simp

declare split_delims.simps [simp del]

definition CHUNK_SIZE :: nat where
  "CHUNK_SIZE = 1000"

text \<open>The body of \<^verbatim>\<open>for (const sentence of sentences)\<close>.\<close>

definition chunk_step :: "nat \<Rightarrow> string \<times> string list \<Rightarrow> string \<Rightarrow> string \<times> string list" where
  "chunk_step sz st sentence =
     (let (cur, chunks) = st; t = js_trim sentence in
      if t = [] then (cur, chunks)
      else if length cur + length t + 1 \<le> sz
        then (cur @ (if cur \<noteq> [] then ''. '' else []) @ t, chunks)
        else (t, if cur \<noteq> [] then chunks @ [cur @ ''.''] else chunks))"

definition split_into_chunks :: "string \<Rightarrow> nat \<Rightarrow> string list" where
  "split_into_chunks text sz =
     (let clean = preprocess_text text;
          (cur, chunks) = foldl (chunk_step sz) ([], []) (split_delims clean)
      in if cur \<noteq> [] then chunks @ [cur @ ''.''] else chunks)"

subsection \<open>Reference model: sentences packed into groups\<close>

definition chunk_sentences :: "string \<Rightarrow> string list" where
  "chunk_sentences text = filter (\<lambda>t. t \<noteq> []) (map js_trim (split_delims (preprocess_text text)))"

definition render :: "string list \<Rightarrow> string" where
  "render g = join ''. '' g @ ''.''"

definition group_step :: "nat \<Rightarrow> string list \<times> string list list \<Rightarrow> string \<Rightarrow> string list \<times> string list list" where
  "group_step sz st t =
     (let (g, gs) = st in
      if g = [] then ([t], gs)
      else if length (join ''. '' g) + length t + 1 \<le> sz then (g @ [t], gs)
      else ([t], gs @ [g]))"

definition chunk_groups :: "nat \<Rightarrow> string list \<Rightarrow> string list list" where
  "chunk_groups sz ts =
     (let (g, gs) = foldl (group_step sz) ([], []) ts in if g = [] then gs else gs @ [g])"

text \<open>Invariants of the packing loop, stated on its state \<open>(current group, finished groups)\<close>.\<close>

definition groups_ok :: "string list \<times> string list list \<Rightarrow> bool" where
  "groups_ok st \<longleftrightarrow> (\<forall>t \<in> set (fst st). t \<noteq> []) \<and> (\<forall>h \<in> set (snd st). h \<noteq> [] \<and> (\<forall>t \<in> set h. t \<noteq> []))"

definition render_state :: "string list \<times> string list list \<Rightarrow> string \<times> string list" where
  "render_state st = (join ''. '' (fst st), map render (snd st))"

definition group_bound :: "nat \<Rightarrow> string list \<Rightarrow> bool" where
  "group_bound sz h \<longleftrightarrow> length h \<le> 1 \<or> length (join ''. '' h) \<le> sz + 1"

definition bound_state :: "nat \<Rightarrow> string list \<times> string list list \<Rightarrow> bool" where
  "bound_state sz st \<longleftrightarrow> (\<forall>h \<in> set (fst st # snd st). group_bound sz h)"

definition no_fit :: "nat \<Rightarrow> string list \<Rightarrow> string list \<Rightarrow> bool" where
  "no_fit sz h h' \<longleftrightarrow> sz < length (join ''. '' h) + length (hd h') + 1"

definition greedy_state :: "nat \<Rightarrow> string list \<times> string list list \<Rightarrow> bool" where
  "greedy_state sz st \<longleftrightarrow> (if fst st = [] then snd st = [] else successively (no_fit sz) (snd st @ [fst st]))"

subsection \<open>The loop renders the groups\<close>

lemma join_empty_groups_ok: "\<forall>t \<in> set g. t \<noteq> [] \<Longrightarrow> join ''. '' g = [] \<longleftrightarrow> g = []"
proof (cases g)
  case (Cons a l)
  moreover assume "\<forall>t \<in> set g. t \<noteq> []"
  ultimately show ?thesis
    using join_nonempty [of a g "''. ''"] by simp
qed simp

lemma group_step_ok: "groups_ok st \<Longrightarrow> t \<noteq> [] \<Longrightarrow> groups_ok (group_step sz st t)"
  by (cases st) (auto simp: groups_ok_def group_step_def)

lemma chunk_step_render:
  assumes "groups_ok st"
  shows "chunk_step sz (render_state st) s =
           (if js_trim s = [] then render_state st else render_state (group_step sz st (js_trim s)))"
proof (cases st)
  case (Pair g gs)
  with assms have ne: "join ''. '' g = [] \<longleftrightarrow> g = []"
    by (simp add: groups_ok_def join_empty_groups_ok)
  show ?thesis
    using Pair ne
    by (auto simp: chunk_step_def group_step_def render_state_def render_def Let_def join_append_single)
qed

lemma foldl_chunk_step:
  "groups_ok st \<Longrightarrow>
   foldl (chunk_step sz) (render_state st) ss =
   render_state (foldl (group_step sz) st (filter (\<lambda>t. t \<noteq> []) (map js_trim ss)))"
proof (induction ss arbitrary: st)
  case Nil
  then show ?case by simp
next
  case (Cons s ss)
  then show ?case
    by (simp add: chunk_step_render group_step_ok)
qed

lemma foldl_group_step_ok:
  "groups_ok st \<Longrightarrow> \<forall>t \<in> set ts. t \<noteq> [] \<Longrightarrow> groups_ok (foldl (group_step sz) st ts)"
  by (rule foldl_invariant [where I = groups_ok]) (auto intro: group_step_ok)

subsection \<open>Properties of the reference packing\<close>

lemma chunk_groups_eq:
  "chunk_groups sz ts = (let st = foldl (group_step sz) ([], []) ts in if fst st = [] then snd st else snd st @ [fst st])"
  by (simp add: chunk_groups_def split: prod.split)

lemma group_step_concat:
  "group_step sz (g, gs) t = (g', gs') \<Longrightarrow> concat gs' @ g' = concat gs @ g @ [t]"
  by (auto simp: group_step_def split: if_splits)

lemma foldl_group_step_concat:
  "foldl (group_step sz) (g, gs) ts = (g', gs') \<Longrightarrow> concat gs' @ g' = concat gs @ g @ ts"
proof (induction ts arbitrary: g gs)
  case (Cons t ts)
  obtain g1 gs1 where s: "group_step sz (g, gs) t = (g1, gs1)" by fastforce
  with Cons.prems have "concat gs' @ g' = concat gs1 @ g1 @ ts" by (intro Cons.IH) simp
  with group_step_concat [OF s] show ?case by simp
qed simp

lemma concat_chunk_groups: "concat (chunk_groups sz ts) = ts"
  using foldl_group_step_concat [of sz "[]" "[]" ts]
  by (auto simp: chunk_groups_def split: prod.splits)

lemma chunk_groups_nonempty: "\<forall>t \<in> set ts. t \<noteq> [] \<Longrightarrow> h \<in> set (chunk_groups sz ts) \<Longrightarrow> h \<noteq> [] \<and> (\<forall>t \<in> set h. t \<noteq> [])"
proof -
  assume ts: "\<forall>t \<in> set ts. t \<noteq> []" and h: "h \<in> set (chunk_groups sz ts)"
  have "groups_ok (foldl (group_step sz) ([], []) ts)"
    by (rule foldl_group_step_ok) (simp_all add: groups_ok_def ts)
  with h show ?thesis
    by (auto simp: chunk_groups_eq Let_def groups_ok_def split: if_splits)
qed

lemma group_step_bound: "bound_state sz st \<Longrightarrow> bound_state sz (group_step sz st t)"
  by (cases st) (auto simp: bound_state_def group_step_def group_bound_def join_append_single)

lemma chunk_groups_bound: "h \<in> set (chunk_groups sz ts) \<Longrightarrow> group_bound sz h"
proof -
  assume h: "h \<in> set (chunk_groups sz ts)"
  have "bound_state sz (foldl (group_step sz) ([], []) ts)"
  proof (rule foldl_invariant)
    show "bound_state sz ([], [])" by (simp add: bound_state_def group_bound_def)
  next
    fix st x assume "bound_state sz st"
    then show "bound_state sz (group_step sz st x)" by (rule group_step_bound)
  qed
  with h show ?thesis
    by (auto simp: chunk_groups_eq Let_def bound_state_def split: if_splits)
qed

lemma group_step_greedy: "greedy_state sz st \<Longrightarrow> greedy_state sz (group_step sz st t)"
  by (cases st) (auto simp: greedy_state_def group_step_def no_fit_def successively_append_iff)

lemma chunk_groups_greedy: "successively (no_fit sz) (chunk_groups sz ts)"
proof -
  have "greedy_state sz (foldl (group_step sz) ([], []) ts)"
  proof (rule foldl_invariant)
    show "greedy_state sz ([], [])" by (simp add: greedy_state_def)
  next
    fix st x assume "greedy_state sz st"
    then show "greedy_state sz (group_step sz st x)" by (rule group_step_greedy)
  qed
  then show ?thesis
    by (auto simp: chunk_groups_eq Let_def greedy_state_def)
qed


lemma split_delims_no_delim: "p \<in> set (split_delims s) \<Longrightarrow> c \<in> set p \<Longrightarrow> \<not> is_delim c"
proof (induction s rule: split_delims.induct)
  case (1 s)
  show ?case
  proof (cases "dropWhile (\<lambda>c. \<not> is_delim c) s")
    case Nil
    with "1.prems" show ?thesis by (auto simp: split_delims.simps [of s] dest: set_dropWhileD)
  next
    case (Cons d rest)
    with "1.prems" "1.IH" [OF Cons] show ?thesis
      by (auto simp: split_delims.simps [of s] dest: set_takeWhileD)
  qed
qed

lemma chunk_sentences_no_delim: "s \<in> set (chunk_sentences text) \<Longrightarrow> c \<in> set s \<Longrightarrow> \<not> is_delim c"
  using set_js_trim by (fastforce simp: chunk_sentences_def dest: split_delims_no_delim)

lemma chunk_sentences_nonempty: "\<forall>s \<in> set (chunk_sentences text). s \<noteq> []"
  by (simp add: chunk_sentences_def)

lemma length_render: "length (render g) = length (join ''. '' g) + 1"
  by (simp add: render_def)

lemma render_hd: "g \<noteq> [] \<Longrightarrow> \<exists>r. render g = hd g @ CHR ''.'' # r"
  by (cases g; cases "tl g") (auto simp: render_def)

lemma render_chunk_groups:
  "split_into_chunks text sz = map render (chunk_groups sz (chunk_sentences text))"
proof -
  have ok: "groups_ok ([], [])" by (simp add: groups_ok_def)
  obtain g gs where fg: "foldl (group_step sz) ([], []) (chunk_sentences text) = (g, gs)"
    by (cases "foldl (group_step sz) ([], []) (chunk_sentences text)")
  have "groups_ok (g, gs)"
    using foldl_group_step_ok [OF ok, of "chunk_sentences text" sz] fg by (simp add: chunk_sentences_def)
  then have ne: "join ''. '' g = [] \<longleftrightarrow> g = []"
    by (simp add: groups_ok_def join_empty_groups_ok)
  have "foldl (chunk_step sz) ([], []) (split_delims (preprocess_text text)) = render_state (g, gs)"
    using foldl_chunk_step [OF ok, of sz "split_delims (preprocess_text text)"] fg
    by (simp add: render_state_def chunk_sentences_def)
  then show ?thesis
    using ne fg by (auto simp: split_into_chunks_def chunk_groups_def render_state_def render_def)
qed

lemma chunk_sentences_two_words:
  assumes "list_all is_lower A" "list_all is_lower B" "A \<noteq> []" "B \<noteq> []"
  shows "chunk_sentences (A @ ''. '' @ B) = [A, B]"
proof -
  have nd: "\<forall>x \<in> set A. \<not> is_delim x" "\<forall>x \<in> set B. \<not> is_delim x"
    using assms(1,2) by (auto simp: list_all_iff dest!: is_lower_plain)
  have sB: "\<forall>x \<in> set B. \<not> is_space x"
    using assms(2) by (auto simp: list_all_iff dest!: is_lower_plain)
  have "dropWhile (\<lambda>c. \<not> is_delim c) (CHR '' '' # B) = []"
    using nd(2) by (auto simp: dropWhile_eq_Nil_conv char_class)
  then have "split_delims (CHR '' '' # B) = [CHR '' '' # B]"
    by (subst split_delims.simps) (simp only: list.case)
  then have "split_delims (A @ ''. '' @ B) = [A, CHR '' '' # B]"
    using nd(1) by (subst split_delims.simps) (simp add: dropWhile_append2 takeWhile_append2 char_class)
  moreover have "js_trim A = A"
    using assms(1,3) by (intro js_trim_id) (auto simp: list_all_iff dest: is_lower_plain)
  moreover have "js_trim (CHR '' '' # B) = B"
  proof -
    have "js_trim B = B"
      using assms(2,4) by (intro js_trim_id) (auto simp: list_all_iff dest: is_lower_plain)
    then show ?thesis using sB assms(4) by (cases B) (simp_all add: js_trim_def char_class)
  qed
  ultimately show ?thesis using assms(3,4) preprocess_text_two_words [OF assms] by (simp add: chunk_sentences_def)
qed

subsection \<open>Properties of \<open>splitIntoChunks\<close>\<close>

text \<open>
  C1. The chunking loop of \<^verbatim>\<open>splitIntoChunks\<close> refines the reference packing: its
  chunks are exactly the groups of \<open>chunk_groups\<close>, each rendered as its sentences
  joined by \<^verbatim>\<open>". "\<close> and closed by \<^verbatim>\<open>"."\<close>.
\<close>

theorem split_into_chunks_refines:
  "split_into_chunks text sz = map render (chunk_groups sz (chunk_sentences text))"
  by (rule render_chunk_groups)

text \<open>
  C2. No content is dropped or duplicated: stripping the closing \<^verbatim>\<open>"."\<close> of every
  chunk and joining them with \<^verbatim>\<open>". "\<close> gives back the trimmed, non-empty
  sentences of the normalised text, in order, joined the same way.
\<close>

theorem split_into_chunks_content:
  "join ''. '' (map butlast (split_into_chunks text sz)) = join ''. '' (chunk_sentences text)"
proof -
  let ?gs = "chunk_groups sz (chunk_sentences text)"
  have "map butlast (split_into_chunks text sz) = map (join ''. '') ?gs"
    by (simp add: render_chunk_groups render_def)
  moreover have "\<forall>g \<in> set ?gs. g \<noteq> []"
    using chunk_groups_nonempty [OF chunk_sentences_nonempty] by blast
  ultimately show ?thesis
    by (simp add: join_map_join concat_chunk_groups)
qed

text \<open>
  C3. Size bound as the code has it: every chunk is at most \<open>sz + 2\<close> characters
  long, unless it is one single sentence (then of any length).  The separator
  \<^verbatim>\<open>". "\<close> is counted as one character by the fit test and the closing
  \<^verbatim>\<open>"."\<close> is not counted at all.
\<close>

theorem split_into_chunks_bound:
  "\<forall>c \<in> set (split_into_chunks text sz). length c \<le> sz + 2 \<or> (\<exists>s \<in> set (chunk_sentences text). c = s @ ''.'')"
proof
  fix c assume "c \<in> set (split_into_chunks text sz)"
  then obtain g where g: "g \<in> set (chunk_groups sz (chunk_sentences text))" and c: "c = render g"
    by (auto simp: render_chunk_groups)
  have ne: "g \<noteq> []"
    using chunk_groups_nonempty [OF chunk_sentences_nonempty g] by blast
  have "group_bound sz g" using g by (rule chunk_groups_bound)
  then consider "length g = 1" | "length (join ''. '' g) \<le> sz + 1"
    using ne by (cases g) (auto simp: group_bound_def)
  then show "length c \<le> sz + 2 \<or> (\<exists>s \<in> set (chunk_sentences text). c = s @ ''.'')"
  proof cases
    case 1
    then obtain s where "g = [s]" by (cases g) auto
    moreover have "s \<in> set (chunk_sentences text)"
      using g \<open>g = [s]\<close> concat_chunk_groups [of sz "chunk_sentences text"]
      by (metis UN_I list.set_intros(1) set_concat)
    ultimately show ?thesis using c by (auto simp: render_def)
  next
    case 2
    then show ?thesis using c by (simp add: length_render)
  qed
qed

text \<open>
  C5. The packing is greedy: the first sentence of each chunk did not fit into the
  chunk before it, i.e.\ the fit test \<open>length cur + length t + 1 \<le> sz\<close> failed.
\<close>

theorem split_into_chunks_greedy:
  "successively (\<lambda>c c'. sz < length c + length (takeWhile (\<lambda>x. x \<noteq> CHR ''.'') c'))
     (split_into_chunks text sz)"
proof -
  let ?gs = "chunk_groups sz (chunk_sentences text)"
  have step: "sz < length (render g) + length (takeWhile (\<lambda>x. x \<noteq> CHR ''.'') (render g'))"
    if "g' \<in> set ?gs" "no_fit sz g g'" for g g'
  proof -
    have ne: "g' \<noteq> []" and hd: "hd g' \<in> set (chunk_sentences text)"
      using chunk_groups_nonempty [OF chunk_sentences_nonempty that(1)] that(1)
        concat_chunk_groups [of sz "chunk_sentences text"]
      by (auto, metis UN_I hd_in_set set_concat)
    then obtain r where r: "render g' = hd g' @ CHR ''.'' # r" using render_hd by blast
    have "CHR ''.'' \<notin> set (hd g')"
      using chunk_sentences_no_delim [OF hd] by (auto simp: is_delim_def)
    then have "takeWhile (\<lambda>x. x \<noteq> CHR ''.'') (render g') = hd g'"
      by (simp add: r, subst takeWhile_append2) auto
    then show ?thesis using that(2) by (simp add: no_fit_def length_render)
  qed
  have "successively (no_fit sz) ?gs" by (rule chunk_groups_greedy)
  then have "successively (\<lambda>g g'. sz < length (render g) + length (takeWhile (\<lambda>x. x \<noteq> CHR ''.'') (render g'))) ?gs"
    by (auto simp: successively_conv_nth intro: step nth_mem)
  then show ?thesis
    by (simp add: render_chunk_groups successively_map)
qed

lemmas chunk_eval = split_into_chunks_def preprocess_text_def js_trim_def char_class
  split_delims.simps chunk_step_def

theorem split_into_chunks_bound_witness:
  "''Hello world. abc.'' \<in> set (split_into_chunks ''Hello world. abc'' 15) \<and>
   length ''Hello world. abc.'' \<le> 15 + 2"
  using split_into_chunks_bound [of "''Hello world. abc''" 15] by (simp add: chunk_eval)

text \<open>
  C4. The bound \<open>sz + 2\<close> is reached for every size: two sentences of lower-case
  words whose lengths add up to \<open>sz - 1\<close> pass the fit test
  (\<open>length A + length B + 1 \<le> sz\<close>) and are packed into one chunk of
  \<open>sz + 2\<close> characters, although each sentence is shorter than \<open>sz\<close>.  The
  specification's bound (at most \<open>maxSize\<close> unless one sentence exceeds it) fails
  for every \<open>maxSize \<ge> 3\<close>.
\<close>

theorem split_into_chunks_overshoot:
  assumes "list_all is_lower A" "list_all is_lower B" "A \<noteq> []" "B \<noteq> []" "length A + length B + 1 = sz"
  shows "chunk_sentences (A @ ''. '' @ B) = [A, B] \<and>
         split_into_chunks (A @ ''. '' @ B) sz = [A @ ''. '' @ B @ ''.''] \<and>
         length (A @ ''. '' @ B @ ''.'') = sz + 2"
proof -
  have cs: "chunk_sentences (A @ ''. '' @ B) = [A, B]" by (rule chunk_sentences_two_words [OF assms(1-4)])
  have "chunk_groups sz [A, B] = [[A, B]]"
    using assms(3,5) by (simp add: chunk_groups_def group_step_def)
  then show ?thesis using cs assms(5) by (simp add: render_chunk_groups render_def)
qed

theorem split_into_chunks_overshoot_witness:
  "list_all is_lower ''hello'' \<and> list_all is_lower ''abc'' \<and> length ''hello'' + length ''abc'' + 1 = 9 \<and>
   split_into_chunks ''hello. abc'' 9 = [''hello. abc.''] \<and> length ''hello. abc.'' = 9 + 2"
  using split_into_chunks_overshoot [of "''hello''" "''abc''" 9] by (simp add: char_class)

text \<open>
  The example of the specification: \<^verbatim>\<open>split("Hello world. This is great!", 15)\<close>
  is \<^verbatim>\<open>["Hello world.", "This is great."]\<close>.
\<close>

theorem split_into_chunks_example:
  "split_into_chunks ''Hello world. This is great!'' 15 = [''Hello world.'', ''This is great.'']"
  by (simp add: chunk_eval)

end
