(* ===== verification/Services.thy ===== *)
theory Services
  imports Prelude
begin

text \<open>
  The collaborators of \<^verbatim>\<open>rag.js\<close> that live outside the repository: the Ollama
  HTTP service (an answer of \<^verbatim>\<open>fetch\<close>), a PDF text extractor, and the Pinecone
  index.  Their behaviour is an environment record \<open>env\<close> fixed for a run; the
  state they keep is the record \<open>world\<close>: the shared index (absent, or present
  with its dimension, metric and the instant it reports ready), the records of
  every namespace, and a millisecond clock read by \<^verbatim>\<open>Date.now()\<close>.  The Pinecone
  operations are modelled from the specification (section 4.5), not from code.
\<close>

section \<open>Ollama answers\<close>

text \<open>
  What an awaited \<^verbatim>\<open>fetch(...)\<close> yields: a rejection (connection refused), or a
  response with its \<^verbatim>\<open>ok\<close> flag, its status and the result of
  \<^verbatim>\<open>response.json()\<close> (\<open>None\<close> when the body is no JSON).
\<close>

datatype http_outcome =
    NetworkFailure
  | HttpResponse bool nat "json option"

section \<open>The environment\<close>

record env =
  embed_api :: "string \<Rightarrow> http_outcome"
  generate_api :: "string \<Rightarrow> http_outcome"
  embed_latency :: nat
  index_boot :: nat
  similarity :: "int list \<Rightarrow> int list \<Rightarrow> int"
  pdf_parse :: "string \<Rightarrow> string option"

section \<open>The index state\<close>

record index_info =
  idx_dimension :: nat
  idx_metric :: string
  idx_ready_at :: nat

record stored =
  rec_values :: "int list"
  rec_meta :: obj

record world =
  index :: "index_info option"
  spaces :: "tenant \<Rightarrow> (string \<times> stored) list"
  clock :: nat

definition init_world :: world where
  "init_world = \<lparr>index = None, spaces = (\<lambda>_. []), clock = 0\<rparr>"

text \<open>An environment for concrete runs: every Ollama request fails, embedding
  calls take no time, a new index needs \<open>boot\<close> milliseconds to become ready.\<close>

definition offline_env :: "nat \<Rightarrow> env" where
  "offline_env boot =
     \<lparr>embed_api = (\<lambda>_. NetworkFailure), generate_api = (\<lambda>_. NetworkFailure), embed_latency = 0,
      index_boot = boot, similarity = (\<lambda>_ _. 0), pdf_parse = (\<lambda>_. None)\<rparr>"

text \<open>An environment whose embedding service answers every text with the same
  4096-dimensional vector after \<open>lat\<close> milliseconds, and an index that is ready.\<close>

definition unit_vector_env :: "nat \<Rightarrow> env" where
  "unit_vector_env lat =
     \<lparr>embed_api = (\<lambda>_. HttpResponse True 200 (Some (JObj [(''embedding'', JArr (replicate 4096 (JNum 1)))]))),
      generate_api = (\<lambda>_. HttpResponse True 200 (Some (JObj [(''response'', JStr ''ok'')]))),
      embed_latency = lat, index_boot = 0, similarity = (\<lambda>_ _. 0), pdf_parse = (\<lambda>_. None)\<rparr>"

definition ready_world :: world where
  "ready_world = init_world\<lparr>index := Some \<lparr>idx_dimension = 4096, idx_metric = ''cosine'', idx_ready_at = 0\<rparr>\<rparr>"

section \<open>Pinecone operations\<close>

text \<open>A vector sent to the index must consist of numbers.\<close>

fun to_numbers :: "json list \<Rightarrow> int list option" where
  "to_numbers [] = Some []"
| "to_numbers (JNum n # xs) = map_option (Cons n) (to_numbers xs)"
| "to_numbers (_ # xs) = None"

text \<open>\<^verbatim>\<open>pinecone.describeIndex(name)\<close>: the \<^verbatim>\<open>status.ready\<close> flag of the index.\<close>

definition pc_describe :: "world \<Rightarrow> pinecone_error + bool" where
  "pc_describe w =
     (case index w of None \<Rightarrow> Inl IndexNotFound | Some i \<Rightarrow> Inr (idx_ready_at i \<le> clock w))"

text \<open>\<^verbatim>\<open>pinecone.createIndex({name, dimension, metric, spec})\<close>; the new index
  becomes ready \<open>boot\<close> milliseconds later.\<close>

definition pc_create :: "nat \<Rightarrow> nat \<Rightarrow> string \<Rightarrow> world \<Rightarrow> pinecone_error + world" where
  "pc_create boot dim metric w =
     (case index w of
        Some _ \<Rightarrow> Inl IndexAlreadyExists
      | None \<Rightarrow> Inr (w\<lparr>index := Some \<lparr>idx_dimension = dim, idx_metric = metric,
                                       idx_ready_at = clock w + boot\<rparr>\<rparr>))"

text \<open>\<^verbatim>\<open>index.namespace(ns).upsert([{id, values, metadata}])\<close>: insert or replace.\<close>

definition pc_upsert :: "tenant \<Rightarrow> string \<Rightarrow> json list \<Rightarrow> obj \<Rightarrow> world \<Rightarrow> pinecone_error + world" where
  "pc_upsert ns rid vals md w =
     (case index w of
        None \<Rightarrow> Inl IndexNotFound
      | Some i \<Rightarrow>
          (case to_numbers vals of
             None \<Rightarrow> Inl NonNumericValues
           | Some v \<Rightarrow>
               if length v \<noteq> idx_dimension i then Inl (DimensionMismatch (length v) (idx_dimension i))
               else Inr (w\<lparr>spaces := (spaces w)(ns := AList.update rid \<lparr>rec_values = v, rec_meta = md\<rparr> (spaces w ns))\<rparr>)))"

text \<open>
  \<^verbatim>\<open>index.namespace(ns).query({vector, topK, includeMetadata: true})\<close>: the
  matches \<open>(id, score, metadata)\<close> of the namespace, best score first, at most
  \<open>topK\<close> of them.
\<close>

definition pc_query :: "(int list \<Rightarrow> int list \<Rightarrow> int) \<Rightarrow> tenant \<Rightarrow> json list \<Rightarrow> nat \<Rightarrow> world
    \<Rightarrow> pinecone_error + (string \<times> int \<times> obj) list" where
  "pc_query sim ns vals k w =
     (case index w of
        None \<Rightarrow> Inl IndexNotFound
      | Some i \<Rightarrow>
          (case to_numbers vals of
             None \<Rightarrow> Inl NonNumericValues
           | Some v \<Rightarrow>
               if length v \<noteq> idx_dimension i then Inl (DimensionMismatch (length v) (idx_dimension i))
               else Inr (take k (sort_key (\<lambda>m. - fst (snd m))
                          (map (\<lambda>(rid, r). (rid, sim v (rec_values r), rec_meta r)) (spaces w ns))))))"

text \<open>\<^verbatim>\<open>index.namespace(ns).deleteAll()\<close>.\<close>

definition pc_delete_all :: "tenant \<Rightarrow> world \<Rightarrow> pinecone_error + world" where
  "pc_delete_all ns w =
     (case index w of
        None \<Rightarrow> Inl IndexNotFound
      | Some _ \<Rightarrow> Inr (w\<lparr>spaces := (spaces w)(ns := [])\<rparr>))"

section \<open>Lemmas on the index operations\<close>

lemma pc_upsert_Inr:
  "pc_upsert ns rid vals md w = Inr w' \<longleftrightarrow>
   (\<exists>i v. index w = Some i \<and> to_numbers vals = Some v \<and> length v = idx_dimension i \<and>
          w' = w\<lparr>spaces := (spaces w)(ns := AList.update rid \<lparr>rec_values = v, rec_meta = md\<rparr> (spaces w ns))\<rparr>)"
  by (auto simp: pc_upsert_def split: option.splits)

lemma pc_upsert_index: "pc_upsert ns rid vals md w = Inr w' \<Longrightarrow> index w' = index w \<and> clock w' = clock w"
  by (auto simp: pc_upsert_Inr)

lemma pc_upsert_other: "pc_upsert ns rid vals md w = Inr w' \<Longrightarrow> u \<noteq> ns \<Longrightarrow> spaces w' u = spaces w u"
  by (auto simp: pc_upsert_Inr)

lemma pc_query_Inr:
  "pc_query sim ns vals k w = Inr ms \<longleftrightarrow>
   (\<exists>i v. index w = Some i \<and> to_numbers vals = Some v \<and> length v = idx_dimension i \<and>
          ms = take k (sort_key (\<lambda>m. - fst (snd m))
                 (map (\<lambda>(rid, r). (rid, sim v (rec_values r), rec_meta r)) (spaces w ns))))"
  by (auto simp: pc_query_def split: option.splits)

lemma pc_delete_all_Inr:
  "pc_delete_all ns w = Inr w' \<longleftrightarrow> index w \<noteq> None \<and> w' = w\<lparr>spaces := (spaces w)(ns := [])\<rparr>"
  by (auto simp: pc_delete_all_def split: option.splits)

lemma to_numbers_replicate [simp]: "to_numbers (replicate n (JNum k)) = Some (replicate n k)"
  by (induction n) auto

lemma to_numbers_length: "to_numbers xs = Some v \<Longrightarrow> length v = length xs"
  by (induction xs arbitrary: v rule: to_numbers.induct) auto

end
