(* ===== verification/Ollama.thy ===== *)
theory Ollama
  imports Services
begin

text \<open>
  The two calls of \<^verbatim>\<open>rag.js\<close> to the Ollama service: \<^verbatim>\<open>getEmbedding\<close>
  (\<^verbatim>\<open>src/unnamed/part_000\<close>, lines 24--50) and the generation request of
  \<^verbatim>\<open>askQuestion\<close> (lines 204--228).  Each call takes \<open>embed_latency\<close>
  milliseconds of the world clock (the embedding call) and ends in one of the
  branches of the source: rejected fetch, non-2xx status, body that is no JSON,
  property read on \<^verbatim>\<open>null\<close>, missing or non-array \<^verbatim>\<open>embedding\<close>, or success.
\<close>

definition get_embedding :: "env \<Rightarrow> string \<Rightarrow> world \<Rightarrow> (error + json list) \<times> world" where
  "get_embedding E text w =
     (let w' = w\<lparr>clock := clock w + embed_latency E\<rparr> in
      case embed_api E text of
        NetworkFailure \<Rightarrow> (Inl FetchFailed, w')
      | HttpResponse ok status body \<Rightarrow>
          if \<not> ok then (Inl (HttpError status), w')
          else (case body of
                  None \<Rightarrow> (Inl JsonSyntaxError, w')
                | Some data \<Rightarrow>
                    (case js_prop data ''embedding'' of
                       Inl e \<Rightarrow> (Inl e, w')
                     | Inr (Some (JArr xs)) \<Rightarrow> (Inr xs, w')
                     | Inr _ \<Rightarrow> (Inl InvalidEmbeddingFormat, w'))))"

text \<open>
  The generation request: \<^verbatim>\<open>result.response\<close> is read without any check, so a
  body without that field yields \<^verbatim>\<open>undefined\<close> (\<open>None\<close>), not an error.
\<close>

definition generate :: "env \<Rightarrow> string \<Rightarrow> error + json option" where
  "generate E prompt =
     (case generate_api E prompt of
        NetworkFailure \<Rightarrow> Inl FetchFailed
      | HttpResponse ok status body \<Rightarrow>
          if \<not> ok then Inl (HttpError status)
          else (case body of
                  None \<Rightarrow> Inl JsonSyntaxError
                | Some result \<Rightarrow> js_prop result ''response''))"

lemma get_embedding_world: "get_embedding E t w = (r, w') \<Longrightarrow> w' = w\<lparr>clock := clock w + embed_latency E\<rparr>"
  by (auto simp: get_embedding_def Let_def split: http_outcome.splits if_splits option.splits sum.splits json.splits)

lemma get_embedding_ok:
  "fst (get_embedding E t w) = Inr xs \<longleftrightarrow>
   (\<exists>status data. embed_api E t = HttpResponse True status (Some data) \<and>
      js_prop data ''embedding'' = Inr (Some (JArr xs)))"
  by (auto simp: get_embedding_def Let_def split: http_outcome.splits if_splits option.splits sum.splits json.splits)

end
