(* ===== verification/Ingest.thy ===== *)
theory Ingest
  imports Chunker Ollama
begin

text \<open>
  Ingestion (\<^verbatim>\<open>src/unnamed/part_000\<close>): \<^verbatim>\<open>addDocument\<close> (lines 118--156) chunks
  the text, and for each chunk in order embeds it, names it
  \<^verbatim>\<open>doc_${Date.now()}_chunk_${i}\<close> and upserts it into the tenant's namespace with
  the caller's metadata overridden by \<^verbatim>\<open>text\<close>, \<^verbatim>\<open>chunkIndex\<close>,
  \<^verbatim>\<open>totalChunks\<close>, \<^verbatim>\<open>timestamp\<close> and \<^verbatim>\<open>userId\<close>.  The loop is
  \<open>add_chunks\<close>; the first failing call ends it, and what was upserted stays.
  \<^verbatim>\<open>addPdfDocument\<close> (158--170) runs the PDF text through \<^verbatim>\<open>processPdfBuffer\<close>
  (91--100) first; \<^verbatim>\<open>addDocuments\<close> (250--270) ingests a batch in order and stops
  at the first failing document; an element that is not a string fails with a
  \<^verbatim>\<open>TypeError\<close>.  The timestamp is kept as the clock value in
  milliseconds that \<^verbatim>\<open>toISOString\<close> renders.
\<close>

definition doc_id :: "nat \<Rightarrow> nat \<Rightarrow> string" where
  "doc_id now i = ''doc_'' @ nat_str now @ ''_chunk_'' @ nat_str i"

definition chunk_metadata :: "obj \<Rightarrow> string \<Rightarrow> nat \<Rightarrow> nat \<Rightarrow> nat \<Rightarrow> tenant \<Rightarrow> obj" where
  "chunk_metadata md chunk i cnt now u =
     md(''text'' \<mapsto> JStr chunk, ''chunkIndex'' \<mapsto> JNum (int i), ''totalChunks'' \<mapsto> JNum (int cnt),
        ''timestamp'' \<mapsto> JNum (int now), ''userId'' \<mapsto> JStr u)"

record add_result =
  added_message :: string
  added_chunks :: "(string \<times> string) list"

fun add_chunks :: "env \<Rightarrow> tenant \<Rightarrow> obj \<Rightarrow> nat \<Rightarrow> nat \<Rightarrow> string list \<Rightarrow> (string \<times> string) list
    \<Rightarrow> world \<Rightarrow> (error + (string \<times> string) list) \<times> world" where
  "add_chunks E u md n i [] acc w = (Inr acc, w)"
| "add_chunks E u md n i (c # cs) acc w =
     (case get_embedding E c w of
        (Inl e, w1) \<Rightarrow> (Inl e, w1)
      | (Inr emb, w1) \<Rightarrow>
          (let rid = doc_id (clock w1) i in
           case pc_upsert u rid emb (chunk_metadata md c i n (clock w1) u) w1 of
             Inl e \<Rightarrow> (Inl (Pinecone e), w1)
           | Inr w2 \<Rightarrow> add_chunks E u md n (Suc i) cs (acc @ [(rid, c)]) w2))"

definition add_document :: "env \<Rightarrow> tenant \<Rightarrow> string \<Rightarrow> obj \<Rightarrow> world \<Rightarrow> (error + add_result) \<times> world" where
  "add_document E u text md w =
     (let chunks = split_into_chunks text CHUNK_SIZE in
      case add_chunks E u md (length chunks) 0 chunks [] w of
        (Inl e, w') \<Rightarrow> (Inl e, w')
      | (Inr rs, w') \<Rightarrow>
          (Inr \<lparr>added_message = ''Added document with '' @ nat_str (length chunks) @ '' chunks'',
                added_chunks = rs\<rparr>, w'))"

definition process_pdf_buffer :: "env \<Rightarrow> string \<Rightarrow> error + string" where
  "process_pdf_buffer E buf =
     (case pdf_parse E buf of None \<Rightarrow> Inl PdfProcessingFailed | Some t \<Rightarrow> Inr (preprocess_text t))"

definition add_pdf_document :: "env \<Rightarrow> tenant \<Rightarrow> string \<Rightarrow> obj \<Rightarrow> world \<Rightarrow> (error + add_result) \<times> world" where
  "add_pdf_document E u buf md w =
     (case process_pdf_buffer E buf of
        Inl e \<Rightarrow> (Inl e, w)
      | Inr text \<Rightarrow> add_document E u text (md(''documentType'' \<mapsto> JStr ''pdf'')) w)"

text \<open>A batch element that is not a string has no \<^verbatim>\<open>replace\<close> method: the call of
  \<^verbatim>\<open>preprocessText\<close> inside \<^verbatim>\<open>addDocument\<close> throws a \<^verbatim>\<open>TypeError\<close> before
  anything is embedded.\<close>

fun add_documents_loop :: "env \<Rightarrow> tenant \<Rightarrow> obj \<Rightarrow> json list \<Rightarrow> add_result list \<Rightarrow> world
    \<Rightarrow> (error + add_result list) \<times> world" where
  "add_documents_loop E u md [] acc w = (Inr acc, w)"
| "add_documents_loop E u md (d # ds) acc w =
     (case d of
        JStr t \<Rightarrow>
          (case add_document E u t md w of
             (Inl e, w') \<Rightarrow> (Inl e, w')
           | (Inr r, w') \<Rightarrow> add_documents_loop E u md ds (acc @ [r]) w')
      | _ \<Rightarrow> (Inl JsTypeError, w))"

definition add_documents :: "env \<Rightarrow> tenant \<Rightarrow> json list \<Rightarrow> obj \<Rightarrow> world \<Rightarrow> (error + add_result list) \<times> world" where
  "add_documents E u docs md w = add_documents_loop E u md docs [] w"

text \<open>The chunk \<open>(id, text)\<close> with ordinal \<open>j\<close> is stored in the tenant's namespace
  under its id, with the metadata \<^verbatim>\<open>addDocument\<close> attaches.\<close>

definition chunk_stored :: "tenant \<Rightarrow> obj \<Rightarrow> nat \<Rightarrow> world \<Rightarrow> nat \<Rightarrow> string \<times> string \<Rightarrow> bool" where
  "chunk_stored u md n w j p \<longleftrightarrow>
     (\<exists>t v. fst p = doc_id t j \<and>
            map_of (spaces w u) (fst p) = Some \<lparr>rec_values = v, rec_meta = chunk_metadata md (snd p) j n t u\<rparr>)"

text \<open>The embedding service accepts the text and answers with a vector of numbers of
  the given dimension.\<close>

definition embeds_ok :: "env \<Rightarrow> nat \<Rightarrow> string \<Rightarrow> bool" where
  "embeds_ok E dim c \<longleftrightarrow>
     (case fst (get_embedding E c init_world) of
        Inr vals \<Rightarrow> (case to_numbers vals of Some v \<Rightarrow> length v = dim | None \<Rightarrow> False)
      | Inl _ \<Rightarrow> False)"

text \<open>Environments for the concrete runs: one whose embedding service fails on texts
  starting with \<open>b\<close>, one whose embedding is an array of strings.\<close>

definition b_fails_env :: env where
  "b_fails_env = (unit_vector_env 0)\<lparr>embed_api := (\<lambda>c. if c \<noteq> [] \<and> hd c = CHR ''b'' then NetworkFailure
                                                       else embed_api (unit_vector_env 0) c)\<rparr>"

definition string_embedding_env :: env where
  "string_embedding_env =
     (unit_vector_env 0)\<lparr>embed_api := (\<lambda>_. HttpResponse True 200 (Some (JObj [(''embedding'', JArr [JStr ''x''])])))\<rparr>"

section \<open>Record identifiers\<close>

lemma underscore_not_digit: "CHR ''_'' \<notin> set (nat_str k)"
proof
  assume "CHR ''_'' \<in> set (nat_str k)"
  from nat_str_digits [OF this] show False by simp
qed

lemma doc_id_inject_lemma: "doc_id t i = doc_id t' i' \<Longrightarrow> t = t' \<and> i = i'"
proof -
  assume "doc_id t i = doc_id t' i'"
  then have eq: "nat_str t @ CHR ''_'' # (''chunk_'' @ nat_str i) = nat_str t' @ CHR ''_'' # (''chunk_'' @ nat_str i')"
    by (simp add: doc_id_def)
  have "nat_str t = nat_str t' \<and> ''chunk_'' @ nat_str i = ''chunk_'' @ nat_str i'"
    by (rule append_sep_inject [OF underscore_not_digit underscore_not_digit eq])
  then show ?thesis by (auto dest: nat_str_inject)
qed

section \<open>The chunk loop\<close>

lemma get_embedding_fst: "fst (get_embedding E c w) = fst (get_embedding E c w')"
  by (simp add: get_embedding_def Let_def split: http_outcome.splits option.splits sum.splits json.splits)

lemma add_chunks_frame:
  "add_chunks E u md n i cs acc w = (r, w') \<Longrightarrow> index w' = index w \<and> (\<forall>v. v \<noteq> u \<longrightarrow> spaces w' v = spaces w v)"
proof (induction cs arbitrary: i acc w)
  case (Cons c cs)
  then show ?case
    by (auto simp: Let_def pc_upsert_Inr dest!: get_embedding_world split: prod.splits sum.splits)
qed simp

lemma add_chunks_untouched:
  "add_chunks E u md n i cs acc w = (r, w') \<Longrightarrow> \<forall>t j. i \<le> j \<longrightarrow> rid \<noteq> doc_id t j \<Longrightarrow>
   map_of (spaces w' u) rid = map_of (spaces w u) rid"
proof (induction cs arbitrary: i acc w)
  case (Cons c cs)
  then show ?case
    by (fastforce simp: Let_def pc_upsert_Inr update_conv' dest!: get_embedding_world split: prod.splits sum.splits)
qed simp

lemma chunk_stored_Cons:
  assumes "pc_upsert u (doc_id (clock w1) i) emb (chunk_metadata md c i n (clock w1) u) w1 = Inr w2"
    and "add_chunks E u md n (Suc i) cs acc' w2 = (r, w')"
  shows "chunk_stored u md n w' i (doc_id (clock w1) i, c)"
proof -
  have "\<forall>t j. Suc i \<le> j \<longrightarrow> doc_id (clock w1) i \<noteq> doc_id t j"
    using doc_id_inject_lemma by fastforce
  then have "map_of (spaces w' u) (doc_id (clock w1) i) = map_of (spaces w2 u) (doc_id (clock w1) i)"
    using add_chunks_untouched [OF assms(2)] by blast
  with assms(1) show ?thesis
    by (auto simp: chunk_stored_def pc_upsert_Inr update_conv')
qed

lemma add_chunks_stored:
  "add_chunks E u md n i cs acc w = (r, w') \<Longrightarrow>
   \<exists>rs. map snd rs = take (length rs) cs \<and> (\<forall>j < length rs. chunk_stored u md n w' (i + j) (rs ! j)) \<and>
        (case r of Inr x \<Rightarrow> x = acc @ rs \<and> length rs = length cs | Inl _ \<Rightarrow> length rs < length cs)"
proof (induction cs arbitrary: i acc w r w')
  case Nil
  then show ?case by (intro exI [where x = "[]"]) auto
next
  case (Cons c cs)
  obtain res w1 where ge: "get_embedding E c w = (res, w1)" by fastforce
  show ?case
  proof (cases res)
    case (Inl e)
    with Cons.prems ge show ?thesis by (intro exI [where x = "[]"]) auto
  next
    case (Inr emb)
    let ?rid = "doc_id (clock w1) i"
    show ?thesis
    proof (cases "pc_upsert u ?rid emb (chunk_metadata md c i n (clock w1) u) w1")
      case (Inl e)
      with Cons.prems ge Inr show ?thesis by (intro exI [where x = "[]"]) (auto simp: Let_def)
    next
      case (Inr w2)
      with Cons.prems ge \<open>res = Inr emb\<close>
      have rest: "add_chunks E u md n (Suc i) cs (acc @ [(?rid, c)]) w2 = (r, w')"
        by (simp add: Let_def)
      from Cons.IH [OF rest] obtain rs where
        rs: "map snd rs = take (length rs) cs"
            "\<forall>j < length rs. chunk_stored u md n w' (Suc i + j) (rs ! j)"
            "case r of Inr x \<Rightarrow> x = (acc @ [(?rid, c)]) @ rs \<and> length rs = length cs
                     | Inl _ \<Rightarrow> length rs < length cs"
        by blast
      have first: "chunk_stored u md n w' i (?rid, c)"
        using chunk_stored_Cons [OF Inr rest] .
      have "\<forall>j < length ((?rid, c) # rs). chunk_stored u md n w' (i + j) (((?rid, c) # rs) ! j)"
      proof (intro allI impI)
        fix j assume "j < length ((?rid, c) # rs)"
        then show "chunk_stored u md n w' (i + j) (((?rid, c) # rs) ! j)"
          using first rs(2) by (cases j) auto
      qed
      moreover have "map snd ((?rid, c) # rs) = take (length ((?rid, c) # rs)) (c # cs)"
        using rs(1) by simp
      moreover have "case r of Inr x \<Rightarrow> x = acc @ ((?rid, c) # rs) \<and> length ((?rid, c) # rs) = length (c # cs)
                     | Inl _ \<Rightarrow> length ((?rid, c) # rs) < length (c # cs)"
        using rs(3) by (auto split: sum.splits)
      ultimately show ?thesis by blast
    qed
  qed
qed

lemma embeds_ok_get_embedding:
  "embeds_ok E d c \<Longrightarrow> \<exists>vals v. fst (get_embedding E c w) = Inr vals \<and> to_numbers vals = Some v \<and> length v = d"
  using get_embedding_fst [of E c w init_world]
  by (auto simp: embeds_ok_def split: sum.splits option.splits)

lemma add_chunks_progress:
  "index w = Some ix \<Longrightarrow> \<forall>c \<in> set cs. embeds_ok E (idx_dimension ix) c \<Longrightarrow>
   \<exists>x w'. add_chunks E u md n i cs acc w = (Inr x, w')"
proof (induction cs arbitrary: i acc w)
  case (Cons c cs)
  obtain res w1 where ge: "get_embedding E c w = (res, w1)" by fastforce
  have w1: "w1 = w\<lparr>clock := clock w + embed_latency E\<rparr>" using get_embedding_world [OF ge] .
  from embeds_ok_get_embedding [of E "idx_dimension ix" c w] Cons.prems ge
  obtain vals v where "res = Inr vals" "to_numbers vals = Some v" "length v = idx_dimension ix" by auto
  moreover obtain w2 where "pc_upsert u (doc_id (clock w1) i) vals (chunk_metadata md c i n (clock w1) u) w1 = Inr w2"
    and "index w2 = Some ix"
    using calculation Cons.prems(1) w1 by (auto simp: pc_upsert_def)
  ultimately show ?case
    using Cons.IH [of w2] Cons.prems(2) ge by (auto simp: Let_def)
qed simp

lemma add_chunks_ids_no_latency:
  "embed_latency E = 0 \<Longrightarrow> add_chunks E u md n i cs acc w = (Inr x, w') \<Longrightarrow>
   map fst x = map fst acc @ map (doc_id (clock w)) [i..<i + length cs] \<and> clock w' = clock w"
proof (induction cs arbitrary: i acc w)
  case (Cons c cs)
  obtain res w1 where ge: "get_embedding E c w = (res, w1)" by fastforce
  have w1: "w1 = w" using get_embedding_world [OF ge] Cons.prems(1) by simp
  with Cons.prems ge obtain emb w2 where
    up: "pc_upsert u (doc_id (clock w) i) emb (chunk_metadata md c i n (clock w) u) w = Inr w2" and
    rest: "add_chunks E u md n (Suc i) cs (acc @ [(doc_id (clock w) i, c)]) w2 = (Inr x, w')"
    by (auto simp: Let_def split: sum.splits)
  have "clock w2 = clock w" using pc_upsert_index [OF up] by simp
  moreover have "[i..<i + length (c # cs)] = i # [Suc i..<Suc i + length cs]"
    by (simp del: upt_Suc add: upt_conv_Cons)
  ultimately show ?case
    using Cons.IH [OF Cons.prems(1) rest] by simp
qed simp

lemma add_documents_loop_ids_no_latency:
  "embed_latency E = 0 \<Longrightarrow> add_documents_loop E u md docs acc w = (Inr rs, w') \<Longrightarrow>
   r \<in> set rs \<Longrightarrow> r \<notin> set acc \<Longrightarrow> map fst (added_chunks r) = map (doc_id (clock w)) [0..<length (added_chunks r)]"
proof (induction docs arbitrary: acc w)
  case (Cons d ds)
  from Cons.prems obtain d' r1 w1 where
    ad: "add_document E u d' md w = (Inr r1, w1)" and
    rest: "add_documents_loop E u md ds (acc @ [r1]) w1 = (Inr rs, w')"
    by (auto split: json.splits prod.splits sum.splits)
  from ad obtain x where
    ac: "add_chunks E u md (length (split_into_chunks d' CHUNK_SIZE)) 0 (split_into_chunks d' CHUNK_SIZE) [] w = (Inr x, w1)"
    and r1: "r1 = \<lparr>added_message = ''Added document with '' @ nat_str (length (split_into_chunks d' CHUNK_SIZE)) @ '' chunks'', added_chunks = x\<rparr>"
    by (auto simp: add_document_def Let_def split: prod.splits sum.splits)
  from add_chunks_ids_no_latency [OF Cons.prems(1) ac]
  have x: "map fst x = map (doc_id (clock w)) [0..<length (split_into_chunks d' CHUNK_SIZE)]" and cl: "clock w1 = clock w"
    by simp_all
  then have "length x = length (split_into_chunks d' CHUNK_SIZE)"
    by (metis length_map length_upt minus_nat.diff_0)
  with x r1 have ids: "map fst (added_chunks r1) = map (doc_id (clock w)) [0..<length (added_chunks r1)]"
    by simp
  show ?case
  proof (cases "r = r1")
    case True
    then show ?thesis using ids by simp
  next
    case False
    then show ?thesis using Cons.IH [OF Cons.prems(1) rest] Cons.prems(3,4) cl by simp
  qed
qed simp

lemma add_chunks_fail_at:
  assumes "index w = Some ix" "k < length cs" "\<forall>c \<in> set (take k cs). embeds_ok E (idx_dimension ix) c"
    "fst (get_embedding E (cs ! k) w) = Inl e"
  shows "\<exists>w' rs. add_chunks E u md n i cs acc w = (Inl e, w') \<and> map snd rs = take k cs \<and>
           (\<forall>j < k. chunk_stored u md n w' (i + j) (rs ! j))"
  using assms
proof (induction cs arbitrary: i acc w k)
  case (Cons c cs)
  obtain res w1 where ge: "get_embedding E c w = (res, w1)" by fastforce
  have w1: "w1 = w\<lparr>clock := clock w + embed_latency E\<rparr>" using get_embedding_world [OF ge] .
  show ?case
  proof (cases k)
    case 0
    with Cons.prems(4) ge have "res = Inl e" by simp
    with ge 0 show ?thesis by (intro exI [where x = w1] exI [where x = "[]"]) simp
  next
    case (Suc k')
    from embeds_ok_get_embedding [of E "idx_dimension ix" c w] Cons.prems(3) ge Suc
    obtain vals v where r: "res = Inr vals" "to_numbers vals = Some v" "length v = idx_dimension ix" by auto
    let ?rid = "doc_id (clock w1) i"
    obtain w2 where up: "pc_upsert u ?rid vals (chunk_metadata md c i n (clock w1) u) w1 = Inr w2"
      and ix2: "index w2 = Some ix"
      using r Cons.prems(1) w1 by (auto simp: pc_upsert_def)
    have fail: "fst (get_embedding E (cs ! k') w2) = Inl e"
      using Cons.prems(4) Suc get_embedding_fst [of E "cs ! k'" w2 w] by simp
    have lt: "k' < length cs" and ok: "\<forall>c \<in> set (take k' cs). embeds_ok E (idx_dimension ix) c"
      using Cons.prems(2,3) Suc by auto
    obtain w' rs where
      rest: "add_chunks E u md n (Suc i) cs (acc @ [(?rid, c)]) w2 = (Inl e, w')" and
      rs: "map snd rs = take k' cs" "\<forall>j < k'. chunk_stored u md n w' (Suc i + j) (rs ! j)"
      using Cons.IH [OF ix2 lt ok fail, of "Suc i" "acc @ [(?rid, c)]"] by blast
    have first: "chunk_stored u md n w' i (?rid, c)" by (rule chunk_stored_Cons [OF up rest])
    have "\<forall>j < k. chunk_stored u md n w' (i + j) (((?rid, c) # rs) ! j)"
    proof (intro allI impI)
      fix j assume "j < k"
      then show "chunk_stored u md n w' (i + j) (((?rid, c) # rs) ! j)"
        using first rs(2) Suc by (cases j) auto
    qed
    moreover have "add_chunks E u md n i (c # cs) acc w = (Inl e, w')"
      using ge r up rest by (simp add: Let_def)
    ultimately show ?thesis using rs(1) Suc by (intro exI [where x = w'] exI [where x = "(?rid, c) # rs"]) simp
  qed
qed simp

lemma get_embedding_array:
  "embed_api E c = HttpResponse True st (Some (JObj [(''embedding'', JArr vs)])) \<Longrightarrow> fst (get_embedding E c w) = Inr vs"
  by (simp add: get_embedding_def Let_def)

section \<open>Properties of ingestion\<close>

lemma add_document_chunks:
  "add_document E u text md w = (r, w') \<Longrightarrow>
   \<exists>x. add_chunks E u md (length (split_into_chunks text CHUNK_SIZE)) 0 (split_into_chunks text CHUNK_SIZE) [] w = (x, w') \<and>
       (\<forall>e. r = Inl e \<longleftrightarrow> x = Inl e) \<and>
       (\<forall>a. r = Inr a \<longrightarrow> x = Inr (added_chunks a))"
  by (auto simp: add_document_def Let_def split: prod.splits sum.splits)

text \<open>
  C13. A document that \<^verbatim>\<open>addDocument\<close> reports as added has all its chunks, in
  order, in the tenant's namespace: the \<open>j\<close>-th returned pair is the \<open>j\<close>-th chunk of
  \<^verbatim>\<open>splitIntoChunks\<close>, stored under its \<^verbatim>\<open>doc_<t>_chunk_<j>\<close> id with the caller's
  metadata extended by the chunk text, its ordinal, the chunk count, the timestamp
  and the tenant id.
\<close>

theorem add_document_stores:
  assumes "add_document E u text md w = (Inr r, w')"
  shows "map snd (added_chunks r) = split_into_chunks text CHUNK_SIZE \<and>
         (\<forall>j < length (added_chunks r).
            chunk_stored u md (length (split_into_chunks text CHUNK_SIZE)) w' j (added_chunks r ! j))"
proof -
  let ?cs = "split_into_chunks text CHUNK_SIZE"
  from add_document_chunks [OF assms]
  have ac: "add_chunks E u md (length ?cs) 0 ?cs [] w = (Inr (added_chunks r), w')" by auto
  from add_chunks_stored [OF ac] obtain rs where
    "map snd rs = take (length rs) ?cs" "\<forall>j < length rs. chunk_stored u md (length ?cs) w' j (rs ! j)"
    "added_chunks r = rs" "length rs = length ?cs"
    by auto
  then show ?thesis by simp
qed

text \<open>
  C14. \<^verbatim>\<open>addDocument\<close> succeeds whenever the index exists and the embedding service
  returns a numeric vector of the index's dimension for every chunk; its message
  counts the chunks.
\<close>

theorem add_document_succeeds:
  assumes "index w = Some ix"
    and "\<forall>c \<in> set (split_into_chunks text CHUNK_SIZE). embeds_ok E (idx_dimension ix) c"
  shows "\<exists>r w'. add_document E u text md w = (Inr r, w') \<and>
           added_message r = ''Added document with '' @ nat_str (length (split_into_chunks text CHUNK_SIZE)) @ '' chunks''"
proof -
  let ?cs = "split_into_chunks text CHUNK_SIZE"
  obtain x w' where "add_chunks E u md (length ?cs) 0 ?cs [] w = (Inr x, w')"
    using add_chunks_progress [OF assms] by blast
  then show ?thesis by (simp add: add_document_def)
qed

text \<open>
  C15. A failing \<^verbatim>\<open>addDocument\<close> is not rolled back.  When the index exists,
  the embeddings of the first \<open>k\<close> chunks are numeric vectors of its dimension and
  the embedding of chunk \<open>k\<close> fails, \<^verbatim>\<open>addDocument\<close> throws that error and
  the first \<open>k\<close> chunks stay stored, each under its id with its metadata.
\<close>

theorem add_document_partial:
  assumes "index w = Some ix"
    and "k < length (split_into_chunks text CHUNK_SIZE)"
    and "\<forall>c \<in> set (take k (split_into_chunks text CHUNK_SIZE)). embeds_ok E (idx_dimension ix) c"
    and "fst (get_embedding E (split_into_chunks text CHUNK_SIZE ! k) w) = Inl e"
  shows "\<exists>w' rs. add_document E u text md w = (Inl e, w') \<and> map snd rs = take k (split_into_chunks text CHUNK_SIZE) \<and>
           (\<forall>j < k. chunk_stored u md (length (split_into_chunks text CHUNK_SIZE)) w' j (rs ! j))"
  using add_chunks_fail_at [OF assms, of u md "length (split_into_chunks text CHUNK_SIZE)" 0 "[]"]
  by (auto simp: add_document_def Let_def)

text \<open>
  C16. Namespace isolation of ingestion: whatever its outcome, \<^verbatim>\<open>addDocument\<close>
  for tenant \<open>u\<close> changes no other tenant's namespace and not the index.
\<close>

theorem add_document_isolation:
  assumes "add_document E u text md w = (r, w')" and "v \<noteq> u"
  shows "spaces w' v = spaces w v \<and> index w' = index w"
  using add_document_chunks [OF assms(1)] add_chunks_frame assms(2) by blast

text \<open>
  C17. Record ids \<^verbatim>\<open>doc_${Date.now()}_chunk_${i}\<close> are equal exactly when both
  the millisecond timestamp and the chunk ordinal are.
\<close>

theorem doc_id_inject: "doc_id t i = doc_id t' i' \<longleftrightarrow> t = t' \<and> i = i'"
  using doc_id_inject_lemma by blast

text \<open>
  C18. Id collisions across documents: when the embedding calls return within the
  same millisecond, every document of an \<^verbatim>\<open>addDocuments\<close> batch names its
  \<open>j\<close>-th chunk with the same id, so later documents overwrite earlier ones.
\<close>

theorem add_documents_id_collision:
  assumes "embed_latency E = 0" and "add_documents E u docs md w = (Inr rs, w')"
    and "a < length rs" and "b < length rs"
    and "j < length (added_chunks (rs ! a))" and "j < length (added_chunks (rs ! b))"
  shows "fst (added_chunks (rs ! a) ! j) = fst (added_chunks (rs ! b) ! j)"
proof -
  have "\<And>c. c < length rs \<Longrightarrow> map fst (added_chunks (rs ! c)) = map (doc_id (clock w)) [0..<length (added_chunks (rs ! c))]"
    using add_documents_loop_ids_no_latency [OF assms(1)] assms(2) by (simp add: add_documents_def)
  then have "\<And>c. c < length rs \<Longrightarrow> j < length (added_chunks (rs ! c)) \<Longrightarrow> fst (added_chunks (rs ! c) ! j) = doc_id (clock w) j"
    by (metis (no_types, lifting) add_0 length_map nth_map nth_upt)
  with assms(3-6) show ?thesis by simp
qed

lemmas ingest_eval = add_document_def chunk_eval CHUNK_SIZE_def get_embedding_def Let_def
  unit_vector_env_def offline_env_def ready_world_def init_world_def pc_upsert_def

theorem add_document_stores_witness:
  "\<exists>r w'. add_document (unit_vector_env 1) ''alice'' ''Hello.'' Map.empty ready_world = (Inr r, w') \<and>
     map snd (added_chunks r) = [''Hello.''] \<and> chunk_stored ''alice'' Map.empty 1 w' 0 (hd (added_chunks r))"
proof -
  have "\<exists>r w'. add_document (unit_vector_env 1) ''alice'' ''Hello.'' Map.empty ready_world = (Inr r, w')"
    by (simp add: ingest_eval)
  then obtain r w' where eq: "add_document (unit_vector_env 1) ''alice'' ''Hello.'' Map.empty ready_world = (Inr r, w')"
    by blast
  have cs: "split_into_chunks ''Hello.'' CHUNK_SIZE = [''Hello.'']" by (simp add: chunk_eval CHUNK_SIZE_def)
  from add_document_stores [OF eq] cs have "map snd (added_chunks r) = [''Hello.'']"
    and "chunk_stored ''alice'' Map.empty 1 w' 0 (added_chunks r ! 0)" by auto
  moreover from this(1) have "added_chunks r ! 0 = hd (added_chunks r)" by (cases "added_chunks r") auto
  ultimately show ?thesis using eq by auto
qed

theorem add_document_succeeds_witness:
  "\<exists>r w'. add_document (unit_vector_env 1) ''alice'' ''Hello.'' Map.empty ready_world = (Inr r, w') \<and>
     added_message r = ''Added document with '' @ nat_str 1 @ '' chunks''"
  using add_document_succeeds [of ready_world "\<lparr>idx_dimension = 4096, idx_metric = ''cosine'', idx_ready_at = 0\<rparr>"
      "''Hello.''" "unit_vector_env 1" "''alice''" Map.empty]
  by (simp add: ingest_eval embeds_ok_def)

lemma two_chunks:
  "split_into_chunks (replicate 1000 (CHR ''a'') @ ''. b'') CHUNK_SIZE = [replicate 1000 (CHR ''a'') @ ''.'', ''b.'']"
proof -
  have "chunk_sentences (replicate 1000 (CHR ''a'') @ ''. '' @ ''b'') = [replicate 1000 (CHR ''a''), ''b'']"
    by (rule chunk_sentences_two_words) (simp_all add: list_all_iff char_class)
  then show ?thesis
    by (simp add: render_chunk_groups chunk_groups_def group_step_def render_def CHUNK_SIZE_def)
qed

theorem add_document_partial_witness:
  "index ready_world = Some \<lparr>idx_dimension = 4096, idx_metric = ''cosine'', idx_ready_at = 0\<rparr> \<and>
   1 < length (split_into_chunks (replicate 1000 (CHR ''a'') @ ''. b'') CHUNK_SIZE) \<and>
   embeds_ok b_fails_env 4096 (replicate 1000 (CHR ''a'') @ ''.'') \<and>
   fst (get_embedding b_fails_env ''b.'' ready_world) = Inl FetchFailed \<and>
   (\<exists>w' rs. add_document b_fails_env ''alice'' (replicate 1000 (CHR ''a'') @ ''. b'') Map.empty ready_world = (Inl FetchFailed, w') \<and>
      map snd rs = [replicate 1000 (CHR ''a'') @ ''.''] \<and>
      chunk_stored ''alice'' Map.empty 2 w' 0 (rs ! 0))"
  using add_document_partial [of ready_world "\<lparr>idx_dimension = 4096, idx_metric = ''cosine'', idx_ready_at = 0\<rparr>" 1
      "replicate 1000 (CHR ''a'') @ ''. b''" b_fails_env FetchFailed "''alice''" Map.empty]
  by (simp add: two_chunks b_fails_env_def ready_world_def init_world_def embeds_ok_def get_embedding_def
      unit_vector_env_def Let_def less_Suc0 less_one numeral_2_eq_2)

theorem add_document_isolation_witness:
  "spaces (snd (add_document (unit_vector_env 1) ''alice'' ''Hello.'' Map.empty ready_world)) ''bob'' = []"
  using add_document_isolation [of "unit_vector_env 1" "''alice''" "''Hello.''" Map.empty ready_world
      "fst (add_document (unit_vector_env 1) ''alice'' ''Hello.'' Map.empty ready_world)"
      "snd (add_document (unit_vector_env 1) ''alice'' ''Hello.'' Map.empty ready_world)" "''bob''"]
  by (simp add: ready_world_def init_world_def)

theorem add_documents_id_collision_witness:
  "let (res, w') = add_documents (unit_vector_env 0) ''alice'' [JStr ''Hello.'', JStr ''World.''] Map.empty ready_world in
     (case res of
        Inr rs \<Rightarrow> fst (added_chunks (rs ! 0) ! 0) = fst (added_chunks (rs ! 1) ! 0) \<and> length rs = 2
      | Inl _ \<Rightarrow> False) \<and>
     length (spaces w' ''alice'') = 1"
proof -
  have run: "\<exists>rs w'. add_documents (unit_vector_env 0) ''alice'' [JStr ''Hello.'', JStr ''World.''] Map.empty ready_world = (Inr rs, w') \<and>
      length rs = 2 \<and> length (added_chunks (rs ! 0)) = 1 \<and> length (added_chunks (rs ! 1)) = 1 \<and>
      length (spaces w' ''alice'') = 1"
    by (simp add: add_documents_def ingest_eval)
  then obtain rs w' where eq: "add_documents (unit_vector_env 0) ''alice'' [JStr ''Hello.'', JStr ''World.''] Map.empty ready_world = (Inr rs, w')"
    and l: "length rs = 2" "length (added_chunks (rs ! 0)) = 1" "length (added_chunks (rs ! 1)) = 1"
      "length (spaces w' ''alice'') = 1"
    by blast
  have "fst (added_chunks (rs ! 0) ! 0) = fst (added_chunks (rs ! 1) ! 0)"
    using add_documents_id_collision [of "unit_vector_env 0", OF _ eq] l by (simp add: unit_vector_env_def)
  with eq l show ?thesis by simp
qed

text \<open>
  C36. \<^verbatim>\<open>getEmbedding\<close> checks only that \<^verbatim>\<open>embedding\<close> is an array: when the
  service answers every text with an array that is not all numbers, the array is
  accepted, and \<^verbatim>\<open>addDocument\<close> on an existing index fails at its first chunk
  with the index's rejection of a non-numeric vector, not with an invalid-format
  error of the embedding client; only the clock has moved.
\<close>

theorem add_document_non_numeric_embedding:
  assumes "\<forall>c. embed_api E c = HttpResponse True st (Some (JObj [(''embedding'', JArr vs)]))"
    and "to_numbers vs = None" and "index w = Some ix" and "split_into_chunks text CHUNK_SIZE \<noteq> []"
  shows "fst (get_embedding E c w) = Inr vs \<and>
         add_document E u text md w = (Inl (Pinecone NonNumericValues), w\<lparr>clock := clock w + embed_latency E\<rparr>)"
proof -
  have ge: "get_embedding E c' w' = (Inr vs, w'\<lparr>clock := clock w' + embed_latency E\<rparr>)" for c' w'
    using get_embedding_array [OF assms(1) [rule_format], of c' w'] get_embedding_world [of E c' w']
    by (metis prod.collapse)
  obtain c1 cs where "split_into_chunks text CHUNK_SIZE = c1 # cs" using assms(4) by (cases "split_into_chunks text CHUNK_SIZE") auto
  then show ?thesis
    using ge [of c w] ge [of c1 w] assms(2,3) by (simp add: add_document_def pc_upsert_def Let_def)
qed

lemma string_embedding_api:
  "embed_api string_embedding_env c = HttpResponse True 200 (Some (JObj [(''embedding'', JArr [JStr ''x''])]))"
  by (simp add: string_embedding_env_def)

lemma string_embedding_latency: "embed_latency string_embedding_env = 0"
  by (simp add: string_embedding_env_def unit_vector_env_def)

theorem add_document_non_numeric_embedding_witness:
  "(\<forall>c. embed_api string_embedding_env c = HttpResponse True 200 (Some (JObj [(''embedding'', JArr [JStr ''x''])]))) \<and>
   to_numbers [JStr ''x''] = None \<and> index ready_world = Some \<lparr>idx_dimension = 4096, idx_metric = ''cosine'', idx_ready_at = 0\<rparr> \<and>
   split_into_chunks ''Hello.'' CHUNK_SIZE = [''Hello.''] \<and>
   fst (get_embedding string_embedding_env ''Hello.'' ready_world) = Inr [JStr ''x''] \<and>
   add_document string_embedding_env ''alice'' ''Hello.'' Map.empty ready_world = (Inl (Pinecone NonNumericValues), ready_world)"
proof -
  have cs: "split_into_chunks ''Hello.'' CHUNK_SIZE = [''Hello.'']" by (simp add: chunk_eval CHUNK_SIZE_def)
  have ix: "index ready_world = Some \<lparr>idx_dimension = 4096, idx_metric = ''cosine'', idx_ready_at = 0\<rparr>"
    by (simp add: ready_world_def init_world_def)
  show ?thesis
    using add_document_non_numeric_embedding [of string_embedding_env 200 "[JStr ''x'']" ready_world _ "''Hello.''" "''Hello.''"
        "''alice''" Map.empty] cs ix
    by (simp add: string_embedding_api string_embedding_latency)
qed

end
