(* ===== verification/Lifecycle.thy ===== *)
theory Lifecycle
  imports Services
begin

text \<open>
  Index and namespace administration of \<^verbatim>\<open>rag.js\<close> (\<^verbatim>\<open>src/unnamed/part_000\<close>):
  the readiness poll \<^verbatim>\<open>waitForIndex\<close> (lines 102--116), \<^verbatim>\<open>createUserIndex\<close>
  (284--309), \<^verbatim>\<open>clearIndex\<close> (272--282) and \<^verbatim>\<open>deleteUserIndex\<close> (311--320).
  The poll is a \<open>for\<close> loop of at most \<open>maxAttempts\<close> rounds; \<open>wait_loop k m\<close>
  runs its last \<open>k\<close> rounds (round \<open>i = m - k\<close>).  Each round calls
  \<^verbatim>\<open>describeIndex\<close>; a ready index ends the loop, anything else (not ready, or a
  caught error) sleeps 2000 ms.  The result messages of the source are the
  constructors of \<open>admin_result\<close>.
\<close>

datatype admin_result =
    IndexReady tenant
  | IndexCreated tenant
  | DocumentsCleared tenant
  | DocumentsDeleted tenant

definition POLL_INTERVAL :: nat where
  "POLL_INTERVAL = 2000"

definition INDEX_DIMENSION :: nat where
  "INDEX_DIMENSION = 4096"

fun wait_loop :: "nat \<Rightarrow> nat \<Rightarrow> world \<Rightarrow> (error + bool) \<times> world" where
  "wait_loop 0 m w = (Inl (IndexNotReady m), w)"
| "wait_loop (Suc k) m w =
     (case pc_describe w of
        Inr True \<Rightarrow> (Inr True, w)
      | _ \<Rightarrow> wait_loop k m (w\<lparr>clock := clock w + POLL_INTERVAL\<rparr>))"

definition wait_for_index :: "nat \<Rightarrow> world \<Rightarrow> (error + bool) \<times> world" where
  "wait_for_index max_attempts w = wait_loop max_attempts max_attempts w"

definition create_user_index :: "env \<Rightarrow> tenant \<Rightarrow> world \<Rightarrow> (error + admin_result) \<times> world" where
  "create_user_index E u w =
     (case pc_describe w of
        Inr _ \<Rightarrow> (Inr (IndexReady u), w)
      | Inl _ \<Rightarrow>
          (case pc_create (index_boot E) INDEX_DIMENSION ''cosine'' w of
             Inl e \<Rightarrow> (Inl (Pinecone e), w)
           | Inr w1 \<Rightarrow>
               (case wait_for_index 10 w1 of
                  (Inl e, w2) \<Rightarrow> (Inl e, w2)
                | (Inr _, w2) \<Rightarrow> (Inr (IndexCreated u), w2))))"

definition clear_index :: "tenant \<Rightarrow> world \<Rightarrow> (error + admin_result) \<times> world" where
  "clear_index u w =
     (case pc_delete_all u w of
        Inl e \<Rightarrow> (Inl (Pinecone e), w)
      | Inr w' \<Rightarrow> (Inr (DocumentsCleared u), w'))"

definition delete_user_index :: "tenant \<Rightarrow> world \<Rightarrow> (error + admin_result) \<times> world" where
  "delete_user_index u w =
     (case clear_index u w of
        (Inl e, w') \<Rightarrow> (Inl e, w')
      | (Inr _, w') \<Rightarrow> (Inr (DocumentsDeleted u), w'))"

text \<open>The index reports ready at instant \<open>t\<close>.\<close>

definition ready_at :: "world \<Rightarrow> nat \<Rightarrow> bool" where
  "ready_at w t \<longleftrightarrow> (case index w of Some i \<Rightarrow> idx_ready_at i \<le> t | None \<Rightarrow> False)"

text \<open>The index \<^verbatim>\<open>createUserIndex\<close> creates, in world \<open>w\<close>.\<close>

definition created_index :: "env \<Rightarrow> world \<Rightarrow> index_info" where
  "created_index E w = \<lparr>idx_dimension = INDEX_DIMENSION, idx_metric = ''cosine'', idx_ready_at = clock w + index_boot E\<rparr>"

section \<open>The readiness poll\<close>

lemma pc_describe_ready: "pc_describe w = Inr True \<longleftrightarrow> ready_at w (clock w)"
  by (auto simp: pc_describe_def ready_at_def split: option.splits)

lemma ready_at_sleep [simp]: "ready_at (w\<lparr>clock := t\<rparr>) t' = ready_at w t'"
  by (simp add: ready_at_def)

lemma ready_at_mono: "ready_at w t \<Longrightarrow> t \<le> t' \<Longrightarrow> ready_at w t'"
  by (auto simp: ready_at_def split: option.splits)

lemma wait_loop_step:
  "wait_loop (Suc k) m w =
     (if ready_at w (clock w) then (Inr True, w)
      else wait_loop k m (w\<lparr>clock := clock w + POLL_INTERVAL\<rparr>))"
  by (auto simp: pc_describe_ready [symmetric] split: sum.splits bool.splits)

declare wait_loop.simps(2) [simp del]

text \<open>When no round finds the index ready, the loop sleeps in every round, the last
  one included, and then throws.\<close>

lemma wait_loop_fail:
  "\<forall>j < k. \<not> ready_at w (clock w + POLL_INTERVAL * j) \<Longrightarrow>
   wait_loop k m w = (Inl (IndexNotReady m), w\<lparr>clock := clock w + POLL_INTERVAL * k\<rparr>)"
proof (induction k arbitrary: w)
  case 0
  then show ?case by simp
next
  case (Suc k)
  have "\<not> ready_at w (clock w)" using Suc.prems by (metis add.right_neutral mult_0_right zero_less_Suc)
  moreover have "\<forall>j < k. \<not> ready_at w (clock w + POLL_INTERVAL + POLL_INTERVAL * j)"
    using Suc.prems by (auto simp: add.assoc [symmetric] dest: spec [where x = "Suc _"])
  ultimately show ?case
    using Suc.IH [of "w\<lparr>clock := clock w + POLL_INTERVAL\<rparr>"] by (simp add: wait_loop_step algebra_simps)
qed

text \<open>The first round that finds the index ready ends the loop.\<close>

lemma wait_loop_success:
  "j < k \<Longrightarrow> ready_at w (clock w + POLL_INTERVAL * j) \<Longrightarrow> \<forall>j' < j. \<not> ready_at w (clock w + POLL_INTERVAL * j') \<Longrightarrow>
   wait_loop k m w = (Inr True, w\<lparr>clock := clock w + POLL_INTERVAL * j\<rparr>)"
proof (induction j arbitrary: k w)
  case 0
  then obtain k' where "k = Suc k'" by (cases k) auto
  with "0.prems" show ?case by (simp add: wait_loop_step)
next
  case (Suc j)
  then obtain k' where k: "k = Suc k'" and j: "j < k'" by (cases k) auto
  have nr: "\<not> ready_at w (clock w)" using Suc.prems(3) by (metis add.right_neutral mult_0_right zero_less_Suc)
  have "wait_loop k' m (w\<lparr>clock := clock w + POLL_INTERVAL\<rparr>) =
        (Inr True, w\<lparr>clock := clock w + POLL_INTERVAL + POLL_INTERVAL * j\<rparr>)"
    using Suc.prems(2,3) j
    by (subst Suc.IH) (auto simp: algebra_simps dest: spec [where x = "Suc _"])
  then show ?case using k nr by (simp add: wait_loop_step algebra_simps)
qed

lemma wait_loop_frame:
  "wait_loop k m w = (r, w') \<Longrightarrow> \<exists>j \<le> k. w' = w\<lparr>clock := clock w + POLL_INTERVAL * j\<rparr>"
proof (induction k arbitrary: w)
  case 0
  then show ?case by simp
next
  case (Suc k)
  show ?case
  proof (cases "ready_at w (clock w)")
    case True
    with Suc.prems show ?thesis by (auto simp: wait_loop_step intro: exI [where x = 0])
  next
    case False
    with Suc.prems obtain j where "j \<le> k" and
      "w' = w\<lparr>clock := clock w + POLL_INTERVAL + POLL_INTERVAL * j\<rparr>"
      using Suc.IH by (fastforce simp: wait_loop_step)
    then show ?thesis by (intro exI [where x = "Suc j"]) (simp add: algebra_simps)
  qed
qed


lemma create_user_index_fresh:
  "index w = None \<Longrightarrow>
   create_user_index E u w =
     (case wait_for_index 10 (w\<lparr>index := Some (created_index E w)\<rparr>) of
        (Inl e, w2) \<Rightarrow> (Inl e, w2)
      | (Inr _, w2) \<Rightarrow> (Inr (IndexCreated u), w2))"
  by (simp add: create_user_index_def pc_describe_def pc_create_def created_index_def)

lemma ready_at_created: "ready_at (w\<lparr>index := Some (created_index E w)\<rparr>) (clock w + t) \<longleftrightarrow> index_boot E \<le> t"
  by (simp add: ready_at_def created_index_def)

section \<open>Index and namespace administration\<close>

text \<open>
  C7. \<^verbatim>\<open>createUserIndex\<close> on an existing index returns at once without creating
  anything and leaves the world unchanged; so two calls in a row both succeed and
  neither creates the index again.
\<close>

theorem create_user_index_existing:
  "index w \<noteq> None \<Longrightarrow> create_user_index E u w = (Inr (IndexReady u), w)"
  by (auto simp: create_user_index_def pc_describe_def)

text \<open>
  C8. On an absent index \<^verbatim>\<open>createUserIndex\<close> creates it (dimension 4096, cosine)
  and succeeds if the index boots within nine poll intervals (18 s); it returns
  after the first round that finds the index ready.
\<close>

theorem create_user_index_boots:
  assumes "index w = None" and "index_boot E \<le> POLL_INTERVAL * 9"
  shows "\<exists>j \<le> 9. index_boot E \<le> POLL_INTERVAL * j \<and>
           create_user_index E u w =
             (Inr (IndexCreated u), w\<lparr>index := Some (created_index E w), clock := clock w + POLL_INTERVAL * j\<rparr>)"
proof -
  let ?j = "LEAST j. index_boot E \<le> POLL_INTERVAL * j"
  let ?w1 = "w\<lparr>index := Some (created_index E w)\<rparr>"
  have j9: "?j \<le> 9"
    using assms(2) by (rule Least_le)
  have ge: "index_boot E \<le> POLL_INTERVAL * ?j"
    using assms(2) by (rule LeastI)
  have lt: "\<forall>j' < ?j. \<not> index_boot E \<le> POLL_INTERVAL * j'"
    using not_less_Least by blast
  have "wait_for_index 10 ?w1 = (Inr True, ?w1\<lparr>clock := clock ?w1 + POLL_INTERVAL * ?j\<rparr>)"
    unfolding wait_for_index_def
    by (rule wait_loop_success) (use j9 ge lt ready_at_created in auto)
  then show ?thesis
    using j9 ge assms(1) by (intro exI [where x = ?j]) (simp add: create_user_index_fresh)
qed

text \<open>
  C9. If the new index needs longer than 18 s, the poll gives up after ten rounds
  and 20 s with \<^verbatim>\<open>Index ... not ready after 10 attempts\<close>, and the index it
  created is left in place.
\<close>

theorem create_user_index_timeout:
  assumes "index w = None" and "POLL_INTERVAL * 9 < index_boot E"
  shows "create_user_index E u w =
           (Inl (IndexNotReady 10), w\<lparr>index := Some (created_index E w), clock := clock w + 20000\<rparr>)"
proof -
  let ?w1 = "w\<lparr>index := Some (created_index E w)\<rparr>"
  have "\<forall>j < 10. \<not> ready_at ?w1 (clock ?w1 + POLL_INTERVAL * j)"
    using assms(2) ready_at_created by (auto simp: POLL_INTERVAL_def)
  then have "wait_for_index 10 ?w1 = (Inl (IndexNotReady 10), ?w1\<lparr>clock := clock ?w1 + POLL_INTERVAL * 10\<rparr>)"
    unfolding wait_for_index_def by (rule wait_loop_fail)
  then show ?thesis using assms(1) by (simp add: create_user_index_fresh POLL_INTERVAL_def)
qed

text \<open>
  C10. After such a time-out, calling \<^verbatim>\<open>createUserIndex\<close> again reports the index
  ready although \<^verbatim>\<open>describeIndex\<close> still says it is not: the existence check does
  not look at the \<^verbatim>\<open>ready\<close> flag.
\<close>

theorem create_user_index_retry_not_ready:
  assumes "index w = None" and "20000 < index_boot E"
  shows "let w' = snd (create_user_index E u w) in
           create_user_index E u w' = (Inr (IndexReady u), w') \<and> pc_describe w' = Inr False"
proof -
  have "POLL_INTERVAL * 9 < index_boot E" using assms(2) by (simp add: POLL_INTERVAL_def)
  with assms show ?thesis
    by (simp add: create_user_index_timeout create_user_index_existing pc_describe_def created_index_def)
qed

text \<open>
  C11. \<^verbatim>\<open>clearIndex\<close> empties exactly the tenant's namespace and touches no other
  namespace, the index or the clock; without an index it fails with the store's error.
\<close>

theorem clear_index_effect:
  "clear_index u w =
     (if index w = None then (Inl (Pinecone IndexNotFound), w)
      else (Inr (DocumentsCleared u), w\<lparr>spaces := (spaces w)(u := [])\<rparr>))"
  by (auto simp: clear_index_def pc_delete_all_def split: option.splits)

theorem create_user_index_existing_witness:
  "create_user_index (offline_env 0) ''alice'' (init_world\<lparr>index := Some (created_index (offline_env 0) init_world)\<rparr>) =
     (Inr (IndexReady ''alice''), init_world\<lparr>index := Some (created_index (offline_env 0) init_world)\<rparr>)"
  using create_user_index_existing [of "init_world\<lparr>index := Some (created_index (offline_env 0) init_world)\<rparr>"]
  by simp

theorem create_user_index_boots_witness:
  "\<exists>j \<le> 9. (5000::nat) \<le> POLL_INTERVAL * j \<and>
     create_user_index (offline_env 5000) ''alice'' init_world =
       (Inr (IndexCreated ''alice''), init_world\<lparr>index := Some (created_index (offline_env 5000) init_world),
                                                 clock := POLL_INTERVAL * j\<rparr>)"
  using create_user_index_boots [of init_world "offline_env 5000" "''alice''"]
  by (simp add: init_world_def offline_env_def POLL_INTERVAL_def)

theorem create_user_index_timeout_witness:
  "create_user_index (offline_env 30000) ''alice'' init_world =
     (Inl (IndexNotReady 10), init_world\<lparr>index := Some (created_index (offline_env 30000) init_world), clock := 20000\<rparr>)"
  using create_user_index_timeout [of init_world "offline_env 30000" "''alice''"]
  by (simp add: init_world_def offline_env_def POLL_INTERVAL_def)

theorem create_user_index_retry_witness:
  "let w' = snd (create_user_index (offline_env 30000) ''alice'' init_world) in
     create_user_index (offline_env 30000) ''alice'' w' = (Inr (IndexReady ''alice''), w') \<and>
     pc_describe w' = Inr False"
  using create_user_index_retry_not_ready [of init_world "offline_env 30000" "''alice''"]
  by (simp add: init_world_def offline_env_def)

end
