(* ===== verification/Retrieve.thy ===== *)
theory Retrieve
  imports Ingest Lifecycle "HOL-Library.Multiset"
begin

text \<open>
  Retrieval and answering (\<^verbatim>\<open>src/unnamed/part_000\<close>): \<^verbatim>\<open>findSimilarDocuments\<close>
  (lines 172--193) embeds the query, asks the tenant's namespace for its \<open>topK\<close>
  best matches and maps each to \<^verbatim>\<open>{text, similarity, metadata}\<close>;
  \<^verbatim>\<open>askQuestion\<close> (195--248) retrieves the best three, joins their texts with a
  blank line into the context, fills the fixed prompt template and calls the
  generation service.  With \<^verbatim>\<open>returnData\<close> it returns
  \<^verbatim>\<open>{question, relevantDocuments, answer}\<close>; otherwise it prints (it returns
  \<^verbatim>\<open>undefined\<close>, \<open>None\<close> here), and its \<^verbatim>\<open>doc.text.slice(0, 100)\<close> throws a
  \<^verbatim>\<open>TypeError\<close> on a text that is neither a string nor an array.
\<close>

record similar_doc =
  doc_text :: "json option"
  doc_similarity :: int
  doc_metadata :: obj

record answer =
  ans_question :: string
  ans_documents :: "similar_doc list"
  ans_answer :: "json option"

definition find_similar_documents :: "env \<Rightarrow> tenant \<Rightarrow> string \<Rightarrow> nat \<Rightarrow> world
    \<Rightarrow> (error + similar_doc list) \<times> world" where
  "find_similar_documents E u query top_k w =
     (case get_embedding E query w of
        (Inl e, w') \<Rightarrow> (Inl e, w')
      | (Inr v, w') \<Rightarrow>
          (case pc_query (similarity E) u v top_k w' of
             Inl e \<Rightarrow> (Inl (Pinecone e), w')
           | Inr matches \<Rightarrow>
               (Inr (map (\<lambda>(rid, score, md). \<lparr>doc_text = md ''text'', doc_similarity = score, doc_metadata = md\<rparr>)
                       matches), w')))"

text \<open>\<^verbatim>\<open>String(v)\<close> of an element inside \<^verbatim>\<open>Array.prototype.join\<close>: \<^verbatim>\<open>undefined\<close> and
  \<^verbatim>\<open>null\<close> become the empty string.\<close>

fun int_str :: "int \<Rightarrow> string" where
  "int_str i = (if i < 0 then CHR ''-'' # nat_str (nat (- i)) else nat_str (nat i))"

fun json_str :: "json \<Rightarrow> string" where
  "json_str JNull = []"
| "json_str (JBool b) = (if b then ''true'' else ''false'')"
| "json_str (JNum n) = int_str n"
| "json_str (JStr s) = s"
| "json_str (JArr xs) = join '','' (map json_str xs)"
| "json_str (JObj kvs) = ''[object Object]''"

definition join_elem :: "json option \<Rightarrow> string" where
  "join_elem v = (case v of None \<Rightarrow> [] | Some j \<Rightarrow> json_str j)"

definition rule_line :: string where
  "rule_line = replicate 107 (CHR ''-'')"

definition build_prompt :: "string \<Rightarrow> string \<Rightarrow> string" where
  "build_prompt context question =
     nl @ ''System Prompt:'' @ nl @
     ''You are a AI journalist that answers questions based on the provided context'' @ nl @
     rule_line @ nl @ ''Context:'' @ nl @ context @ nl @
     rule_line @ nl @ ''Question:'' @ nl @ question @ nl @
     rule_line @ nl"

definition sliceable :: "json option \<Rightarrow> bool" where
  "sliceable v = (case v of Some (JStr _) \<Rightarrow> True | Some (JArr _) \<Rightarrow> True | _ \<Rightarrow> False)"

definition ask_question :: "env \<Rightarrow> tenant \<Rightarrow> string \<Rightarrow> bool \<Rightarrow> world \<Rightarrow> (error + answer option) \<times> world" where
  "ask_question E u question return_data w =
     (case find_similar_documents E u question 3 w of
        (Inl e, w') \<Rightarrow> (Inl e, w')
      | (Inr docs, w') \<Rightarrow>
          (let context = join (nl @ nl) (map (\<lambda>d. join_elem (doc_text d)) docs) in
           case generate E (build_prompt context question) of
             Inl e \<Rightarrow> (Inl e, w')
           | Inr ans \<Rightarrow>
               if return_data
               then (Inr (Some \<lparr>ans_question = question, ans_documents = docs, ans_answer = ans\<rparr>), w')
               else if list_all (\<lambda>d. sliceable (doc_text d)) docs then (Inr None, w')
               else (Inl JsTypeError, w')))"

text \<open>An environment whose generation service answers with an empty JSON object.\<close>

definition silent_generator_env :: env where
  "silent_generator_env = (unit_vector_env 0)\<lparr>generate_api := (\<lambda>_. HttpResponse True 200 (Some (JObj [])))\<rparr>"

text \<open>A world whose only document is one chunk of tenant \<open>alice\<close>.\<close>

definition sample_world :: world where
  "sample_world = ready_world\<lparr>spaces := (\<lambda>_. [])(''alice'' :=
     [(''doc_0_chunk_0'', \<lparr>rec_values = replicate 4096 1, rec_meta = [''text'' \<mapsto> JStr ''Hello.'']\<rparr>)])\<rparr>"

definition sample_doc :: similar_doc where
  "sample_doc = \<lparr>doc_text = Some (JStr ''Hello.''), doc_similarity = 0, doc_metadata = [''text'' \<mapsto> JStr ''Hello.'']\<rparr>"

section \<open>Lemmas on retrieval\<close>

text \<open>The matches of a successful query, in terms of the namespace.\<close>

lemma find_similar_documents_Inr:
  "find_similar_documents E u q k w = (Inr ds, w') \<longleftrightarrow>
   (\<exists>vals v ix. fst (get_embedding E q w) = Inr vals \<and> w' = w\<lparr>clock := clock w + embed_latency E\<rparr> \<and>
      index w = Some ix \<and> to_numbers vals = Some v \<and> length v = idx_dimension ix \<and>
      ds = map (\<lambda>(rid, score, md). \<lparr>doc_text = md ''text'', doc_similarity = score, doc_metadata = md\<rparr>)
             (take k (sort_key (\<lambda>m. - fst (snd m))
               (map (\<lambda>(rid, r). (rid, similarity E v (rec_values r), rec_meta r)) (spaces w u)))))"
proof -
  obtain r w1 where ge: "get_embedding E q w = (r, w1)" by fastforce
  then have w1: "w1 = w\<lparr>clock := clock w + embed_latency E\<rparr>" by (rule get_embedding_world)
  show ?thesis
    using ge w1 by (cases r) (auto simp: find_similar_documents_def pc_query_def split: sum.splits option.splits)
qed

lemma sorted_desc_take:
  fixes s :: "'a \<Rightarrow> int"
  shows "sorted (map (\<lambda>m. - s m) ys) \<Longrightarrow> sorted_wrt (\<lambda>a b. b \<le> a) (map s (take k ys))"
proof -
  assume "sorted (map (\<lambda>m. - s m) ys)"
  then have "sorted_wrt (\<lambda>x y. s y \<le> s x) ys" by (simp add: sorted_wrt_map)
  then have "sorted_wrt (\<lambda>x y. s y \<le> s x) (take k ys)" by (rule sorted_wrt_take)
  then show ?thesis by (simp add: sorted_wrt_map)
qed

lemma find_similar_documents_cong:
  "index w' = index w \<Longrightarrow> spaces w' u = spaces w u \<Longrightarrow>
   fst (find_similar_documents E u q k w') = fst (find_similar_documents E u q k w)"
  by (simp add: find_similar_documents_def get_embedding_def pc_query_def Let_def
      split: http_outcome.splits option.splits sum.splits json.splits)

lemma find_similar_documents_world:
  "find_similar_documents E u q k w = (r, w') \<Longrightarrow> w' = w\<lparr>clock := clock w + embed_latency E\<rparr>"
  by (auto simp: find_similar_documents_def dest!: get_embedding_world split: prod.splits sum.splits)

lemma similarity_of_match:
  "doc_similarity \<circ> (\<lambda>(rid, score, md). \<lparr>doc_text = md ''text'', doc_similarity = score, doc_metadata = md\<rparr>)
   = (\<lambda>m. fst (snd m))"
  by (rule ext) auto

text \<open>Every returned document is a record of the namespace, scored against the
  query vector.\<close>

lemma find_similar_documents_from_space:
  assumes "find_similar_documents E u q k w = (Inr ds, w')"
  shows "\<exists>v. \<forall>d \<in> set ds. \<exists>rid r. (rid, r) \<in> set (spaces w u) \<and>
           d = \<lparr>doc_text = rec_meta r ''text'', doc_similarity = similarity E v (rec_values r), doc_metadata = rec_meta r\<rparr>"
proof -
  from assms obtain v where ds:
    "ds = map (\<lambda>(rid, score, md). \<lparr>doc_text = md ''text'', doc_similarity = score, doc_metadata = md\<rparr>)
            (take k (sort_key (\<lambda>m. - fst (snd m))
              (map (\<lambda>(rid, r). (rid, similarity E v (rec_values r), rec_meta r)) (spaces w u))))"
    by (auto simp: find_similar_documents_Inr)
  have "\<exists>rid r. (rid, r) \<in> set (spaces w u) \<and>
          d = \<lparr>doc_text = rec_meta r ''text'', doc_similarity = similarity E v (rec_values r), doc_metadata = rec_meta r\<rparr>"
    if d: "d \<in> set ds" for d
  proof -
    from d obtain rid sc md where m: "(rid, sc, md) \<in> set (take k (sort_key (\<lambda>m. - fst (snd m))
              (map (\<lambda>(rid, r). (rid, similarity E v (rec_values r), rec_meta r)) (spaces w u))))"
      and d': "d = \<lparr>doc_text = md ''text'', doc_similarity = sc, doc_metadata = md\<rparr>"
      unfolding ds by auto
    from in_set_takeD [OF m] obtain r where "(rid, r) \<in> set (spaces w u)" "md = rec_meta r"
      "sc = similarity E v (rec_values r)"
      by auto
    with d' show ?thesis by auto
  qed
  then show ?thesis by blast
qed

lemma update_fresh: "k \<notin> fst ` set al \<Longrightarrow> AList.update k v al = al @ [(k, v)]"
  by (induction al) auto

lemma add_chunks_texts:
  assumes "add_chunks E u md n i cs acc w = (Inr x, w')"
    and "\<forall>p \<in> set (spaces w u). \<forall>t j. i \<le> j \<longrightarrow> fst p \<noteq> doc_id t j"
  shows "map (\<lambda>p. rec_meta (snd p) ''text'') (spaces w' u) =
           map (\<lambda>p. rec_meta (snd p) ''text'') (spaces w u) @ map (\<lambda>c. Some (JStr c)) cs"
  using assms
proof (induction cs arbitrary: i acc w)
  case (Cons c cs)
  obtain res w1 where ge: "get_embedding E c w = (res, w1)" by fastforce
  have w1: "w1 = w\<lparr>clock := clock w + embed_latency E\<rparr>" using get_embedding_world [OF ge] .
  let ?rid = "doc_id (clock w1) i"
  from Cons.prems(1) ge obtain emb w2 where
    up: "pc_upsert u ?rid emb (chunk_metadata md c i n (clock w1) u) w1 = Inr w2" and
    rest: "add_chunks E u md n (Suc i) cs (acc @ [(?rid, c)]) w2 = (Inr x, w')"
    by (auto simp: Let_def split: sum.splits)
  have "\<forall>p \<in> set (spaces w u). fst p \<noteq> ?rid" using Cons.prems(2) by blast
  then have fresh: "?rid \<notin> fst ` set (spaces w1 u)" using w1 by auto
  from up fresh obtain v where sp: "spaces w2 u = spaces w1 u @ [(?rid, \<lparr>rec_values = v, rec_meta = chunk_metadata md c i n (clock w1) u\<rparr>)]"
    by (auto simp: pc_upsert_Inr update_fresh)
  have "fst p \<noteq> doc_id t j" if p: "p \<in> set (spaces w2 u)" and j: "Suc i \<le> j" for p t j
  proof (cases "p \<in> set (spaces w u)")
    case True
    then show ?thesis using Cons.prems(2) j by auto
  next
    case False
    with p sp w1 have "fst p = ?rid" by auto
    then show ?thesis using doc_id_inject_lemma [of "clock w1" i t j] j by auto
  qed
  then have "\<forall>p \<in> set (spaces w2 u). \<forall>t j. Suc i \<le> j \<longrightarrow> fst p \<noteq> doc_id t j" by blast
  from Cons.IH [OF rest this] sp w1 show ?case by (simp add: chunk_metadata_def)
qed simp

section \<open>Retrieval\<close>

text \<open>
  C19. \<^verbatim>\<open>findSimilarDocuments\<close> returns at most \<open>topK\<close> documents, best
  similarity first.
\<close>

theorem find_similar_documents_ranked:
  assumes "find_similar_documents E u q k w = (Inr ds, w')"
  shows "length ds \<le> k \<and> sorted_wrt (\<lambda>a b. b \<le> a) (map doc_similarity ds)"
proof -
  from assms obtain v where ds:
    "ds = map (\<lambda>(rid, score, md). \<lparr>doc_text = md ''text'', doc_similarity = score, doc_metadata = md\<rparr>)
            (take k (sort_key (\<lambda>m. - fst (snd m))
              (map (\<lambda>(rid, r). (rid, similarity E v (rec_values r), rec_meta r)) (spaces w u))))"
    by (auto simp: find_similar_documents_Inr)
  have "sorted_wrt (\<lambda>a b. b \<le> a) (map (\<lambda>m. fst (snd m)) (take k (sort_key (\<lambda>m. - fst (snd m))
              (map (\<lambda>(rid, r). (rid, similarity E v (rec_values r), rec_meta r)) (spaces w u)))))"
    by (rule sorted_desc_take) (rule sorted_sort_key)
  then show ?thesis by (simp add: ds similarity_of_match)
qed

text \<open>
  C20. When the namespace holds at least \<open>topK\<close> records, exactly \<open>topK\<close>
  documents are returned; otherwise every record of the namespace is.
\<close>

theorem find_similar_documents_count:
  assumes "find_similar_documents E u q k w = (Inr ds, w')"
  shows "length ds = min k (length (spaces w u))"
  using assms by (auto simp: find_similar_documents_Inr)

text \<open>
  C21. Tenant isolation of retrieval: every returned document is a record of the
  asking tenant's namespace, with that record's metadata and its \<^verbatim>\<open>text\<close> field.
\<close>

theorem find_similar_documents_isolation:
  assumes "find_similar_documents E u q k w = (Inr ds, w')" and "d \<in> set ds"
  shows "\<exists>rid r. (rid, r) \<in> set (spaces w u) \<and> doc_metadata d = rec_meta r \<and> doc_text d = rec_meta r ''text''"
  using find_similar_documents_from_space [OF assms(1)] assms(2) by fastforce

text \<open>
  C22. Ingestion for one tenant does not change what another tenant retrieves:
  whatever the outcome of \<^verbatim>\<open>addDocument\<close> for \<open>u\<close>, a later query of \<open>v \<noteq> u\<close>
  returns what it would have returned before.
\<close>

theorem find_similar_documents_other_tenant:
  assumes "add_document E u text md w = (r, w')" and "v \<noteq> u"
  shows "fst (find_similar_documents E v q k w') = fst (find_similar_documents E v q k w)"
proof -
  from add_document_chunks [OF assms(1)] obtain x where
    "add_chunks E u md (length (split_into_chunks text CHUNK_SIZE)) 0 (split_into_chunks text CHUNK_SIZE) [] w = (x, w')"
    by blast
  from add_chunks_frame [OF this] assms(2) have "index w' = index w" "spaces w' v = spaces w v"
    by blast+
  then show ?thesis by (rule find_similar_documents_cong)
qed

text \<open>
  C23. After \<^verbatim>\<open>clearIndex\<close> succeeds, the tenant retrieves nothing until it adds
  documents again.
\<close>

theorem find_similar_documents_after_clear:
  assumes "clear_index u w = (Inr a, w1)" and "find_similar_documents E u q k w1 = (Inr ds, w2)"
  shows "ds = []"
proof -
  from assms(1) have "spaces w1 u = []"
    by (auto simp: clear_index_def pc_delete_all_Inr split: sum.splits)
  with assms(2) show ?thesis by (auto simp: find_similar_documents_Inr)
qed

lemma generate_no_response:
  "generate_api E p = HttpResponse True st (Some (JObj kvs)) \<Longrightarrow> ''response'' \<notin> fst ` set kvs \<Longrightarrow>
   generate E p = Inr None"
  by (simp add: generate_def map_of_eq_None_iff)

section \<open>Answering\<close>

lemma ask_question_cases:
  "ask_question E u q rd w =
     (case find_similar_documents E u q 3 w of
        (Inl e, w') \<Rightarrow> (Inl e, w')
      | (Inr docs, w') \<Rightarrow>
          (case generate E (build_prompt (join (nl @ nl) (map (\<lambda>d. join_elem (doc_text d)) docs)) q) of
             Inl e \<Rightarrow> (Inl e, w')
           | Inr ans \<Rightarrow>
               if rd then (Inr (Some \<lparr>ans_question = q, ans_documents = docs, ans_answer = ans\<rparr>), w')
               else if list_all (\<lambda>d. sliceable (doc_text d)) docs then (Inr None, w')
               else (Inl JsTypeError, w')))"
  unfolding ask_question_def Let_def by (rule refl)

text \<open>
  C24. With \<^verbatim>\<open>returnData\<close>, a successful \<^verbatim>\<open>askQuestion\<close> returns the question,
  the at most three documents \<^verbatim>\<open>findSimilarDocuments\<close> found for it, and the
  generation service's answer to the prompt whose context is their texts joined by
  a blank line; the only state it changes is the clock, by one embedding call.
\<close>

theorem ask_question_answer:
  assumes "ask_question E u q True w = (Inr (Some a), w')"
  shows "ans_question a = q \<and> length (ans_documents a) \<le> 3 \<and>
         fst (find_similar_documents E u q 3 w) = Inr (ans_documents a) \<and>
         generate E (build_prompt (join (nl @ nl) (map (\<lambda>d. join_elem (doc_text d)) (ans_documents a))) q)
           = Inr (ans_answer a) \<and>
         w' = w\<lparr>clock := clock w + embed_latency E\<rparr>"
proof -
  obtain r w1 where f: "find_similar_documents E u q 3 w = (r, w1)" by fastforce
  then have w1: "w1 = w\<lparr>clock := clock w + embed_latency E\<rparr>" by (rule find_similar_documents_world)
  from assms f obtain docs where r: "r = Inr docs" and a: "a = \<lparr>ans_question = q, ans_documents = docs, ans_answer = ans_answer a\<rparr>"
    and g: "generate E (build_prompt (join (nl @ nl) (map (\<lambda>d. join_elem (doc_text d)) docs)) q) = Inr (ans_answer a)"
    and w': "w' = w1"
    by (auto simp: ask_question_cases split: sum.splits)
  from f r have "length docs \<le> 3" by (auto simp: find_similar_documents_Inr)
  with a g w' w1 f r show ?thesis by (metis answer.select_convs(1,2) fst_conv)
qed

text \<open>
  Without \<^verbatim>\<open>returnData\<close>, \<^verbatim>\<open>askQuestion\<close> prints and returns
  \<^verbatim>\<open>undefined\<close> exactly when retrieval and generation succeed and every retrieved
  text can be sliced (a string or an array); a retrieved text of any other kind
  makes \<^verbatim>\<open>doc.text.slice(0, 100)\<close> throw a \<^verbatim>\<open>TypeError\<close>.
\<close>

theorem ask_question_print:
  "fst (ask_question E u q False w) =
     (case fst (find_similar_documents E u q 3 w) of
        Inl e \<Rightarrow> Inl e
      | Inr docs \<Rightarrow>
          (case generate E (build_prompt (join (nl @ nl) (map (\<lambda>d. join_elem (doc_text d)) docs)) q) of
             Inl e \<Rightarrow> Inl e
           | Inr _ \<Rightarrow> if list_all (\<lambda>d. sliceable (doc_text d)) docs then Inr None else Inl JsTypeError))"
  by (auto simp: ask_question_cases split: prod.splits sum.splits)

text \<open>
  C26. The generation answer is not validated: whatever the retrieved documents,
  when the generation service answers with a JSON object that has no
  \<^verbatim>\<open>response\<close> field, \<^verbatim>\<open>askQuestion\<close> with \<^verbatim>\<open>returnData\<close> succeeds with an
  \<^verbatim>\<open>undefined\<close> answer instead of reporting an invalid response.
\<close>

theorem ask_question_undefined_answer:
  assumes "find_similar_documents E u q 3 w = (Inr docs, w')"
    and "generate_api E (build_prompt (join (nl @ nl) (map (\<lambda>d. join_elem (doc_text d)) docs)) q) =
           HttpResponse True st (Some (JObj kvs))"
    and "''response'' \<notin> fst ` set kvs"
  shows "ask_question E u q True w = (Inr (Some \<lparr>ans_question = q, ans_documents = docs, ans_answer = None\<rparr>), w')"
  using generate_no_response [OF assms(2,3)] assms(1) by (simp add: ask_question_cases)

text \<open>
  C35. What is ingested can be retrieved: after a successful \<^verbatim>\<open>addDocument\<close>
  into an empty namespace, a \<^verbatim>\<open>findSimilarDocuments\<close> of that tenant with
  \<open>topK\<close> at least the number of chunks returns the texts of exactly the chunks
  of \<^verbatim>\<open>splitIntoChunks\<close>, each once (in the order of similarity).
\<close>

theorem add_document_then_find:
  assumes "spaces w u = []" and "add_document E u text md w = (Inr r, w1)"
    and "find_similar_documents E u q k w1 = (Inr ds, w2)"
    and "length (split_into_chunks text CHUNK_SIZE) \<le> k"
  shows "mset (map doc_text ds) = mset (map (\<lambda>c. Some (JStr c)) (split_into_chunks text CHUNK_SIZE))"
proof -
  let ?cs = "split_into_chunks text CHUNK_SIZE"
  let ?tx = "\<lambda>p. rec_meta (snd p) ''text''"
  from add_document_chunks [OF assms(2)]
  have "add_chunks E u md (length ?cs) 0 ?cs [] w = (Inr (added_chunks r), w1)" by auto
  from add_chunks_texts [OF this] assms(1)
  have tx: "map ?tx (spaces w1 u) = map (\<lambda>c. Some (JStr c)) ?cs" by simp
  then have "length (spaces w1 u) \<le> k" using assms(4) by (metis length_map)
  moreover from assms(3) obtain v where
    "ds = map (\<lambda>(rid, score, md). \<lparr>doc_text = md ''text'', doc_similarity = score, doc_metadata = md\<rparr>)
            (take k (sort_key (\<lambda>m. - fst (snd m))
              (map (\<lambda>(rid, r). (rid, similarity E v (rec_values r), rec_meta r)) (spaces w1 u))))"
    by (auto simp: find_similar_documents_Inr)
  ultimately have "mset (map doc_text ds) = mset (map ?tx (spaces w1 u))"
    by (simp add: mset_map case_prod_unfold image_mset.compositionality comp_def)
  with tx show ?thesis by simp
qed

section \<open>Retrieval and answering on a concrete world\<close>

lemmas retrieve_eval = find_similar_documents_def get_embedding_def pc_query_def unit_vector_env_def
  sample_world_def ready_world_def init_world_def sample_doc_def Let_def

lemma sample_query:
  "find_similar_documents (unit_vector_env 0) ''alice'' ''greeting?'' 3 sample_world = (Inr [sample_doc], sample_world)"
  by (simp add: retrieve_eval)

theorem find_similar_documents_ranked_witness:
  "length [sample_doc] \<le> 3 \<and> sorted_wrt (\<lambda>a b. b \<le> a) (map doc_similarity [sample_doc])"
  using find_similar_documents_ranked [OF sample_query] .

theorem find_similar_documents_count_witness:
  "length [sample_doc] = min 3 (length (spaces sample_world ''alice''))"
  using find_similar_documents_count [OF sample_query] .

theorem find_similar_documents_isolation_witness:
  "\<exists>rid r. (rid, r) \<in> set (spaces sample_world ''alice'') \<and> doc_metadata sample_doc = rec_meta r \<and>
     doc_text sample_doc = rec_meta r ''text''"
  using find_similar_documents_isolation [OF sample_query] by simp

theorem find_similar_documents_other_tenant_witness:
  "fst (find_similar_documents (unit_vector_env 0) ''bob'' ''greeting?'' 3
         (snd (add_document (unit_vector_env 0) ''alice'' ''Hi there.'' Map.empty sample_world))) = Inr []"
proof -
  have "fst (find_similar_documents (unit_vector_env 0) ''bob'' ''greeting?'' 3
         (snd (add_document (unit_vector_env 0) ''alice'' ''Hi there.'' Map.empty sample_world))) =
        fst (find_similar_documents (unit_vector_env 0) ''bob'' ''greeting?'' 3 sample_world)"
    by (rule find_similar_documents_other_tenant [OF surjective_pairing]) simp
  also have "\<dots> = Inr []" by (simp add: retrieve_eval)
  finally show ?thesis .
qed

theorem find_similar_documents_after_clear_witness:
  "clear_index ''alice'' sample_world = (Inr (DocumentsCleared ''alice''), sample_world\<lparr>spaces := (spaces sample_world)(''alice'' := [])\<rparr>) \<and>
   find_similar_documents (unit_vector_env 0) ''alice'' ''greeting?'' 3 (sample_world\<lparr>spaces := (spaces sample_world)(''alice'' := [])\<rparr>)
     = (Inr [], sample_world\<lparr>spaces := (spaces sample_world)(''alice'' := [])\<rparr>)"
proof -
  have c: "clear_index ''alice'' sample_world = (Inr (DocumentsCleared ''alice''), sample_world\<lparr>spaces := (spaces sample_world)(''alice'' := [])\<rparr>)"
    by (simp add: clear_index_def pc_delete_all_def sample_world_def ready_world_def init_world_def)
  have f: "find_similar_documents (unit_vector_env 0) ''alice'' ''greeting?'' 3 (sample_world\<lparr>spaces := (spaces sample_world)(''alice'' := [])\<rparr>)
     = (Inr [], sample_world\<lparr>spaces := (spaces sample_world)(''alice'' := [])\<rparr>)"
    using find_similar_documents_after_clear [OF c] by (simp add: retrieve_eval)
  from c f show ?thesis ..
qed

theorem ask_question_answer_witness:
  "ans_question \<lparr>ans_question = ''greeting?'', ans_documents = [sample_doc], ans_answer = Some (JStr ''ok'')\<rparr> = ''greeting?'' \<and>
   length [sample_doc] \<le> 3 \<and>
   generate (unit_vector_env 0) (build_prompt (join (nl @ nl) (map (\<lambda>d. join_elem (doc_text d)) [sample_doc])) ''greeting?'')
     = Inr (Some (JStr ''ok''))"
proof -
  have a: "ask_question (unit_vector_env 0) ''alice'' ''greeting?'' True sample_world =
    (Inr (Some \<lparr>ans_question = ''greeting?'', ans_documents = [sample_doc], ans_answer = Some (JStr ''ok'')\<rparr>), sample_world)"
    unfolding ask_question_cases sample_query by (simp add: generate_def unit_vector_env_def)
  show ?thesis using ask_question_answer [OF a] by simp
qed


lemma silent_sample_query:
  "find_similar_documents silent_generator_env ''alice'' ''greeting?'' 3 sample_world = (Inr [sample_doc], sample_world)"
  by (simp add: retrieve_eval silent_generator_env_def)

lemma silent_generate_api: "generate_api silent_generator_env p = HttpResponse True 200 (Some (JObj []))"
  by (simp add: silent_generator_env_def)

theorem ask_question_undefined_answer_witness:
  "find_similar_documents silent_generator_env ''alice'' ''greeting?'' 3 sample_world = (Inr [sample_doc], sample_world) \<and>
   generate_api silent_generator_env (build_prompt (join (nl @ nl) (map (\<lambda>d. join_elem (doc_text d)) [sample_doc])) ''greeting?'') =
     HttpResponse True 200 (Some (JObj [])) \<and>
   ''response'' \<notin> fst ` set ([] :: (string \<times> json) list) \<and>
   ask_question silent_generator_env ''alice'' ''greeting?'' True sample_world =
     (Inr (Some \<lparr>ans_question = ''greeting?'', ans_documents = [sample_doc], ans_answer = None\<rparr>), sample_world)"
  using ask_question_undefined_answer [OF silent_sample_query, of 200 "[]"]
  by (simp add: silent_sample_query silent_generate_api)

theorem add_document_then_find_witness:
  "\<exists>r w1 ds w2. spaces ready_world ''alice'' = [] \<and>
     add_document (unit_vector_env 0) ''alice'' ''Hi. Bye.'' Map.empty ready_world = (Inr r, w1) \<and>
     find_similar_documents (unit_vector_env 0) ''alice'' ''hello?'' 3 w1 = (Inr ds, w2) \<and>
     length (split_into_chunks ''Hi. Bye.'' CHUNK_SIZE) \<le> 3 \<and>
     mset (map doc_text ds) = {#Some (JStr ''Hi. Bye.'')#}"
proof -
  have cs: "split_into_chunks ''Hi. Bye.'' CHUNK_SIZE = [''Hi. Bye.'']" by (simp add: chunk_eval CHUNK_SIZE_def)
  have "\<exists>r w1. add_document (unit_vector_env 0) ''alice'' ''Hi. Bye.'' Map.empty ready_world = (Inr r, w1) \<and>
          (\<exists>ds w2. find_similar_documents (unit_vector_env 0) ''alice'' ''hello?'' 3 w1 = (Inr ds, w2))"
    by (simp add: ingest_eval retrieve_eval)
  then obtain r w1 ds w2 where
    a: "add_document (unit_vector_env 0) ''alice'' ''Hi. Bye.'' Map.empty ready_world = (Inr r, w1)" and
    f: "find_similar_documents (unit_vector_env 0) ''alice'' ''hello?'' 3 w1 = (Inr ds, w2)" by auto
  have e: "spaces ready_world ''alice'' = []" by (simp add: ready_world_def init_world_def)
  have "mset (map doc_text ds) = {#Some (JStr ''Hi. Bye.'')#}"
    using add_document_then_find [OF e a f] cs by simp
  with a f e cs show ?thesis by (intro exI [where x = r] exI [where x = w1] exI [where x = ds] exI [where x = w2]) simp
qed

end
