(* ===== verification/Api.thy ===== *)
theory Api
  imports Retrieve
begin

text \<open>
  The HTTP server (\<^verbatim>\<open>src/unnamed/part_001\<close>, the module \<^verbatim>\<open>server.js\<close>): the
  middleware \<^verbatim>\<open>validateUserId\<close> (lines 22--29) and the eight route handlers
  (31--169), each a function from a request and the world to a reply and the
  world.  A request carries the \<^verbatim>\<open>:userId\<close> path parameter, the parsed body
  \<^verbatim>\<open>req.body\<close> (the multipart text fields on the upload routes) and, on the upload
  routes, what \<^verbatim>\<open>multer\<close> put into \<^verbatim>\<open>req.file\<close>.  A reply is the status code and
  the payload given to \<^verbatim>\<open>res.json\<close>, kept as a value of the model rather than
  serialised.  Express only matches a route whose \<^verbatim>\<open>:userId\<close> segment is non-empty.
\<close>

record upload =
  up_buffer :: string
  up_name :: string
  up_size :: nat

datatype request =
    GetHealth
  | PostUser tenant obj
  | DeleteUser tenant obj
  | PostDocuments tenant obj
  | PostPdf tenant obj "upload option"
  | PostTxt tenant obj "upload option"
  | DeleteDocuments tenant obj
  | PostAsk tenant obj

text \<open>The payloads of \<^verbatim>\<open>res.json\<close>: \<^verbatim>\<open>{status: 'ok'}\<close>, a 400 message, a 500
  \<^verbatim>\<open>{error, details: error.message}\<close>, a 500 \<^verbatim>\<open>{error: error.message}\<close>, the
  results of the pipeline functions, and the answer of \<^verbatim>\<open>multer\<close> to a file over
  its size limit.\<close>

datatype reply_body =
    StatusOk
  | BadRequest string
  | Failure string error
  | ErrorMessage error
  | Admin admin_result
  | Added add_result
  | AddedAll "add_result list"
  | Answered "answer option"
  | FileTooLarge

record reply =
  reply_status :: nat
  reply_body :: reply_body

definition MAX_FILE_SIZE :: nat where
  "MAX_FILE_SIZE = 10 * 1024 * 1024"

text \<open>JavaScript truthiness of a property read (\<open>None\<close> is \<^verbatim>\<open>undefined\<close>).\<close>

fun js_truthy :: "json option \<Rightarrow> bool" where
  "js_truthy None = False"
| "js_truthy (Some JNull) = False"
| "js_truthy (Some (JBool b)) = b"
| "js_truthy (Some (JNum n)) = (n \<noteq> 0)"
| "js_truthy (Some (JStr s)) = (s \<noteq> [])"
| "js_truthy (Some (JArr xs)) = True"
| "js_truthy (Some (JObj kvs)) = True"

text \<open>\<^verbatim>\<open>a || d\<close> on a property read.\<close>

definition js_or :: "json option \<Rightarrow> json \<Rightarrow> json" where
  "js_or v d = (if js_truthy v then the v else d)"

definition validate_user_id :: "tenant \<Rightarrow> obj \<Rightarrow> bool" where
  "validate_user_id p body \<longleftrightarrow> p \<noteq> [] \<or> js_truthy (body ''userId'')"

definition ok_reply :: "reply_body \<Rightarrow> reply" where
  "ok_reply b = \<lparr>reply_status = 200, reply_body = b\<rparr>"

definition error_reply :: "nat \<Rightarrow> reply_body \<Rightarrow> reply" where
  "error_reply s b = \<lparr>reply_status = s, reply_body = b\<rparr>"

text \<open>The metadata the upload routes build from the form fields and the file.\<close>

definition upload_metadata :: "obj \<Rightarrow> upload \<Rightarrow> nat \<Rightarrow> obj" where
  "upload_metadata body f now =
     [''title'' \<mapsto> js_or (body ''title'') (JStr ''Untitled Document''),
      ''author'' \<mapsto> js_or (body ''author'') (JStr ''Unknown Author''),
      ''filename'' \<mapsto> JStr (up_name f), ''filesize'' \<mapsto> JNum (int (up_size f)),
      ''uploadDate'' \<mapsto> JNum (int now)]"

text \<open>The question handed to \<^verbatim>\<open>askQuestion\<close>: a string as it is; any other truthy
  value is taken in its string form, the form the prompt template renders.\<close>

definition question_text :: "json option \<Rightarrow> string" where
  "question_text q = (case q of Some (JStr s) \<Rightarrow> s | Some j \<Rightarrow> json_str j | None \<Rightarrow> [])"

definition admin_route :: "string \<Rightarrow> ((error + admin_result) \<times> world) \<Rightarrow> reply \<times> world" where
  "admin_route msg res =
     (case res of
        (Inl e, w') \<Rightarrow> (error_reply 500 (Failure msg e), w')
      | (Inr r, w') \<Rightarrow> (ok_reply (Admin r), w'))"

definition handle_route :: "env \<Rightarrow> request \<Rightarrow> world \<Rightarrow> reply \<times> world" where
  "handle_route E req w =
     (case req of
        GetHealth \<Rightarrow> (ok_reply StatusOk, w)
      | PostUser u b \<Rightarrow> admin_route ''Failed to create user index'' (create_user_index E u w)
      | DeleteUser u b \<Rightarrow> admin_route ''Failed to delete user index'' (delete_user_index u w)
      | PostDocuments u b \<Rightarrow>
          (case b ''documents'' of
             Some (JArr docs) \<Rightarrow>
               (case add_documents E u docs Map.empty w of
                  (Inl e, w') \<Rightarrow> (error_reply 500 (ErrorMessage e), w')
                | (Inr rs, w') \<Rightarrow> (ok_reply (AddedAll rs), w'))
           | _ \<Rightarrow> (error_reply 400 (BadRequest ''Documents must be an array of strings''), w))
      | PostPdf u b file \<Rightarrow>
          (case file of
             None \<Rightarrow> (error_reply 400 (BadRequest ''No PDF file uploaded''), w)
           | Some f \<Rightarrow>
               (case add_pdf_document E u (up_buffer f) (upload_metadata b f (clock w)) w of
                  (Inl e, w') \<Rightarrow> (error_reply 500 (ErrorMessage e), w')
                | (Inr r, w') \<Rightarrow> (ok_reply (Added r), w')))
      | PostTxt u b file \<Rightarrow>
          (case file of
             None \<Rightarrow> (error_reply 400 (BadRequest ''No TXT file uploaded''), w)
           | Some f \<Rightarrow>
               (case add_document E u (up_buffer f) ((upload_metadata b f (clock w))(''documentType'' \<mapsto> JStr ''txt'')) w of
                  (Inl e, w') \<Rightarrow> (error_reply 500 (ErrorMessage e), w')
                | (Inr r, w') \<Rightarrow> (ok_reply (Added r), w')))
      | DeleteDocuments u b \<Rightarrow> admin_route ''Failed to clear documents'' (clear_index u w)
      | PostAsk u b \<Rightarrow>
          (if \<not> js_truthy (b ''question'') then (error_reply 400 (BadRequest ''Question is required''), w)
           else (case ask_question E u (question_text (b ''question'')) True w of
                   (Inl e, w') \<Rightarrow> (error_reply 500 (Failure ''Failed to process question'' e), w')
                 | (Inr a, w') \<Rightarrow> (ok_reply (Answered a), w'))))"

text \<open>A step changes no namespace but the one of tenant \<open>u\<close>.\<close>

definition only_touches :: "tenant \<Rightarrow> world \<Rightarrow> world \<Rightarrow> bool" where
  "only_touches u w w' \<longleftrightarrow> (\<forall>v. v \<noteq> u \<longrightarrow> spaces w' v = spaces w v)"

text \<open>The tenant and body a request names, for the routes behind \<^verbatim>\<open>validateUserId\<close>.\<close>

fun req_user :: "request \<Rightarrow> (tenant \<times> obj) option" where
  "req_user GetHealth = None"
| "req_user (PostUser u b) = Some (u, b)"
| "req_user (DeleteUser u b) = Some (u, b)"
| "req_user (PostDocuments u b) = Some (u, b)"
| "req_user (PostPdf u b f) = Some (u, b)"
| "req_user (PostTxt u b f) = Some (u, b)"
| "req_user (DeleteDocuments u b) = Some (u, b)"
| "req_user (PostAsk u b) = Some (u, b)"

text \<open>
  The middleware chain of a request: \<^verbatim>\<open>validateUserId\<close> first, then, on the
  upload routes, \<^verbatim>\<open>multer\<close> with its 10 MB limit (a larger file is passed to
  the default error handler, status 500), then the handler.
\<close>

definition handle :: "env \<Rightarrow> request \<Rightarrow> world \<Rightarrow> reply \<times> world" where
  "handle E req w =
     (case req_user req of
        Some (u, b) \<Rightarrow>
          if \<not> validate_user_id u b then (error_reply 400 (BadRequest ''User ID is required''), w)
          else (case req of
                  PostPdf _ _ (Some f) \<Rightarrow> if MAX_FILE_SIZE < up_size f then (error_reply 500 FileTooLarge, w) else handle_route E req w
                | PostTxt _ _ (Some f) \<Rightarrow> if MAX_FILE_SIZE < up_size f then (error_reply 500 FileTooLarge, w) else handle_route E req w
                | _ \<Rightarrow> handle_route E req w)
      | None \<Rightarrow> handle_route E req w)"

section \<open>Effects of the pipeline functions on the store\<close>

lemma create_user_index_store:
  "create_user_index E u w = (r, w') \<Longrightarrow>
   spaces w' = spaces w \<and> (index w' = index w \<or> index w = None \<and> index w' = Some (created_index E w))"
proof (cases "index w")
  case None
  assume c: "create_user_index E u w = (r, w')"
  obtain r2 w2 where wl: "wait_loop 10 10 (w\<lparr>index := Some (created_index E w)\<rparr>) = (r2, w2)" by fastforce
  from wait_loop_frame [OF wl] obtain j where "w2 = w\<lparr>index := Some (created_index E w), clock := clock w + POLL_INTERVAL * j\<rparr>"
    by auto
  moreover from c None wl have "w' = w2"
    by (auto simp: create_user_index_fresh wait_for_index_def split: sum.splits)
  ultimately show ?thesis using None by simp
next
  case (Some i)
  assume "create_user_index E u w = (r, w')"
  with Some show ?thesis by (simp add: create_user_index_def pc_describe_def)
qed

lemma clear_index_store:
  "index (snd (clear_index u w)) = index w \<and> clock (snd (clear_index u w)) = clock w \<and>
   spaces (snd (clear_index u w)) = (if index w = None then spaces w else (spaces w)(u := []))"
  by (auto simp: clear_index_def pc_delete_all_def split: option.splits)

lemma delete_user_index_store: "snd (delete_user_index u w) = snd (clear_index u w)"
  by (auto simp: delete_user_index_def split: prod.splits sum.splits)

lemma add_document_frame:
  "add_document E u text md w = (r, w') \<Longrightarrow> index w' = index w \<and> only_touches u w w'"
proof -
  assume "add_document E u text md w = (r, w')"
  from add_document_chunks [OF this] obtain x where
    "add_chunks E u md (length (split_into_chunks text CHUNK_SIZE)) 0 (split_into_chunks text CHUNK_SIZE) [] w = (x, w')"
    by blast
  from add_chunks_frame [OF this] show ?thesis by (simp add: only_touches_def)
qed

lemma add_pdf_document_frame:
  "add_pdf_document E u buf md w = (r, w') \<Longrightarrow> index w' = index w \<and> only_touches u w w'"
  by (auto simp: add_pdf_document_def only_touches_def split: sum.splits dest: add_document_frame)

lemma add_documents_loop_frame:
  "add_documents_loop E u md docs acc w = (r, w') \<Longrightarrow> index w' = index w \<and> only_touches u w w'"
proof (induction docs arbitrary: acc w)
  case (Cons d ds)
  then show ?case
    by (auto simp: only_touches_def split: json.splits prod.splits sum.splits dest!: add_document_frame)
qed (simp add: only_touches_def)

lemma ask_question_world:
  "ask_question E u q rd w = (r, w') \<Longrightarrow> w' = w\<lparr>clock := clock w + embed_latency E\<rparr>"
  by (auto simp: ask_question_cases split: prod.splits sum.splits if_splits dest!: find_similar_documents_world)

lemma admin_route_world: "admin_route msg res = (r, w') \<Longrightarrow> w' = snd res"
  by (auto simp: admin_route_def split: prod.splits sum.splits)

lemma handle_route_frame:
  "handle_route E req w = (r, w') \<Longrightarrow> req_user req = Some (u, b) \<Longrightarrow> only_touches u w w'"
proof (cases req)
  case (PostUser u' b')
  moreover assume "handle_route E req w = (r, w')" "req_user req = Some (u, b)"
  ultimately show ?thesis
    using create_user_index_store [of E u w "fst (create_user_index E u w)" "snd (create_user_index E u w)"] by (auto simp: handle_route_def only_touches_def dest!: admin_route_world)
next
  case (DeleteUser u' b')
  moreover assume "handle_route E req w = (r, w')" "req_user req = Some (u, b)"
  ultimately show ?thesis
    using clear_index_store [of u w]
    by (auto simp: handle_route_def only_touches_def delete_user_index_store dest!: admin_route_world)
next
  case (DeleteDocuments u' b')
  moreover assume "handle_route E req w = (r, w')" "req_user req = Some (u, b)"
  ultimately show ?thesis
    using clear_index_store [of u w] by (auto simp: handle_route_def only_touches_def dest!: admin_route_world)
next
  case (PostDocuments u' b')
  moreover assume "handle_route E req w = (r, w')" "req_user req = Some (u, b)"
  ultimately show ?thesis
    by (auto simp: handle_route_def add_documents_def only_touches_def
        split: option.splits json.splits prod.splits sum.splits dest!: add_documents_loop_frame)
next
  case (PostPdf u' b' f)
  moreover assume "handle_route E req w = (r, w')" "req_user req = Some (u, b)"
  ultimately show ?thesis
    by (auto simp: handle_route_def only_touches_def split: option.splits prod.splits sum.splits dest!: add_pdf_document_frame)
next
  case (PostTxt u' b' f)
  moreover assume "handle_route E req w = (r, w')" "req_user req = Some (u, b)"
  ultimately show ?thesis
    by (auto simp: handle_route_def only_touches_def split: option.splits prod.splits sum.splits dest!: add_document_frame)
next
  case (PostAsk u' b')
  moreover assume "handle_route E req w = (r, w')" "req_user req = Some (u, b)"
  ultimately show ?thesis
    by (auto simp: handle_route_def only_touches_def split: if_splits prod.splits sum.splits dest!: ask_question_world)
qed simp

lemma handle_cases:
  "handle E req w = (r, w') \<Longrightarrow> w' = w \<or> handle_route E req w = (r, w')"
  by (auto simp: handle_def split: option.splits if_splits request.splits)

lemma handle_route_no_user_message:
  "fst (handle_route E req w) \<noteq> error_reply 400 (BadRequest ''User ID is required'')"
  by (auto simp: handle_route_def admin_route_def error_reply_def ok_reply_def
      split: request.splits option.splits json.splits prod.splits sum.splits)

section \<open>Properties of the HTTP layer\<close>

text \<open>
  C27. Tenant isolation of the whole server: a request on
  \<^verbatim>\<open>/api/users/:userId/...\<close>, whatever its route and outcome, changes no other
  tenant's namespace.
\<close>

theorem handle_isolation:
  assumes "handle E req w = (r, w')" and "req_user req = Some (u, b)" and "v \<noteq> u"
  shows "spaces w' v = spaces w v"
  using handle_cases [OF assms(1)] handle_route_frame [OF _ assms(2)] assms(3)
  by (auto simp: only_touches_def)

text \<open>
  C28. \<^verbatim>\<open>validateUserId\<close> never rejects a request that reached a route: the
  \<^verbatim>\<open>:userId\<close> segment Express matched is non-empty, so no reply is ever
  \<^verbatim>\<open>400 User ID is required\<close>.
\<close>

theorem handle_user_id_never_required:
  assumes "req_user req = Some (u, b)" and "u \<noteq> []"
  shows "fst (handle E req w) \<noteq> error_reply 400 (BadRequest ''User ID is required'')"
proof -
  have "fst (handle E req w) = error_reply 500 FileTooLarge \<or> fst (handle E req w) = fst (handle_route E req w)"
    using assms by (auto simp: handle_def validate_user_id_def split: request.splits option.splits if_splits)
  then show ?thesis using handle_route_no_user_message [of E req w] by (auto simp: error_reply_def)
qed

text \<open>
  A body whose \<^verbatim>\<open>documents\<close> is not an array is refused with 400 before
  anything is ingested.
\<close>

theorem handle_documents_not_array:
  assumes "\<forall>docs. b ''documents'' \<noteq> Some (JArr docs)" and "u \<noteq> []"
  shows "handle E (PostDocuments u b) w = (error_reply 400 (BadRequest ''Documents must be an array of strings''), w)"
  using assms by (auto simp: handle_def handle_route_def validate_user_id_def split: option.splits json.splits)

text \<open>
  A request without a truthy \<^verbatim>\<open>question\<close> is refused with 400 and the world
  is unchanged; no embedding or generation call is made.
\<close>

theorem handle_ask_requires_question:
  assumes "\<not> js_truthy (b ''question'')" and "u \<noteq> []"
  shows "handle E (PostAsk u b) w = (error_reply 400 (BadRequest ''Question is required''), w)"
  using assms by (simp add: handle_def handle_route_def validate_user_id_def)

lemma add_documents_loop_strings:
  "add_documents_loop E u md (map JStr ts @ ys) acc w =
     (case add_documents_loop E u md (map JStr ts) acc w of
        (Inl e, w') \<Rightarrow> (Inl e, w')
      | (Inr acc', w') \<Rightarrow> add_documents_loop E u md ys acc' w')"
  by (induction ts arbitrary: acc w) (auto split: prod.splits sum.splits)

text \<open>
  C31. The documents route checks only that \<^verbatim>\<open>documents\<close> is an array: for a
  batch of strings followed by a non-string element, every string document before
  it is ingested, then the request fails with 500 and a \<^verbatim>\<open>TypeError\<close> instead
  of a 400, and the store keeps what the strings added.
\<close>

theorem handle_documents_non_string:
  assumes "u \<noteq> []" and "b ''documents'' = Some (JArr (map JStr ts @ x # rest))" and "\<forall>s. x \<noteq> JStr s"
    and "add_documents E u (map JStr ts) Map.empty w = (Inr rs, w1)"
  shows "handle E (PostDocuments u b) w = (error_reply 500 (ErrorMessage JsTypeError), w1)"
proof -
  have "add_documents E u (map JStr ts @ x # rest) Map.empty w = (Inl JsTypeError, w1)"
    using assms(3,4) by (cases x) (simp_all add: add_documents_def add_documents_loop_strings)
  then show ?thesis using assms(1,2) by (simp add: handle_def handle_route_def validate_user_id_def)
qed

section \<open>Requests on concrete worlds\<close>

theorem handle_isolation_witness:
  "spaces (snd (handle (unit_vector_env 0) (PostDocuments ''alice'' [''documents'' \<mapsto> JArr [JStr ''Hi there.'']]) sample_world)) ''bob''
     = []"
proof -
  have "spaces (snd (handle (unit_vector_env 0) (PostDocuments ''alice'' [''documents'' \<mapsto> JArr [JStr ''Hi there.'']]) sample_world)) ''bob''
     = spaces sample_world ''bob''"
    by (rule handle_isolation [OF surjective_pairing, where u = "''alice''"]) simp_all
  then show ?thesis by (simp add: sample_world_def ready_world_def init_world_def)
qed

theorem handle_user_id_never_required_witness:
  "fst (handle (offline_env 0) (PostUser ''alice'' Map.empty) init_world) \<noteq> error_reply 400 (BadRequest ''User ID is required'')"
  by (rule handle_user_id_never_required [where u = "''alice''" and b = Map.empty]) simp_all

theorem handle_documents_not_array_witness:
  "handle (offline_env 0) (PostDocuments ''alice'' [''documents'' \<mapsto> JStr ''Hello.'']) init_world
     = (error_reply 400 (BadRequest ''Documents must be an array of strings''), init_world)"
  by (rule handle_documents_not_array) simp_all

theorem handle_ask_requires_question_witness:
  "handle (offline_env 0) (PostAsk ''alice'' [''question'' \<mapsto> JStr []]) init_world
     = (error_reply 400 (BadRequest ''Question is required''), init_world)"
  by (rule handle_ask_requires_question) simp_all


theorem handle_documents_non_string_witness:
  "\<exists>rs w1. add_documents (unit_vector_env 0) ''alice'' [JStr ''Hello.''] Map.empty ready_world = (Inr rs, w1) \<and>
     handle (unit_vector_env 0) (PostDocuments ''alice'' [''documents'' \<mapsto> JArr [JStr ''Hello.'', JNum 5]]) ready_world =
       (error_reply 500 (ErrorMessage JsTypeError), w1) \<and>
     map fst (spaces w1 ''alice'') = [doc_id 0 0]"
proof -
  have "\<exists>rs w1. add_documents (unit_vector_env 0) ''alice'' [JStr ''Hello.''] Map.empty ready_world = (Inr rs, w1) \<and>
          map fst (spaces w1 ''alice'') = [doc_id 0 0]"
    by (simp add: add_documents_def ingest_eval)
  then obtain rs w1 where a: "add_documents (unit_vector_env 0) ''alice'' [JStr ''Hello.''] Map.empty ready_world = (Inr rs, w1)"
    and s: "map fst (spaces w1 ''alice'') = [doc_id 0 0]" by auto
  have "handle (unit_vector_env 0) (PostDocuments ''alice'' [''documents'' \<mapsto> JArr [JStr ''Hello.'', JNum 5]]) ready_world =
          (error_reply 500 (ErrorMessage JsTypeError), w1)"
    using handle_documents_non_string [of "''alice''" "[''documents'' \<mapsto> JArr [JStr ''Hello.'', JNum 5]]" "[''Hello.'']"
        "JNum 5" "[]" "unit_vector_env 0" ready_world rs w1] a by simp
  with a s show ?thesis by (intro exI [where x = rs] exI [where x = w1] conjI) assumption+
qed

end
