(* ===== verification/Scraper.thy ===== *)
theory Scraper
  imports Normalize
begin

text \<open>
  The two pure parts of the scraping scripts.  \<^verbatim>\<open>fetchWithRetry\<close>
  (\<^verbatim>\<open>src/newsScraper.js\<close>, lines 22--39) makes at most \<^verbatim>\<open>maxRetries\<close> requests,
  sleeping \<open>1000 * (i + 1)\<close> ms after the \<open>i\<close>-th failure unless it was the last;
  the answer of attempt \<open>i\<close> is a parameter \<open>get i\<close> (\<open>Inl\<close> the error axios
  throws), the clock is explicit.  \<^verbatim>\<open>extractArticles\<close>
  (\<^verbatim>\<open>src/convert_data.js\<close>, lines 4--45) cuts a crawled text file into articles at
  the \<^verbatim>\<open>--- Article\<close> marker lines, dropping header and comment-count lines, and
  the script (line 57) collapses white space in each article.
\<close>

section \<open>Retrying a request\<close>

text \<open>
  The loop with \<open>k\<close> rounds left, at attempt \<open>i\<close> and time \<open>t\<close>.  The result is
  \<open>None\<close> when the loop ends without returning (the function then returns
  \<^verbatim>\<open>undefined\<close>), otherwise the response or the error thrown, with the time.
\<close>

fun fetch_loop :: "(nat \<Rightarrow> 'e + 'r) \<Rightarrow> nat \<Rightarrow> nat \<Rightarrow> nat \<Rightarrow> nat \<Rightarrow> ('e + 'r) option \<times> nat" where
  "fetch_loop get max_retries i 0 t = (None, t)"
| "fetch_loop get max_retries i (Suc k) t =
     (case get i of
        Inr r \<Rightarrow> (Some (Inr r), t)
      | Inl e \<Rightarrow>
          if i = max_retries - 1 then (Some (Inl e), t)
          else fetch_loop get max_retries (Suc i) k (t + 1000 * (i + 1)))"

definition fetch_with_retry :: "(nat \<Rightarrow> 'e + 'r) \<Rightarrow> nat \<Rightarrow> nat \<Rightarrow> ('e + 'r) option \<times> nat" where
  "fetch_with_retry get max_retries t = fetch_loop get max_retries 0 max_retries t"

text \<open>The time slept before attempt \<open>j\<close>: \<open>1000 + 2000 + ... + 1000 * j\<close>.\<close>

definition backoff_total :: "nat \<Rightarrow> nat" where
  "backoff_total j = 500 * j * (j + 1)"

section \<open>Extracting articles\<close>

text \<open>\<^verbatim>\<open>s.split(sep)\<close> for a one-character separator.\<close>

function split_on :: "char \<Rightarrow> string \<Rightarrow> string list" where
  "split_on c s =
     (if c \<in> set s then takeWhile (\<lambda>x. x \<noteq> c) s # split_on c (tl (dropWhile (\<lambda>x. x \<noteq> c) s))
      else [s])"
  by auto
termination
proof (relation "measure (\<lambda>(c, s). length s)")
  fix c :: char and s :: string
  assume "c \<in> set s"
  then have "dropWhile (\<lambda>x. x \<noteq> c) s \<noteq> []" by (simp add: dropWhile_eq_Nil_conv)
  then show "((c, tl (dropWhile (\<lambda>x. x \<noteq> c) s)), c, s) \<in> measure (\<lambda>(c, s). length s)"
    using length_dropWhile_le [of "\<lambda>x. x \<noteq> c" s] by (cases "dropWhile (\<lambda>x. x \<noteq> c) s") auto
qed auto

declare split_on.simps [simp del]

definition starts_with :: "string \<Rightarrow> string \<Rightarrow> bool" where
  "starts_with p s \<longleftrightarrow> take (length p) s = p"

definition is_digit :: "char \<Rightarrow> bool" where
  "is_digit c \<longleftrightarrow> (let n = (of_char c :: nat) in 48 \<le> n \<and> n \<le> 57)"

text \<open>\<^verbatim>\<open>line.match(/^\d+ Komentar/)\<close>: the greedy run of digits is the only
  candidate, since a shorter run is followed by a digit.\<close>

definition comment_count_line :: "string \<Rightarrow> bool" where
  "comment_count_line s \<longleftrightarrow>
     (let ds = takeWhile is_digit s in ds \<noteq> [] \<and> starts_with '' Komentar'' (drop (length ds) s))"

definition article_marker :: "string \<Rightarrow> bool" where
  "article_marker line \<longleftrightarrow> starts_with ''--- Article'' line"

definition header_line :: "string \<Rightarrow> bool" where
  "header_line line \<longleftrightarrow>
     starts_with ''Page Title:'' line \<or> starts_with ''URL:'' line \<or> starts_with ''Articles Found:'' line \<or>
     comment_count_line line"

text \<open>The body of \<^verbatim>\<open>for (let line of lines)\<close> on the state
  \<open>(currentArticle, articles)\<close>.\<close>

definition article_step :: "string \<times> string list \<Rightarrow> string \<Rightarrow> string \<times> string list" where
  "article_step st raw =
     (let (cur, arts) = st; line = js_trim raw in
      if line = [] then (cur, arts)
      else if article_marker line then ([], if cur \<noteq> [] then arts @ [js_trim cur] else arts)
      else if header_line line then (cur, arts)
      else ((if cur \<noteq> [] then cur @ '' '' else []) @ line, arts))"

definition extract_articles :: "string \<Rightarrow> string list" where
  "extract_articles raw =
     (let (cur, arts) = foldl article_step ([], []) (split_on (CHR 0x0A) raw)
      in if cur \<noteq> [] then arts @ [js_trim cur] else arts)"

text \<open>\<^verbatim>\<open>article.replace(/\s+/g, ' ').trim()\<close> of the script.\<close>

definition clean_article :: "string \<Rightarrow> string" where
  "clean_article a = js_trim (collapse_ws a)"

subsection \<open>Reference model: the content lines, grouped between markers\<close>

text \<open>The trimmed, non-empty lines, each either a marker (\<open>None\<close>) or a content
  line (\<open>Some\<close>); header lines are gone.\<close>

definition content_items :: "string list \<Rightarrow> string option list" where
  "content_items ls =
     map (\<lambda>l. if article_marker l then None else Some l)
       (filter (\<lambda>l. l \<noteq> [] \<and> (article_marker l \<or> \<not> header_line l)) (map js_trim ls))"

text \<open>The content lines between consecutive markers.\<close>

fun group_items :: "string option list \<Rightarrow> string list list" where
  "group_items [] = [[]]"
| "group_items (None # xs) = [] # group_items xs"
| "group_items (Some l # xs) = (case group_items xs of g # gs \<Rightarrow> (l # g) # gs | [] \<Rightarrow> [[l]])"

definition article_groups :: "string \<Rightarrow> string list list" where
  "article_groups raw = filter (\<lambda>g. g \<noteq> []) (group_items (content_items (split_on (CHR 0x0A) raw)))"

text \<open>The flush after the loop.\<close>

definition article_flush :: "string \<times> string list \<Rightarrow> string list" where
  "article_flush st = (let (cur, arts) = st in if cur \<noteq> [] then arts @ [js_trim cur] else arts)"

text \<open>Lines as the loop leaves them in \<^verbatim>\<open>currentArticle\<close>: non-empty and trimmed.\<close>

definition trimmed_lines :: "string list \<Rightarrow> bool" where
  "trimmed_lines g \<longleftrightarrow> (\<forall>l \<in> set g. l \<noteq> [] \<and> js_trim l = l)"

section \<open>Lemmas on retrying\<close>

lemma backoff_total_Suc: "backoff_total (Suc i) = backoff_total i + 1000 * (i + 1)"
  by (simp add: backoff_total_def algebra_simps)

lemma backoff_total_mono: "a \<le> b \<Longrightarrow> backoff_total a \<le> backoff_total b"
  unfolding backoff_total_def by (intro mult_le_mono) simp_all

lemma fetch_loop_success:
  "i + k = n \<Longrightarrow> i \<le> j \<Longrightarrow> j < n \<Longrightarrow> \<forall>l. i \<le> l \<and> l < j \<longrightarrow> isl (get l) \<Longrightarrow> get j = Inr r \<Longrightarrow>
   fetch_loop get n i k t = (Some (Inr r), t + (backoff_total j - backoff_total i))"
proof (induction k arbitrary: i t)
  case (Suc k)
  show ?case
  proof (cases "i = j")
    case False
    with Suc.prems have "i < j" and "isl (get i)" by auto
    then obtain e where e: "get i = Inl e" by (cases "get i") auto
    have mono: "backoff_total (Suc i) \<le> backoff_total j"
      using \<open>i < j\<close> by (simp add: backoff_total_mono)
    from Suc.prems \<open>i < j\<close> have "fetch_loop get n (Suc i) k (t + 1000 * (i + 1)) =
        (Some (Inr r), t + 1000 * (i + 1) + (backoff_total j - backoff_total (Suc i)))"
      by (intro Suc.IH) auto
    with e \<open>i < j\<close> Suc.prems(3) mono show ?thesis by (simp add: backoff_total_Suc)
  qed (use Suc.prems in simp)
qed simp

lemma fetch_loop_exhausted:
  "i + k = n \<Longrightarrow> i < n \<Longrightarrow> \<forall>l. i \<le> l \<and> l < n \<longrightarrow> isl (get l) \<Longrightarrow>
   fetch_loop get n i k t = (Some (get (n - 1)), t + (backoff_total (n - 1) - backoff_total i))"
proof (induction k arbitrary: i t)
  case (Suc k)
  from Suc.prems obtain e where e: "get i = Inl e" by (cases "get i") auto
  show ?case
  proof (cases "i = n - 1")
    case True
    with e show ?thesis by simp
  next
    case False
    with Suc.prems have lt: "Suc i < n" by auto
    have mono: "backoff_total (Suc i) \<le> backoff_total (n - 1)"
      using lt by (simp add: backoff_total_mono)
    from Suc.prems lt have "fetch_loop get n (Suc i) k (t + 1000 * (i + 1)) =
        (Some (get (n - 1)), t + 1000 * (i + 1) + (backoff_total (n - 1) - backoff_total (Suc i)))"
      by (intro Suc.IH) auto
    with e False mono show ?thesis by (simp add: backoff_total_Suc)
  qed
qed simp

section \<open>Lemmas on article extraction\<close>

lemma group_items_ne: "group_items xs \<noteq> []"
  by (induction xs rule: group_items.induct) (auto split: list.splits)

lemma hd_join: "g \<noteq> [] \<Longrightarrow> hd g \<noteq> [] \<Longrightarrow> hd (join sep g) = hd (hd g)"
  by (induction sep g rule: join.induct) auto

lemma last_join: "g \<noteq> [] \<Longrightarrow> last g \<noteq> [] \<Longrightarrow> last (join sep g) = last (last g)"
proof (induction sep g rule: join.induct)
  case (3 sep x y xs)
  then have "join sep (y # xs) \<noteq> []" using join_nonempty [of "last (y # xs)" "y # xs" sep] by simp
  with 3 show ?case by simp
qed auto

lemma js_trim_join: "trimmed_lines g \<Longrightarrow> js_trim (join sep g) = join sep g"
proof (cases "g = []")
  case False
  assume t: "trimmed_lines g"
  with False have h: "hd g \<noteq> [] \<and> js_trim (hd g) = hd g" and l: "last g \<noteq> [] \<and> js_trim (last g) = last g"
    by (auto simp: trimmed_lines_def)
  then have "\<not> is_space (hd (hd g))" "\<not> is_space (last (last g))"
    using js_trim_ends [of "hd g"] js_trim_ends [of "last g"] by auto
  then show ?thesis
    using False h l by (intro js_trim_id) (simp add: hd_join last_join)
qed simp

lemma group_items_None: "group_items (None # xs) = [] # group_items xs"
  by simp

lemma group_items_Some: "group_items (Some l # xs) = (l # hd (group_items xs)) # tl (group_items xs)"
  using group_items_ne [of xs] by (cases "group_items xs") auto

lemma content_items_Cons:
  "content_items (l # ls) =
     (if js_trim l \<noteq> [] \<and> (article_marker (js_trim l) \<or> \<not> header_line (js_trim l))
      then [if article_marker (js_trim l) then None else Some (js_trim l)] else []) @ content_items ls"
  by (simp add: content_items_def)

lemma join_trimmed_ne: "trimmed_lines g \<Longrightarrow> g \<noteq> [] \<Longrightarrow> join sep g \<noteq> []"
  using join_nonempty [of "hd g" g sep] by (auto simp: trimmed_lines_def)

lemma article_step_line:
  "trimmed_lines g \<Longrightarrow> t \<noteq> [] \<Longrightarrow> (if join '' '' g \<noteq> [] then join '' '' g @ '' '' else []) @ t = join '' '' (g @ [t])"
  by (cases "g = []") (auto simp: join_append_single join_trimmed_ne)

lemma article_step_skip:
  "js_trim l = [] \<or> \<not> article_marker (js_trim l) \<and> header_line (js_trim l) \<Longrightarrow> article_step st l = st"
  by (auto simp: article_step_def Let_def split: prod.splits)

lemma foldl_article_step:
  "trimmed_lines g \<Longrightarrow>
   article_flush (foldl article_step (join '' '' g, A) ls) =
     A @ map (join '' '') (filter (\<lambda>h. h \<noteq> [])
       ((g @ hd (group_items (content_items ls))) # tl (group_items (content_items ls))))"
proof (induction ls arbitrary: g A)
  case Nil
  then show ?case
    by (cases "g = []") (auto simp: article_flush_def content_items_def js_trim_join join_trimmed_ne)
next
  case (Cons l ls)
  let ?t = "js_trim l"
  let ?G = "group_items (content_items ls)"
  consider (empty) "?t = []" | (marker) "?t \<noteq> []" "article_marker ?t"
    | (header) "?t \<noteq> []" "\<not> article_marker ?t" "header_line ?t"
    | (content) "?t \<noteq> []" "\<not> article_marker ?t" "\<not> header_line ?t"
    by blast
  then show ?case
  proof cases
    case empty
    then have "article_step (join '' '' g, A) l = (join '' '' g, A)" by (simp add: article_step_skip)
    with empty show ?thesis by (simp add: content_items_Cons Cons.IH [OF Cons.prems])
  next
    case header
    then have "article_step (join '' '' g, A) l = (join '' '' g, A)" by (simp add: article_step_skip)
    with header show ?thesis by (simp add: content_items_Cons Cons.IH [OF Cons.prems])
  next
    case marker
    let ?A = "if join '' '' g \<noteq> [] then A @ [js_trim (join '' '' g)] else A"
    have step: "article_step (join '' '' g, A) l = (join '' '' [], ?A)"
      using marker by (simp add: article_step_def)
    have "article_flush (foldl article_step (join '' '' [], ?A) ls) =
          ?A @ map (join '' '') (filter (\<lambda>h. h \<noteq> []) (([] @ hd ?G) # tl ?G))"
      by (rule Cons.IH) (simp add: trimmed_lines_def)
    also have "([] @ hd ?G) # tl ?G = ?G" using group_items_ne by simp
    finally show ?thesis
      using marker Cons.prems step by (cases "g = []") (auto simp: content_items_Cons js_trim_join join_trimmed_ne)
  next
    case content
    have step: "article_step (join '' '' g, A) l = (join '' '' (g @ [?t]), A)"
      using content Cons.prems by (simp add: article_step_def article_step_line)
    have "trimmed_lines (g @ [?t])" using Cons.prems content by (simp add: trimmed_lines_def)
    then show ?thesis
      using content by (simp del: group_items.simps(3) add: step Cons.IH content_items_Cons group_items_Some)
  qed
qed

lemma foldl_article_lines:
  "article_flush (foldl article_step ([], []) ls) =
     map (join '' '') (filter (\<lambda>h. h \<noteq> []) (group_items (content_items ls)))"
proof -
  have "article_flush (foldl article_step (join '' '' [], []) ls) =
        [] @ map (join '' '') (filter (\<lambda>h. h \<noteq> [])
          (([] @ hd (group_items (content_items ls))) # tl (group_items (content_items ls))))"
    by (rule foldl_article_step) (simp add: trimmed_lines_def)
  then show ?thesis using group_items_ne [of "content_items ls"] by simp
qed

lemma extract_articles_flush:
  "extract_articles raw = article_flush (foldl article_step ([], []) (split_on (CHR 0x0A) raw))"
  by (simp add: extract_articles_def article_flush_def)

lemma split_on_no_sep: "c \<notin> set s \<Longrightarrow> split_on c s = [s]"
  by (simp add: split_on.simps [of c s])

lemma split_on_sep: "c \<notin> set x \<Longrightarrow> split_on c (x @ c # r) = x # split_on c r"
proof -
  assume "c \<notin> set x"
  then have x: "\<And>y. y \<in> set x \<Longrightarrow> y \<noteq> c" by auto
  have "takeWhile (\<lambda>y. y \<noteq> c) (x @ c # r) = x" by (simp add: takeWhile_append2 x)
  moreover have "dropWhile (\<lambda>y. y \<noteq> c) (x @ c # r) = c # r" by (simp add: dropWhile_append2 x)
  ultimately show ?thesis by (simp add: split_on.simps [of c "x @ c # r"])
qed

text \<open>Splitting the lines of a text at the line feeds gives the lines back.\<close>

lemma split_on_join: "\<forall>x \<in> set L. c \<notin> set x \<Longrightarrow> L \<noteq> [] \<Longrightarrow> split_on c (join [c] L) = L"
  by (induction "[c]" L rule: join.induct) (auto simp: split_on_no_sep split_on_sep)

lemma fetch_loop_returns:
  "i + k = n \<Longrightarrow> i < n \<Longrightarrow>
   \<exists>r t'. fetch_loop get n i k t = (Some r, t') \<and> t' \<le> t + (backoff_total (n - 1) - backoff_total i)"
proof (induction k arbitrary: i t)
  case (Suc k)
  show ?case
  proof (cases "get i")
    case (Inl e)
    show ?thesis
    proof (cases "i = n - 1")
      case False
      with Suc.prems have lt: "Suc i < n" by auto
      from Suc.IH [of "Suc i" "t + 1000 * (i + 1)"] Suc.prems lt obtain r t' where
        "fetch_loop get n (Suc i) k (t + 1000 * (i + 1)) = (Some r, t')"
        "t' \<le> t + 1000 * (i + 1) + (backoff_total (n - 1) - backoff_total (Suc i))"
        by auto
      moreover have "backoff_total (Suc i) \<le> backoff_total (n - 1)" using lt by (simp add: backoff_total_mono)
      ultimately show ?thesis using Inl False by (auto simp: backoff_total_Suc)
    qed (use Inl in simp)
  qed simp
qed simp

section \<open>Properties of the scraping scripts\<close>

text \<open>
  C37. \<^verbatim>\<open>fetchWithRetry\<close> returns the first successful response: when attempts
  \<open>0 .. j-1\<close> fail and attempt \<open>j < maxRetries\<close> succeeds, it returns that response
  after sleeping \<open>1000 + 2000 + ... + 1000 * j\<close> ms.
\<close>

theorem fetch_with_retry_success:
  assumes "j < n" and "\<forall>i < j. isl (get i)" and "get j = Inr r"
  shows "fetch_with_retry get n t = (Some (Inr r), t + backoff_total j)"
  using fetch_loop_success [of 0 n n j get r t] assms by (simp add: fetch_with_retry_def backoff_total_def)

text \<open>
  C38. When every attempt fails, \<^verbatim>\<open>fetchWithRetry\<close> throws the error of the last
  one after \<open>maxRetries\<close> attempts, having slept \<open>1000 * (1 + 2 + ... + (n - 1))\<close>
  ms: the back-off grows linearly, not exponentially (four attempts sleep 6000 ms,
  where doubling delays would sleep 7000 ms).
\<close>

theorem fetch_with_retry_exhausted:
  assumes "0 < n" and "\<forall>i < n. isl (get i)"
  shows "fetch_with_retry get n t = (Some (get (n - 1)), t + backoff_total (n - 1))"
  using fetch_loop_exhausted [of 0 n n get t] assms by (simp add: fetch_with_retry_def backoff_total_def)

text \<open>
  C39. \<^verbatim>\<open>extractArticles\<close> returns exactly the non-empty groups of content lines
  between \<^verbatim>\<open>--- Article\<close> markers, each joined with single spaces: header lines
  and comment counts are dropped, no content line is lost, and no article is empty.
\<close>

theorem extract_articles_refines: "extract_articles raw = map (join '' '') (article_groups raw)"
  by (simp add: extract_articles_flush foldl_article_lines article_groups_def)

text \<open>
  C30. \<^verbatim>\<open>fetchWithRetry\<close> with at least one attempt always returns a response or
  throws an error (it never falls off the end of its loop and returns
  \<^verbatim>\<open>undefined\<close>), after at most \<open>1000 * (1 + 2 + ... + (n - 1))\<close> ms.
\<close>

theorem fetch_with_retry_terminates:
  assumes "0 < n"
  shows "\<exists>r t'. fetch_with_retry get n t = (Some r, t') \<and> t' \<le> t + backoff_total (n - 1)"
  using fetch_loop_returns [of 0 n n get t] assms by (simp add: fetch_with_retry_def backoff_total_def)

section \<open>Concrete runs\<close>

theorem fetch_with_retry_success_witness:
  "fetch_with_retry (\<lambda>i. if i < 2 then Inl () else Inr ''page'') 3 0 = (Some (Inr ''page''), 3000)"
  using fetch_with_retry_success [of 2 3 "\<lambda>i. if i < 2 then Inl () else Inr ''page''" "''page''" 0]
  by (simp add: backoff_total_def)

theorem fetch_with_retry_terminates_witness:
  "\<exists>r t'. fetch_with_retry (\<lambda>i. if i = 1 then Inr ''page'' else Inl i) 3 0 = (Some r, t') \<and> t' \<le> 3000"
  using fetch_with_retry_terminates [of 3 "\<lambda>i. if i = 1 then Inr ''page'' else Inl i" 0]
  by (simp add: backoff_total_def)

theorem fetch_with_retry_exhausted_witness:
  "fetch_with_retry (\<lambda>i. Inl i :: nat + string) 4 0 = (Some (Inl 3), 6000)"
  using fetch_with_retry_exhausted [of 4 "\<lambda>i. Inl i :: nat + string" 0]
  by (simp add: backoff_total_def)

end
