(* ===== verification/Crawl.thy ===== *)
theory Crawl
  imports Scraper "HOL-Library.Multiset"
begin

text \<open>
  The crawlers that produce the text files \<^verbatim>\<open>convert_data.js\<close> reads:
  \<^verbatim>\<open>src/crawler.js\<close> (\<^verbatim>\<open>fetchArticleContent\<close>, \<^verbatim>\<open>crawlWebsite\<close>) and the page
  functions of \<^verbatim>\<open>src/newsScraper.js\<close> (\<^verbatim>\<open>getArticleContent\<close>,
  \<^verbatim>\<open>getArticleLinks\<close>, \<^verbatim>\<open>scrapeDetikNews\<close>).  A fetched page is abstracted to
  what the cheerio queries of the code read from it: the text of all elements a
  selector matches (after the unwanted children are removed), the text of the first
  of them, the article elements a selector
  matches, and the \<^verbatim>\<open>href\<close> attributes of link elements.  The text clean-up
  chain and the report format are modelled character by character.
\<close>

section \<open>Pages\<close>

text \<open>An element of a listing page: for a selector, the text and the \<^verbatim>\<open>href\<close> of
  its first descendant matching it (\<open>None\<close> when there is none).\<close>

record element =
  el_first :: "string \<Rightarrow> (string \<times> string option) option"

record page =
  pg_text :: "string \<Rightarrow> string option"
  pg_first_text :: "string \<Rightarrow> string option"
  pg_elements :: "string \<Rightarrow> element list"
  pg_hrefs :: "string \<Rightarrow> string option list"

text \<open>The web as the crawlers see it: the page an \<^verbatim>\<open>axios.get\<close> of a URL returns on
  its \<open>i\<close>-th attempt (\<open>None\<close> when the request throws), and the URL resolution
  \<^verbatim>\<open>new URL(link, base).toString()\<close>.\<close>

record web =
  web_get :: "string \<Rightarrow> nat \<Rightarrow> page option"
  web_resolve :: "string \<Rightarrow> string \<Rightarrow> string"

section \<open>Cleaning the text of a page\<close>

text \<open>\<^verbatim>\<open>\w\<close>: ASCII letters, digits and the underscore.\<close>

definition is_word :: "char \<Rightarrow> bool" where
  "is_word c \<longleftrightarrow> is_lower c \<or> is_upper c \<or> is_digit c \<or> c = CHR ''_''"

text \<open>\<^verbatim>\<open>.replace(/[^\w\s.,!?-]/g, '')\<close>.\<close>

definition drop_special :: "string \<Rightarrow> string" where
  "drop_special s = filter (\<lambda>c. is_word c \<or> is_space c \<or> c \<in> set ''.,!?-'') s"

text \<open>The chain \<^verbatim>\<open>.trim().replace(/\s+/g, ' ').replace(/\s+([.,!?])/g, '$1')
  .replace(/([.,!?])([^\s])/g, '$1 $2').replace(/[^\w\s.,!?-]/g, '').trim()\<close> of
  both crawlers.\<close>

definition clean_page_text :: "string \<Rightarrow> string" where
  "clean_page_text t =
     js_trim (drop_special (space_after_punct (strip_space_punct (collapse_ws (js_trim t)))))"

text \<open>The first selector of a list that matches.\<close>

fun first_some :: "('a \<Rightarrow> 'b option) \<Rightarrow> 'a list \<Rightarrow> 'b option" where
  "first_some f [] = None"
| "first_some f (x # xs) = (case f x of Some y \<Rightarrow> Some y | None \<Rightarrow> first_some f xs)"

section \<open>crawler.js\<close>

definition CRAWL_CONTENT_SELECTORS :: "string list" where
  "CRAWL_CONTENT_SELECTORS =
     [''div.detail__body-text'', ''div.itp_bodycontent'', ''div.article-content'', ''div.content-text'', ''article'']"

text \<open>\<^verbatim>\<open>fetchArticleContent(url)\<close>: one request; a failed request or a page without
  content gives the empty string.\<close>

definition fetch_article_content :: "web \<Rightarrow> string \<Rightarrow> string" where
  "fetch_article_content W url =
     (case web_get W url 0 of
        None \<Rightarrow> []
      | Some pg \<Rightarrow>
          (case first_some (pg_text pg) CRAWL_CONTENT_SELECTORS of
             None \<Rightarrow> []
           | Some t \<Rightarrow> clean_page_text t))"

definition ARTICLE_SELECTORS :: "string list" where
  "ARTICLE_SELECTORS =
     [''article'', ''.article-box'', ''.news-item'', ''.l_content article'', ''[data-component-name=\"newsfeed-item\"]'']"

definition TITLE_SELECTORS :: "string list" where
  "TITLE_SELECTORS = [''h1'', ''h2'', ''h3'', ''.title'', ''.article-title'']"

definition LINK_SELECTORS :: "string list" where
  "LINK_SELECTORS = [''a'', ''a.article-link'', ''a.title-link'']"

text \<open>The title of an element: the trimmed text of the first title selector that
  matches (the loop stops there even when that text is empty).\<close>

definition element_title :: "element \<Rightarrow> string" where
  "element_title el = (case first_some (el_first el) TITLE_SELECTORS of None \<Rightarrow> [] | Some (t, _) \<Rightarrow> js_trim t)"

text \<open>The link of an element: the \<^verbatim>\<open>href\<close> of the first link selector that matches,
  resolved against the page URL unless it starts with \<^verbatim>\<open>http\<close>.\<close>

definition element_link :: "web \<Rightarrow> string \<Rightarrow> element \<Rightarrow> string option" where
  "element_link W base el =
     (case first_some (el_first el) LINK_SELECTORS of
        None \<Rightarrow> None
      | Some (_, None) \<Rightarrow> None
      | Some (_, Some h) \<Rightarrow> Some (if h \<noteq> [] \<and> \<not> starts_with ''http'' h then web_resolve W h base else h))"

text \<open>The \<open>(title, link)\<close> pairs for which \<^verbatim>\<open>crawlWebsite\<close> starts a content
  request, selector by selector and element by element.\<close>

definition crawl_candidates :: "web \<Rightarrow> string \<Rightarrow> page \<Rightarrow> (string \<times> string) list" where
  "crawl_candidates W base pg =
     concat (map (\<lambda>sel. concat (map (\<lambda>el.
         case element_link W base el of
           Some l \<Rightarrow> if element_title el \<noteq> [] \<and> l \<noteq> [] then [(element_title el, l)] else []
         | None \<Rightarrow> []) (pg_elements pg sel))) ARTICLE_SELECTORS)"

record crawled =
  cr_title :: string
  cr_link :: string
  cr_content :: string

text \<open>
  The articles pushed by the \<^verbatim>\<open>.then\<close> callbacks of the content requests.  The
  requests run concurrently and each pushes when it completes, so the order of
  the result is the completion order: \<open>order\<close> lists the candidates by completion.
\<close>

definition crawl_articles :: "web \<Rightarrow> (string \<times> string) list \<Rightarrow> nat list \<Rightarrow> crawled list" where
  "crawl_articles W cands order =
     map (\<lambda>i. \<lparr>cr_title = fst (cands ! i), cr_link = snd (cands ! i),
              cr_content = fetch_article_content W (snd (cands ! i))\<rparr>)
       (filter (\<lambda>i. fetch_article_content W (snd (cands ! i)) \<noteq> []) order)"

text \<open>The text written to the output file; \<open>ts\<close> is \<^verbatim>\<open>new Date().toISOString()\<close>.\<close>

definition crawl_block :: "nat \<Rightarrow> crawled \<Rightarrow> string" where
  "crawl_block i a =
     ''--- Article '' @ nat_str i @ '' ---'' @ nl @ ''Title: '' @ cr_title a @ nl @
     ''Link: '' @ cr_link a @ nl @ ''Content: '' @ cr_content a @ nl"

definition crawl_report :: "string \<Rightarrow> string \<Rightarrow> crawled list \<Rightarrow> string" where
  "crawl_report url ts arts =
     ''Page URL: '' @ url @ nl @ ''Total Articles Found: '' @ nat_str (length arts) @ nl @
     ''Crawled at: '' @ ts @ nl @ nl @
     join nl (map (\<lambda>(i, a). crawl_block i a) (zip [1..<Suc (length arts)] arts))"

text \<open>\<^verbatim>\<open>crawlWebsite(url)\<close>: a failed request for the listing page is thrown; the
  result is the content of the written file.\<close>

definition crawl_website :: "web \<Rightarrow> string \<Rightarrow> nat list \<Rightarrow> string \<Rightarrow> unit + string" where
  "crawl_website W url order ts =
     (case web_get W url 0 of
        None \<Rightarrow> Inl ()
      | Some pg \<Rightarrow> Inr (crawl_report url ts (crawl_articles W (crawl_candidates W url pg) order)))"

section \<open>newsScraper.js\<close>

text \<open>The answers of the attempts \<^verbatim>\<open>fetchWithRetry(url)\<close> makes.\<close>

definition attempts :: "web \<Rightarrow> string \<Rightarrow> nat \<Rightarrow> unit + page" where
  "attempts W url i = (case web_get W url i of None \<Rightarrow> Inl () | Some pg \<Rightarrow> Inr pg)"

definition NEWS_CONTENT_SELECTORS :: "string list" where
  "NEWS_CONTENT_SELECTORS =
     [''div.detail__body-text'', ''div.itp_bodycontent'', ''div.detail__body'', ''div.detail-text'', ''article'']"

record news_article =
  na_title :: string
  na_date :: string
  na_content :: string
  na_url :: string

text \<open>\<^verbatim>\<open>$(sel).first().text().trim()\<close>, the empty string when nothing matches.\<close>

definition first_text :: "page \<Rightarrow> string \<Rightarrow> string" where
  "first_text pg sel = (case pg_first_text pg sel of None \<Rightarrow> [] | Some t \<Rightarrow> js_trim t)"

text \<open>\<^verbatim>\<open>getArticleContent(url)\<close> at time \<open>t\<close>: \<^verbatim>\<open>null\<close> (\<open>None\<close>) when every
  attempt failed.\<close>

definition get_article_content :: "web \<Rightarrow> string \<Rightarrow> nat \<Rightarrow> news_article option \<times> nat" where
  "get_article_content W url t =
     (case fetch_with_retry (attempts W url) 3 t of
        (Some (Inr pg), t') \<Rightarrow>
          (Some \<lparr>na_title = first_text pg ''h1.detail__title, h1.title, .article-title'',
                 na_date = first_text pg ''div.detail__date, .date'',
                 na_content = (case first_some (pg_text pg) NEWS_CONTENT_SELECTORS of
                                 None \<Rightarrow> [] | Some c \<Rightarrow> clean_page_text c),
                 na_url = url\<rparr>, t')
      | (_, t') \<Rightarrow> (None, t'))"

text \<open>\<^verbatim>\<open>s.includes(p)\<close>.\<close>

definition js_includes :: "string \<Rightarrow> string \<Rightarrow> bool" where
  "js_includes s p \<longleftrightarrow> list_ex (\<lambda>i. take (length p) (drop i s) = p) [0..<Suc (length s)]"

text \<open>\<^verbatim>\<open>set.add(x)\<close> on a \<^verbatim>\<open>Set\<close> kept as its list in insertion order.\<close>

definition set_add :: "'a list \<Rightarrow> 'a \<Rightarrow> 'a list" where
  "set_add xs x = (if x \<in> set xs then xs else xs @ [x])"

definition NEWS_LINK_SELECTORS :: "string list" where
  "NEWS_LINK_SELECTORS = [''article a'', ''.list-content a'', ''.media__link'', ''.media__title a'', ''h2 a, h3 a'']"

definition news_link_ok :: "string option \<Rightarrow> bool" where
  "news_link_ok h = (case h of None \<Rightarrow> False | Some l \<Rightarrow> l \<noteq> [] \<and> js_includes l ''detik.com'' \<and> \<not> js_includes l ''#'')"

text \<open>\<^verbatim>\<open>getArticleLinks(url)\<close>: the accepted \<^verbatim>\<open>href\<close>s, without repetition, in
  the order they are first met; the empty list when every attempt failed.\<close>

definition get_article_links :: "web \<Rightarrow> string \<Rightarrow> nat \<Rightarrow> string list \<times> nat" where
  "get_article_links W url t =
     (case fetch_with_retry (attempts W url) 3 t of
        (Some (Inr pg), t') \<Rightarrow>
          (foldl set_add [] (map the (filter news_link_ok (concat (map (pg_hrefs pg) NEWS_LINK_SELECTORS)))), t')
      | (_, t') \<Rightarrow> ([], t'))"

definition DETIK_SECTIONS :: "string list" where
  "DETIK_SECTIONS = [''https://news.detik.com'']"

fun collect_links :: "web \<Rightarrow> string list \<Rightarrow> string list \<Rightarrow> nat \<Rightarrow> string list \<times> nat" where
  "collect_links W [] acc t = (acc, t)"
| "collect_links W (s # ss) acc t =
     (let (ls, t1) = get_article_links W s t in collect_links W ss (foldl set_add acc ls) t1)"

text \<open>The article loop of \<^verbatim>\<open>scrapeDetikNews\<close>: an article is kept when its
  content is longer than 100 characters; every round ends with a 500 ms pause.\<close>

fun scrape_loop :: "web \<Rightarrow> string list \<Rightarrow> news_article list \<Rightarrow> nat \<Rightarrow> news_article list \<times> nat" where
  "scrape_loop W [] acc t = (acc, t)"
| "scrape_loop W (l # ls) acc t =
     (let (a, t1) = get_article_content W l t;
          acc' = (case a of Some x \<Rightarrow> if 100 < length (na_content x) then acc @ [x] else acc | None \<Rightarrow> acc)
      in scrape_loop W ls acc' (t1 + 500))"

definition news_block :: "nat \<Rightarrow> news_article \<Rightarrow> string" where
  "news_block i a =
     ''--- Article '' @ nat_str i @ '' ---'' @ nl @ ''Title: '' @ na_title a @ nl @
     ''Link: '' @ na_url a @ nl @ ''Date: '' @ na_date a @ nl @ ''Content: '' @ na_content a @ nl"

definition news_report :: "string \<Rightarrow> news_article list \<Rightarrow> string" where
  "news_report ts arts =
     ''Page URL: '' @ join '', '' DETIK_SECTIONS @ nl @ ''Total Articles Found: '' @ nat_str (length arts) @ nl @
     ''Crawled at: '' @ ts @ nl @ nl @
     join nl (map (\<lambda>(i, a). news_block i a) (zip [1..<Suc (length arts)] arts))"

text \<open>\<^verbatim>\<open>scrapeDetikNews()\<close> from time \<open>t\<close>: the written text and the time.\<close>

definition scrape_detik_news :: "web \<Rightarrow> string \<Rightarrow> nat \<Rightarrow> string \<times> nat" where
  "scrape_detik_news W ts t =
     (let (links, t1) = collect_links W DETIK_SECTIONS [] t;
          (arts, t2) = scrape_loop W links [] t1
      in (news_report ts arts, t2))"

text \<open>A line of a report that \<^verbatim>\<open>extractArticles\<close> keeps as it is: non-empty,
  without line feed, not ending in white space.\<close>

definition report_line :: "string \<Rightarrow> bool" where
  "report_line s \<longleftrightarrow> s \<noteq> [] \<and> CHR 0x0A \<notin> set s \<and> \<not> is_space (last s)"

text \<open>The lines of one article block of a report.\<close>

definition block_lines :: "nat \<Rightarrow> crawled \<Rightarrow> string list" where
  "block_lines i a =
     [''--- Article '' @ nat_str i @ '' ---'', ''Title: '' @ cr_title a, ''Link: '' @ cr_link a,
      ''Content: '' @ cr_content a, []]"

section \<open>Concrete pages\<close>

text \<open>Small pages and a small web for the concrete runs below.\<close>

definition demo_page :: page where
  "demo_page = \<lparr>pg_text = \<lambda>s. if s = ''article'' then Some ''  Hello,world  '' else None,
     pg_first_text = \<lambda>_. None, pg_elements = \<lambda>_. [], pg_hrefs = \<lambda>_. []\<rparr>"

definition demo_web :: web where
  "demo_web = \<lparr>web_get = \<lambda>u i. if u = ''a'' then Some demo_page else None, web_resolve = \<lambda>h b. h\<rparr>"

definition demo_element :: element where
  "demo_element = \<lparr>el_first = \<lambda>s. if s = ''h2'' then Some (''T'', None) else if s = ''a'' then Some (''x'', Some ''/n/1'') else None\<rparr>"

definition demo_listing :: page where
  "demo_listing = \<lparr>pg_text = \<lambda>_. None, pg_first_text = \<lambda>_. None,
     pg_elements = \<lambda>s. if s = ''article'' \<or> s = ''.l_content article'' then [demo_element] else [],
     pg_hrefs = \<lambda>_. []\<rparr>"

definition demo_site :: web where
  "demo_site = \<lparr>web_get = \<lambda>u i. if u = ''https://d.com'' then Some demo_listing
                                 else if u = ''/n/1'' then Some demo_page else None,
     web_resolve = \<lambda>h b. h\<rparr>"

definition news_listing :: page where
  "news_listing = \<lparr>pg_text = \<lambda>_. None, pg_first_text = \<lambda>_. None, pg_elements = \<lambda>_. [],
     pg_hrefs = \<lambda>s. if s = ''article a'' then [Some ''https://news.detik.com/x'', Some ''https://news.detik.com/x#c''] else []\<rparr>"

definition news_web :: web where
  "news_web = \<lparr>web_get = \<lambda>u i. if u = ''https://news.detik.com'' then Some news_listing
                              else if u = ''https://news.detik.com/x'' then Some demo_page else None,
     web_resolve = \<lambda>h b. h\<rparr>"

section \<open>Lemmas on reports\<close>

lemma report_line_js_trim: "p \<noteq> [] \<Longrightarrow> \<not> is_space (hd p) \<Longrightarrow> report_line x \<Longrightarrow> js_trim (p @ x) = p @ x"
  by (intro js_trim_id) (auto simp: report_line_def)

lemma report_line_nat_str: "report_line (nat_str n)"
proof -
  have d: "48 \<le> (of_char c :: nat) \<and> (of_char c :: nat) < 58" if "c \<in> set (nat_str n)" for c
    using nat_str_digits [OF that] .
  have "CHR 0x0A \<notin> set (nat_str n)" using d [of "CHR 0x0A"] by auto
  moreover have "\<not> is_space (last (nat_str n))"
    using d [of "last (nat_str n)"] by (auto simp: is_space_def)
  ultimately show ?thesis by (simp add: report_line_def)
qed

lemma content_items_append: "content_items (xs @ ys) = content_items xs @ content_items ys"
  by (simp add: content_items_def)

lemma content_item_line:
  "p \<noteq> [] \<Longrightarrow> \<not> is_space (hd p) \<Longrightarrow> report_line x \<Longrightarrow> \<not> article_marker (p @ x) \<Longrightarrow> \<not> header_line (p @ x) \<Longrightarrow>
   content_items [p @ x] = [Some (p @ x)]"
  by (simp add: content_items_def report_line_js_trim)

lemma marker_item:
  "content_items [''--- Article '' @ nat_str i @ '' ---''] = [None]"
proof -
  have "js_trim (''--- Article '' @ nat_str i @ '' ---'') = ''--- Article '' @ nat_str i @ '' ---''"
    by (intro js_trim_id) (simp add: is_space_def)
  then show ?thesis by (simp add: content_items_def article_marker_def starts_with_def)
qed

lemma content_items_empty: "content_items [[]] = []"
  by (simp add: content_items_def)

lemma title_item: "report_line x \<Longrightarrow> content_items [''Title: '' @ x] = [Some (''Title: '' @ x)]"
  by (rule content_item_line)
     (simp_all add: is_space_def article_marker_def header_line_def starts_with_def comment_count_line_def is_digit_def)

lemma link_item: "report_line x \<Longrightarrow> content_items [''Link: '' @ x] = [Some (''Link: '' @ x)]"
  by (rule content_item_line)
     (simp_all add: is_space_def article_marker_def header_line_def starts_with_def comment_count_line_def is_digit_def)

lemma content_item: "report_line x \<Longrightarrow> content_items [''Content: '' @ x] = [Some (''Content: '' @ x)]"
  by (rule content_item_line)
     (simp_all add: is_space_def article_marker_def header_line_def starts_with_def comment_count_line_def is_digit_def)

lemma content_items_Cons2: "content_items (x # y # xs) = content_items [x] @ content_items (y # xs)"
  by (simp add: content_items_def)

lemma block_items:
  assumes "report_line (cr_title a)" "report_line (cr_link a)" "report_line (cr_content a)"
  shows "content_items (block_lines i a) =
     [None, Some (''Title: '' @ cr_title a), Some (''Link: '' @ cr_link a), Some (''Content: '' @ cr_content a)]"
  using marker_item [of i] title_item [OF assms(1)] link_item [OF assms(2)] content_item [OF assms(3)]
  by (simp add: block_lines_def content_items_Cons2 content_items_empty)

lemma group_items_blocks:
  "group_items (concat (map (\<lambda>b. [None, Some (x b), Some (y b), Some (z b)]) bs)) =
     (if bs = [] then [[]] else [] # map (\<lambda>b. [x b, y b, z b]) bs)"
  by (induction bs) (auto split: list.splits)

lemma crawl_block_lines: "crawl_block i a = join nl (block_lines i a)"
  by (simp add: crawl_block_def block_lines_def)

lemma crawl_report_lines:
  "crawl_report url ts arts =
     join nl ([''Page URL: '' @ url, ''Total Articles Found: '' @ nat_str (length arts), ''Crawled at: '' @ ts, []] @
              (if arts = [] then [[]] else concat (map (\<lambda>(i, a). block_lines i a) (zip [1..<Suc (length arts)] arts))))"
proof -
  let ?zs = "zip [1..<Suc (length arts)] arts"
  have "join nl (map (\<lambda>(i, a). crawl_block i a) ?zs) = join nl (map (join nl) (map (\<lambda>(i, a). block_lines i a) ?zs))"
    by (simp only: map_map comp_def crawl_block_lines case_prod_unfold)
  also have "\<dots> = join nl (concat (map (\<lambda>(i, a). block_lines i a) ?zs))"
    by (rule join_map_join) (auto simp: block_lines_def)
  finally have j: "join nl (map (\<lambda>(i, a). crawl_block i a) ?zs) = join nl (concat (map (\<lambda>(i, a). block_lines i a) ?zs))" .
  show ?thesis
  proof (cases "arts = []")
    case False
    then have cne: "concat (map (\<lambda>(i, a). block_lines i a) ?zs) \<noteq> []"
      by (cases arts) (simp_all add: upt_conv_Cons block_lines_def del: upt_Suc)
    have "join nl ([''Page URL: '' @ url, ''Total Articles Found: '' @ nat_str (length arts), ''Crawled at: '' @ ts, []] @
            concat (map (\<lambda>(i, a). block_lines i a) ?zs)) =
          ''Page URL: '' @ url @ nl @ ''Total Articles Found: '' @ nat_str (length arts) @ nl @ ''Crawled at: '' @ ts @ nl @ nl @
            join nl (concat (map (\<lambda>(i, a). block_lines i a) ?zs))"
      by (subst join_append [OF _ cne]) simp_all
    with False show ?thesis unfolding crawl_report_def j by simp
  qed (simp add: crawl_report_def)
qed

lemma header_items:
  assumes "report_line url" "report_line ts"
  shows "content_items [''Page URL: '' @ url, ''Total Articles Found: '' @ nat_str n, ''Crawled at: '' @ ts, []] =
     [Some (''Page URL: '' @ url), Some (''Total Articles Found: '' @ nat_str n), Some (''Crawled at: '' @ ts)]"
proof -
  have "content_items [''Page URL: '' @ url] = [Some (''Page URL: '' @ url)]"
    by (rule content_item_line [OF _ _ assms(1)])
       (simp_all add: is_space_def article_marker_def header_line_def starts_with_def comment_count_line_def is_digit_def)
  moreover have "content_items [''Total Articles Found: '' @ nat_str n] = [Some (''Total Articles Found: '' @ nat_str n)]"
    by (rule content_item_line [OF _ _ report_line_nat_str])
       (simp_all add: is_space_def article_marker_def header_line_def starts_with_def comment_count_line_def is_digit_def)
  moreover have "content_items [''Crawled at: '' @ ts] = [Some (''Crawled at: '' @ ts)]"
    by (rule content_item_line [OF _ _ assms(2)])
       (simp_all add: is_space_def article_marker_def header_line_def starts_with_def comment_count_line_def is_digit_def)
  ultimately show ?thesis by (simp add: content_items_Cons2 content_items_empty)
qed

lemma blocks_items:
  assumes "\<forall>a \<in> set (map snd zs). report_line (cr_title a) \<and> report_line (cr_link a) \<and> report_line (cr_content a)"
  shows "content_items (concat (map (\<lambda>(i, a). block_lines i a) zs)) =
     concat (map (\<lambda>a. [None, Some (''Title: '' @ cr_title a), Some (''Link: '' @ cr_link a), Some (''Content: '' @ cr_content a)]) (map snd zs))"
  using assms
proof (induction zs)
  case (Cons z zs)
  then show ?case using block_items [of "snd z" "fst z"]
    by (simp add: content_items_append case_prod_unfold)
qed (simp add: content_items_def)

lemma report_lines_no_nl:
  assumes "report_line url" "report_line ts"
    "\<forall>a \<in> set arts. report_line (cr_title a) \<and> report_line (cr_link a) \<and> report_line (cr_content a)"
  shows "\<forall>x \<in> set ([''Page URL: '' @ url, ''Total Articles Found: '' @ nat_str (length arts), ''Crawled at: '' @ ts, []] @
              (if arts = [] then [[]] else concat (map (\<lambda>(i, a). block_lines i a) (zip [1..<Suc (length arts)] arts)))).
           CHR 0x0A \<notin> set x"
proof -
  have n: "CHR 0x0A \<notin> set (nat_str k)" for k using report_line_nat_str [of k] by (simp add: report_line_def)
  have "CHR 0x0A \<notin> set x" if "x \<in> set (block_lines i a)" "a \<in> set arts" for x i a
    using that assms(3) n [of i] by (auto simp: block_lines_def report_line_def)
  then show ?thesis using assms(1,2) n [of "length arts"]
    by (auto simp: report_line_def dest: set_zip_rightD)
qed

lemma drop_special_blanks: "blanks_only s \<Longrightarrow> blanks_only (drop_special s)"
  by (auto simp: blanks_only_def drop_special_def)

lemma clean_page_text_line: "clean_page_text t \<noteq> [] \<Longrightarrow> report_line (clean_page_text t)"
proof -
  assume ne: "clean_page_text t \<noteq> []"
  have "blanks_only (clean_page_text t)"
    unfolding clean_page_text_def
    by (intro js_trim_blanks drop_special_blanks space_after_punct_blanks strip_space_punct_blanks collapse_ws_blanks)
  then have "CHR 0x0A \<notin> set (clean_page_text t)" by (auto simp: blanks_only_def is_space_def)
  moreover have "\<not> is_space (last (clean_page_text t))"
    using js_trim_ends ne unfolding clean_page_text_def by blast
  ultimately show ?thesis using ne by (simp add: report_line_def)
qed

lemma fetch_article_content_line:
  "fetch_article_content W u \<noteq> [] \<Longrightarrow> report_line (fetch_article_content W u)"
  by (auto simp: fetch_article_content_def clean_page_text_line split: option.splits)

lemma crawl_articles_fields:
  "a \<in> set (crawl_articles W cands order) \<Longrightarrow>
   \<exists>i \<in> set order. (cr_title a, cr_link a) = cands ! i \<and> report_line (cr_content a)"
  by (auto simp: crawl_articles_def fetch_article_content_line)

text \<open>
  The report \<^verbatim>\<open>crawlWebsite\<close> writes, read back by \<^verbatim>\<open>extractArticles\<close> of
  \<^verbatim>\<open>convert_data.js\<close>, gives one article \<^verbatim>\<open>Title: ... Link: ... Content: ...\<close> per
  crawled article, in order, when the fields are single lines without trailing
  white space; but it is preceded by a spurious first article made of the report
  header, because \<^verbatim>\<open>Page URL:\<close>, \<^verbatim>\<open>Total Articles Found:\<close> and
  \<^verbatim>\<open>Crawled at:\<close> are not among the header lines \<^verbatim>\<open>extractArticles\<close> drops.
\<close>

lemma crawl_report_extract:
  assumes "report_line url" "report_line ts"
    "\<forall>a \<in> set arts. report_line (cr_title a) \<and> report_line (cr_link a) \<and> report_line (cr_content a)"
  shows "extract_articles (crawl_report url ts arts) =
     join '' '' [''Page URL: '' @ url, ''Total Articles Found: '' @ nat_str (length arts), ''Crawled at: '' @ ts] #
     map (\<lambda>a. join '' '' [''Title: '' @ cr_title a, ''Link: '' @ cr_link a, ''Content: '' @ cr_content a]) arts"
proof -
  let ?H = "[''Page URL: '' @ url, ''Total Articles Found: '' @ nat_str (length arts), ''Crawled at: '' @ ts, []]"
  let ?zs = "zip [1..<Suc (length arts)] arts"
  let ?Bs = "if arts = [] then [[]] else concat (map (\<lambda>(i, a). block_lines i a) ?zs)"
  let ?B = "\<lambda>a. [None, Some (''Title: '' @ cr_title a), Some (''Link: '' @ cr_link a), Some (''Content: '' @ cr_content a)]"
  have lines: "split_on (CHR 0x0A) (crawl_report url ts arts) = ?H @ ?Bs"
    unfolding crawl_report_lines nl_def by (rule split_on_join [OF report_lines_no_nl [OF assms]]) simp
  have "map snd ?zs = arts" by (rule map_snd_zip) (simp del: upt_Suc)
  then have bs: "content_items ?Bs = concat (map ?B arts)"
    using blocks_items [of ?zs] assms(3) by (simp add: content_items_def)
  have "content_items (?H @ ?Bs) =
        Some (''Page URL: '' @ url) # Some (''Total Articles Found: '' @ nat_str (length arts)) # Some (''Crawled at: '' @ ts) #
        concat (map ?B arts)"
    unfolding content_items_append using header_items [OF assms(1,2), of "length arts"] bs by simp
  moreover have "group_items (concat (map ?B arts)) = (if arts = [] then [[]] else [] # map (\<lambda>b. [''Title: '' @ cr_title b, ''Link: '' @ cr_link b, ''Content: '' @ cr_content b]) arts)"
    by (rule group_items_blocks)
  ultimately show ?thesis
    unfolding extract_articles_flush lines foldl_article_lines
    by (simp add: group_items_Some comp_def)
qed

section \<open>Lemmas on the news scraper\<close>

lemma fetch_loop_time_indep: "fst (fetch_loop g n i k t) = fst (fetch_loop g n i k t')"
  by (induction k arbitrary: i t t') (auto split: sum.splits)

lemma get_article_content_time: "fst (get_article_content W u t) = fst (get_article_content W u 0)"
  unfolding get_article_content_def fetch_with_retry_def
  using fetch_loop_time_indep [of "attempts W u" 3 0 3 t 0]
  by (auto split: prod.splits option.splits sum.splits)

lemma get_article_content_url: "fst (get_article_content W u t) = Some a \<Longrightarrow> na_url a = u"
  by (auto simp: get_article_content_def split: prod.splits option.splits sum.splits)

lemma foldl_set_add: "distinct xs \<Longrightarrow> distinct (foldl set_add xs ys) \<and> set (foldl set_add xs ys) = set xs \<union> set ys"
  by (induction ys arbitrary: xs) (auto simp: set_add_def)

lemma collect_links_distinct: "distinct acc \<Longrightarrow> distinct (fst (collect_links W ss acc t))"
  by (induction W ss acc t rule: collect_links.induct) (auto simp: foldl_set_add split: prod.splits)

lemma scrape_loop_fst:
  "fst (scrape_loop W ls acc t) =
     acc @ filter (\<lambda>a. 100 < length (na_content a)) (List.map_filter (\<lambda>l. fst (get_article_content W l 0)) ls)"
proof (induction W ls acc t rule: scrape_loop.induct)
  case (2 W l ls acc t)
  then show ?case using get_article_content_time [of W l t]
    by (auto split: prod.splits option.splits)
qed simp

lemma map_filter_urls:
  "(\<And>l a. f l = Some a \<Longrightarrow> na_url a = l) \<Longrightarrow> distinct ls \<Longrightarrow> distinct (map na_url (List.map_filter f ls))"
proof (induction ls)
  case (Cons l ls)
  have "set (map na_url (List.map_filter f ls)) \<subseteq> set ls"
    using Cons.prems(1) by (auto simp: List.map_filter_def)
  with Cons show ?case by (auto split: option.splits)
qed simp

lemma map_filter_nth:
  "map (\<lambda>i. f (xs ! i)) (filter (\<lambda>i. P (xs ! i)) [0..<length xs]) = map f (filter P xs)"
proof -
  have "map f (filter P xs) = map f (filter P (map (\<lambda>i. xs ! i) [0..<length xs]))" by (simp add: map_nth)
  also have "\<dots> = map (\<lambda>i. f (xs ! i)) (filter (\<lambda>i. P (xs ! i)) [0..<length xs])" by (simp add: filter_map comp_def)
  finally show ?thesis by simp
qed

lemma crawl_articles_sequential:
  "crawl_articles W cands [0..<length cands] =
     map (\<lambda>(t, l). \<lparr>cr_title = t, cr_link = l, cr_content = fetch_article_content W l\<rparr>)
       (filter (\<lambda>(t, l). fetch_article_content W l \<noteq> []) cands)"
  unfolding crawl_articles_def
  using map_filter_nth [of "\<lambda>(t, l). \<lparr>cr_title = t, cr_link = l, cr_content = fetch_article_content W l\<rparr>"
      cands "\<lambda>(t, l). fetch_article_content W l \<noteq> []"]
  by (simp add: case_prod_beta)

lemma count_concat_map_pos: "x \<in> set xs \<Longrightarrow> h x = [y] \<Longrightarrow> 0 < count (mset (concat (map h xs))) y"
  by (metis UN_I count_greater_zero_iff list.set_intros(1) set_concat set_map set_mset_mset image_eqI)

lemma count_image_mset_inj: "inj f \<Longrightarrow> count (image_mset f M) (f x) = count M x"
  by (induction M) (auto dest: injD)

lemma fetch_loop_time_mono: "t \<le> snd (fetch_loop g n i k t)"
  by (induction k arbitrary: i t) (auto split: sum.splits, metis le_add1 order_trans)

lemma fetch_three_time: "fetch_with_retry g 3 t = (r, t') \<Longrightarrow> t \<le> t' \<and> t' \<le> t + 3000"
proof -
  assume f: "fetch_with_retry g 3 t = (r, t')"
  have "t \<le> t'" using fetch_loop_time_mono [of t g 3 0 3] f by (simp add: fetch_with_retry_def)
  moreover obtain r' t'' where "fetch_loop g 3 0 3 t = (Some r', t'')" "t'' \<le> t + (backoff_total 2 - backoff_total 0)"
    using fetch_loop_returns [of 0 3 3 g t] by auto
  ultimately show ?thesis using f by (simp add: fetch_with_retry_def backoff_total_def)
qed

lemma get_article_content_time_bound: "get_article_content W u t = (a, t') \<Longrightarrow> t \<le> t' \<and> t' \<le> t + 3000"
  using fetch_three_time [of "attempts W u" t]
  by (auto simp: get_article_content_def split: prod.splits option.splits sum.splits)

lemma get_article_links_time_bound: "get_article_links W u t = (ls, t') \<Longrightarrow> t \<le> t' \<and> t' \<le> t + 3000"
  using fetch_three_time [of "attempts W u" t]
  by (auto simp: get_article_links_def split: prod.splits option.splits sum.splits)

lemma collect_links_time:
  "collect_links W ss acc t = (ls, t') \<Longrightarrow> t \<le> t' \<and> t' \<le> t + 3000 * length ss"
proof (induction W ss acc t arbitrary: ls t' rule: collect_links.induct)
  case (2 W s ss acc t)
  obtain ls1 t1 where g: "get_article_links W s t = (ls1, t1)" by fastforce
  with "2.prems" have "collect_links W ss (foldl set_add acc ls1) t1 = (ls, t')" by simp
  with "2.IH" [OF g [symmetric] refl] get_article_links_time_bound [OF g] show ?case by simp
qed simp

lemma scrape_loop_time:
  "scrape_loop W ls acc t = (as, t') \<Longrightarrow> t + 500 * length ls \<le> t' \<and> t' \<le> t + 3500 * length ls"
proof (induction W ls acc t arbitrary: as t' rule: scrape_loop.induct)
  case (2 W l ls acc t)
  obtain a t1 where g: "get_article_content W l t = (a, t1)" by fastforce
  let ?acc = "case a of Some x \<Rightarrow> if 100 < length (na_content x) then acc @ [x] else acc | None \<Rightarrow> acc"
  from "2.prems" g have "scrape_loop W ls ?acc (t1 + 500) = (as, t')" by simp
  with "2.IH" [OF g [symmetric] refl refl] get_article_content_time_bound [OF g] show ?case by simp
qed simp

section \<open>Concrete pages, evaluated\<close>

lemma demo_clean: "clean_page_text ''  Hello,world  '' = ''Hello, world''"
  by code_simp

lemma demo_fetch: "fetch_article_content demo_web u = (if u = ''a'' then ''Hello, world'' else [])"
  by (simp add: fetch_article_content_def demo_web_def demo_page_def CRAWL_CONTENT_SELECTORS_def demo_clean)

lemma nat_str_one: "nat_str (Suc 0) = ''1''"
  by code_simp

lemma crawl_candidates_duplicate:
  "crawl_candidates demo_web ''https://d.com'' demo_listing = [(''T'', ''/n/1''), (''T'', ''/n/1'')]"
  by (simp add: crawl_candidates_def ARTICLE_SELECTORS_def demo_listing_def element_link_def element_title_def
      demo_element_def LINK_SELECTORS_def TITLE_SELECTORS_def starts_with_def demo_web_def js_trim_def is_space_def)

lemma demo_site_candidates:
  "crawl_candidates demo_site ''https://d.com'' demo_listing = [(''T'', ''/n/1''), (''T'', ''/n/1'')]"
  by (simp add: crawl_candidates_def ARTICLE_SELECTORS_def demo_listing_def element_link_def element_title_def
      demo_element_def LINK_SELECTORS_def TITLE_SELECTORS_def starts_with_def demo_site_def js_trim_def is_space_def)

lemma demo_site_fetch: "fetch_article_content demo_site u = (if u = ''/n/1'' then ''Hello, world'' else [])"
  by (simp add: fetch_article_content_def demo_site_def demo_page_def demo_listing_def CRAWL_CONTENT_SELECTORS_def demo_clean)

lemma demo_site_listing: "web_get demo_site ''https://d.com'' 0 = Some demo_listing"
  by (simp add: demo_site_def)

lemma nat_str_two: "nat_str (Suc (Suc 0)) = ''2''"
  by code_simp

lemma news_collect: "collect_links news_web DETIK_SECTIONS [] 0 = ([''https://news.detik.com/x''], 0)"
  by code_simp

lemma news_scrape_time: "snd (scrape_detik_news news_web ''2025'' 0) = 500"
  by code_simp

lemma demo_element_title: "element_title demo_element = ''T''"
  by (simp add: element_title_def demo_element_def TITLE_SELECTORS_def js_trim_def is_space_def)

lemma demo_element_link: "element_link demo_site ''https://d.com'' demo_element = Some ''/n/1''"
  by (simp add: element_link_def demo_element_def LINK_SELECTORS_def starts_with_def demo_site_def)

lemma demo_listing_elements:
  "pg_elements demo_listing ''article'' = [demo_element] \<and> pg_elements demo_listing ''.l_content article'' = [demo_element]"
  by (simp add: demo_listing_def)

section \<open>Properties of the crawlers\<close>

text \<open>
  C25. The file \<^verbatim>\<open>crawlWebsite\<close> writes, read back by \<^verbatim>\<open>extractArticles\<close> of
  \<^verbatim>\<open>convert_data.js\<close>, gives one article \<^verbatim>\<open>Title: ... Link: ... Content: ...\<close> per
  crawled article, in the order they were pushed, whenever the listing page was
  fetched and the titles and links found on it are single lines without trailing
  white space (the contents always are, after the clean-up chain).  The articles
  are preceded by a spurious first one made of the report header, because
  \<^verbatim>\<open>Page URL:\<close>, \<^verbatim>\<open>Total Articles Found:\<close> and \<^verbatim>\<open>Crawled at:\<close> are not among
  the header lines \<^verbatim>\<open>extractArticles\<close> drops.
\<close>

theorem crawl_website_extract:
  assumes "web_get W url 0 = Some pg" and "report_line url" and "report_line ts"
    and "\<forall>c \<in> set (crawl_candidates W url pg). report_line (fst c) \<and> report_line (snd c)"
    and "\<forall>i \<in> set order. i < length (crawl_candidates W url pg)"
  shows "\<exists>rep. crawl_website W url order ts = Inr rep \<and>
     extract_articles rep =
       join '' '' [''Page URL: '' @ url,
                   ''Total Articles Found: '' @ nat_str (length (crawl_articles W (crawl_candidates W url pg) order)),
                   ''Crawled at: '' @ ts] #
       map (\<lambda>a. join '' '' [''Title: '' @ cr_title a, ''Link: '' @ cr_link a, ''Content: '' @ cr_content a])
         (crawl_articles W (crawl_candidates W url pg) order)"
proof -
  let ?cs = "crawl_candidates W url pg"
  have "report_line (cr_title a) \<and> report_line (cr_link a) \<and> report_line (cr_content a)"
    if a: "a \<in> set (crawl_articles W ?cs order)" for a
  proof -
    obtain i where i: "i \<in> set order" "(cr_title a, cr_link a) = ?cs ! i" "report_line (cr_content a)"
      using crawl_articles_fields [OF a] by blast
    have "?cs ! i \<in> set ?cs" using i(1) assms(5) by simp
    with i assms(4) show ?thesis by (metis fst_conv snd_conv)
  qed
  then show ?thesis
    using crawl_report_extract [OF assms(2,3)] assms(1) by (simp add: crawl_website_def)
qed

text \<open>
  The articles \<^verbatim>\<open>crawlWebsite\<close> collects do not depend, up to their order,
  on the order in which the concurrent content requests complete: for any
  completion order they are, as a multiset, those of the sequential order.
\<close>

lemma crawl_articles_order_independent:
  assumes "mset order = mset [0..<length cands]"
  shows "mset (crawl_articles W cands order) = mset (crawl_articles W cands [0..<length cands])"
  unfolding crawl_articles_def mset_map mset_filter assms ..

text \<open>
  C6. \<^verbatim>\<open>scrapeDetikNews\<close> writes the report of exactly those articles, in link
  order, that could be fetched from the collected links and have more than 100
  characters of content; the timing of the retries does not change which, and no
  article URL appears twice.
\<close>

theorem scrape_detik_news_articles:
  "\<exists>arts t'. scrape_detik_news W ts t = (news_report ts arts, t') \<and>
     arts = filter (\<lambda>a. 100 < length (na_content a))
              (List.map_filter (\<lambda>l. fst (get_article_content W l 0)) (fst (collect_links W DETIK_SECTIONS [] t))) \<and>
     distinct (map na_url arts)"
proof -
  obtain links t1 where c: "collect_links W DETIK_SECTIONS [] t = (links, t1)" by fastforce
  obtain arts t2 where s: "scrape_loop W links [] t1 = (arts, t2)" by fastforce
  have d: "distinct links" using collect_links_distinct [of "[]" W DETIK_SECTIONS t] c by simp
  have a: "arts = filter (\<lambda>a. 100 < length (na_content a)) (List.map_filter (\<lambda>l. fst (get_article_content W l 0)) links)"
    using scrape_loop_fst [of W links "[]" t1] s by simp
  have "distinct (map na_url (List.map_filter (\<lambda>l. fst (get_article_content W l 0)) links))"
    by (rule map_filter_urls [OF get_article_content_url d])
  then have "distinct (map na_url arts)" unfolding a by (rule distinct_map_filter)
  with a c s show ?thesis by (auto simp: scrape_detik_news_def)
qed

text \<open>
  C12. Timing of \<^verbatim>\<open>scrapeDetikNews\<close>: with \<open>n\<close> collected links it sleeps at
  least the 500 ms pause after each article, and in all at most 3000 ms of
  retries per section page and 3000 ms of retries plus the pause per article.
\<close>

theorem scrape_detik_news_time:
  assumes "collect_links W DETIK_SECTIONS [] t = (links, t1)" and "scrape_detik_news W ts t = (rep, t2)"
  shows "t + 500 * length links \<le> t2 \<and> t2 \<le> t + 3000 * length DETIK_SECTIONS + 3500 * length links"
proof -
  obtain arts t2' where s: "scrape_loop W links [] t1 = (arts, t2')" by fastforce
  with assms have "t2 = t2'" by (simp add: scrape_detik_news_def)
  then show ?thesis using collect_links_time [OF assms(1)] scrape_loop_time [OF s] by simp
qed

text \<open>
  C29. The selectors \<^verbatim>\<open>article\<close> and \<^verbatim>\<open>.l_content article\<close> overlap: an
  article element matched by both, with a title, a link and content, is fetched
  twice and appears at least twice among the crawled articles, whatever the
  order in which the content requests complete.
\<close>

theorem crawl_articles_duplicate:
  assumes "el \<in> set (pg_elements pg ''article'')" and "el \<in> set (pg_elements pg ''.l_content article'')"
    and "element_title el \<noteq> []" and "element_link W url el = Some l" and "l \<noteq> []"
    and "fetch_article_content W l \<noteq> []"
    and "mset order = mset [0..<length (crawl_candidates W url pg)]"
  shows "2 \<le> count (mset (crawl_articles W (crawl_candidates W url pg) order))
               \<lparr>cr_title = element_title el, cr_link = l, cr_content = fetch_article_content W l\<rparr>"
proof -
  let ?cs = "crawl_candidates W url pg"
  let ?mk = "\<lambda>(t, l). \<lparr>cr_title = t, cr_link = l, cr_content = fetch_article_content W l\<rparr>"
  let ?P = "\<lambda>(t, l). fetch_article_content W l \<noteq> []"
  let ?y = "(element_title el, l)"
  let ?h = "\<lambda>el. case element_link W url el of
             Some l \<Rightarrow> if element_title el \<noteq> [] \<and> l \<noteq> [] then [(element_title el, l)] else []
           | None \<Rightarrow> []"
  let ?g = "\<lambda>sel. concat (map ?h (pg_elements pg sel))"
  have h: "?h el = [?y]" using assms(3,4,5) by simp
  have a: "0 < count (mset (?g ''article'')) ?y" by (rule count_concat_map_pos [where h = ?h, OF assms(1) h])
  have d: "0 < count (mset (?g ''.l_content article'')) ?y" by (rule count_concat_map_pos [where h = ?h, OF assms(2) h])
  have "count (mset ?cs) ?y =
          count (mset (?g ''article'')) ?y + (count (mset (?g ''.article-box'')) ?y + (count (mset (?g ''.news-item'')) ?y +
          (count (mset (?g ''.l_content article'')) ?y + count (mset (?g ''[data-component-name=\"newsfeed-item\"]'')) ?y)))"
    by (simp add: crawl_candidates_def ARTICLE_SELECTORS_def)
  with a d have "2 \<le> count (mset ?cs) ?y" by linarith
  then have "2 \<le> count (mset (filter ?P ?cs)) (element_title el, l)"
    using assms(6) by simp
  moreover have "inj ?mk" by (auto simp: inj_def)
  ultimately have "2 \<le> count (mset (map ?mk (filter ?P ?cs))) (?mk (element_title el, l))"
    by (simp only: mset_map count_image_mset_inj)
  moreover have "mset (crawl_articles W ?cs order) = mset (map ?mk (filter ?P ?cs))"
    using crawl_articles_order_independent [OF assms(7)] by (simp add: crawl_articles_sequential)
  ultimately show ?thesis by simp
qed

section \<open>Concrete runs\<close>

lemma crawl_report_extract_example:
  "report_line ''https://x.com'' \<and> report_line ''2025'' \<and>
   extract_articles (crawl_report ''https://x.com'' ''2025'' [\<lparr>cr_title = ''T'', cr_link = ''L'', cr_content = ''C.''\<rparr>]) =
     [''Page URL: https://x.com Total Articles Found: 1 Crawled at: 2025'', ''Title: T Link: L Content: C.'']"
  using crawl_report_extract [of "''https://x.com''" "''2025''" "[\<lparr>cr_title = ''T'', cr_link = ''L'', cr_content = ''C.''\<rparr>]"]
  by (simp add: report_line_def is_space_def nat_str_one)

lemma crawl_articles_order_independent_example:
  "mset [1, 0::nat] = mset [0..<length [(''T'', ''a''), (''U'', ''b'')]] \<and>
   crawl_articles demo_web [(''T'', ''a''), (''U'', ''b'')] [1, 0] =
     [\<lparr>cr_title = ''T'', cr_link = ''a'', cr_content = ''Hello, world''\<rparr>] \<and>
   mset (crawl_articles demo_web [(''T'', ''a''), (''U'', ''b'')] [1, 0]) =
     mset (crawl_articles demo_web [(''T'', ''a''), (''U'', ''b'')] [0..<length [(''T'', ''a''), (''U'', ''b'')]])"
  using crawl_articles_order_independent [of "[1, 0]" "[(''T'', ''a''), (''U'', ''b'')]" demo_web]
  by (simp add: crawl_articles_def demo_fetch)

theorem crawl_website_extract_witness:
  "web_get demo_site ''https://d.com'' 0 = Some demo_listing \<and> report_line ''https://d.com'' \<and> report_line ''2025'' \<and>
   crawl_candidates demo_site ''https://d.com'' demo_listing = [(''T'', ''/n/1''), (''T'', ''/n/1'')] \<and>
   report_line ''T'' \<and> report_line ''/n/1'' \<and>
   (\<exists>rep. crawl_website demo_site ''https://d.com'' [1, 0] ''2025'' = Inr rep \<and>
      extract_articles rep =
        [''Page URL: https://d.com Total Articles Found: 2 Crawled at: 2025'',
         ''Title: T Link: /n/1 Content: Hello, world'', ''Title: T Link: /n/1 Content: Hello, world''])"
  using crawl_website_extract [of demo_site "''https://d.com''" demo_listing "''2025''" "[1, 0]"]
  by (simp add: demo_site_listing demo_site_candidates demo_site_fetch crawl_articles_def report_line_def is_space_def nat_str_two)

theorem scrape_detik_news_time_witness:
  "collect_links news_web DETIK_SECTIONS [] 0 = ([''https://news.detik.com/x''], 0) \<and>
   scrape_detik_news news_web ''2025'' 0 = (fst (scrape_detik_news news_web ''2025'' 0), 500) \<and>
   0 + 500 * length [''https://news.detik.com/x''] \<le> (500::nat) \<and>
   (500::nat) \<le> 0 + 3000 * length DETIK_SECTIONS + 3500 * length [''https://news.detik.com/x'']"
  using scrape_detik_news_time [OF news_collect, of "''2025''" "fst (scrape_detik_news news_web ''2025'' 0)" 500]
    news_collect news_scrape_time
  by (simp add: DETIK_SECTIONS_def prod_eq_iff)

theorem crawl_articles_duplicate_witness:
  "demo_element \<in> set (pg_elements demo_listing ''article'') \<and>
   demo_element \<in> set (pg_elements demo_listing ''.l_content article'') \<and>
   element_title demo_element = ''T'' \<and> element_link demo_site ''https://d.com'' demo_element = Some ''/n/1'' \<and>
   fetch_article_content demo_site ''/n/1'' = ''Hello, world'' \<and>
   mset [1, 0::nat] = mset [0..<length (crawl_candidates demo_site ''https://d.com'' demo_listing)] \<and>
   2 \<le> count (mset (crawl_articles demo_site (crawl_candidates demo_site ''https://d.com'' demo_listing) [1, 0]))
          \<lparr>cr_title = ''T'', cr_link = ''/n/1'', cr_content = ''Hello, world''\<rparr>"
  using crawl_articles_duplicate [of demo_element demo_listing demo_site "''https://d.com''" "''/n/1''" "[1, 0]"]
  by (simp add: demo_listing_elements demo_element_title demo_element_link demo_site_fetch demo_site_candidates)

end
