(* ===== verification/Spec2Isabelle.thy ===== *)
theory Spec2Isabelle
  imports Api Crawl
begin

text \<open>
  \<^bold>\<open>A verification development of node-rag-ollama.\<close>

  The program is a multi-tenant retrieval-augmented-generation server.  The module
  \<^verbatim>\<open>rag.js\<close> (\<^verbatim>\<open>src/unnamed/part_000\<close>) normalises and chunks documents, embeds
  every chunk through an Ollama service, stores the vectors in one Pinecone index
  with one namespace per tenant, retrieves the chunks most similar to a question
  and asks the generation service for an answer.  The Express server
  \<^verbatim>\<open>server.js\<close> (\<^verbatim>\<open>src/unnamed/part_001\<close>) exposes these functions as HTTP
  routes.  The scraper scripts \<^verbatim>\<open>src/newsScraper.js\<close>, \<^verbatim>\<open>src/crawler.js\<close> and
  \<^verbatim>\<open>src/convert_data.js\<close> are separate programs that produce input text files.

  \<^bold>\<open>Theories and what they model.\<close>
  \<^item> \<open>Prelude\<close>: JSON values, the error datatype (one constructor per kind of
    exception that escapes \<^verbatim>\<open>rag.js\<close>), property reads, the character classes of
    the regular expressions, \<^verbatim>\<open>trim\<close>, \<^verbatim>\<open>join\<close> and decimal rendering, with
    their lemmas (\<open>nat_str_inject\<close>, \<open>join_append\<close>, \<open>foldl_invariant\<close>).
  \<^item> \<open>Normalize\<close>: \<^verbatim>\<open>preprocessText\<close> (lines 52--64) as the composition of its
    five global regular-expression replacements and the trim, each a
    left-to-right scan that resumes after the consumed match; its output is
    white-space normalised (C40).
  \<^item> \<open>Chunker\<close>: \<^verbatim>\<open>splitIntoChunks\<close> (66--89): the split on runs of
    \<^verbatim>\<open>[.!?]\<close>, the greedy loop \<open>chunk_step\<close> folded over the sentences and the
    final flush.  A reference packing \<open>chunk_groups\<close> on lists of sentences is
    proved equal to it (C1); content, length bound, its tightness for every size and
    greedy packing follow (C2--C5).
  \<^item> \<open>Services\<close>: the collaborators that are not in the repository, modelled from
    the specification: the answers of the Ollama HTTP service and the PDF parser
    as an environment record \<open>env\<close>; the Pinecone index as the state record
    \<open>world\<close> (the index with its dimension and ready instant, the namespaces as
    association lists, a millisecond clock) and the operations
    \<open>pc_describe\<close>, \<open>pc_create\<close>, \<open>pc_upsert\<close>, \<open>pc_query\<close>, \<open>pc_delete_all\<close>.
  \<^item> \<open>Ollama\<close>: \<^verbatim>\<open>getEmbedding\<close> (24--50) with all its failure branches, and the
    generation request of \<^verbatim>\<open>askQuestion\<close>.
  \<^item> \<open>Lifecycle\<close>: \<^verbatim>\<open>waitForIndex\<close> (102--116) as the recursion \<open>wait_loop\<close> on
    the number of rounds left, \<^verbatim>\<open>createUserIndex\<close>, \<^verbatim>\<open>clearIndex\<close>,
    \<^verbatim>\<open>deleteUserIndex\<close> (272--320); claims C7--C11.
  \<^item> \<open>Ingest\<close>: \<^verbatim>\<open>addDocument\<close> (118--156) with its chunk loop \<open>add_chunks\<close>,
    \<^verbatim>\<open>processPdfBuffer\<close>, \<^verbatim>\<open>addPdfDocument\<close> and \<^verbatim>\<open>addDocuments\<close>; claims
    C13--C18 and C36 (the last two general over the environment: a failure at
    chunk \<open>k\<close> leaves exactly the first \<open>k\<close> chunks stored, an array of strings
    from the embedding service fails only at the index).
  \<^item> \<open>Retrieve\<close>: \<^verbatim>\<open>findSimilarDocuments\<close> (172--193) and \<^verbatim>\<open>askQuestion\<close>
    (195--248) with its exact prompt template; claims C19--C24, C26 and the round
    trip from \<^verbatim>\<open>addDocument\<close> to \<^verbatim>\<open>findSimilarDocuments\<close> (C35).
  \<^item> \<open>Api\<close>: \<^verbatim>\<open>validateUserId\<close>, the multer size limit and the eight route
    handlers of \<^verbatim>\<open>server.js\<close> as one function \<open>handle\<close> from a request and the
    world to a reply and the world; claims C27, C28 and C31 (a batch with a
    non-string element after string documents).
  \<^item> \<open>Scraper\<close>: the pure parts of the scraping scripts, \<^verbatim>\<open>fetchWithRetry\<close>
    (\<^verbatim>\<open>src/newsScraper.js\<close> 22--39) with an explicit clock and the answer of
    each attempt as a parameter, and \<^verbatim>\<open>extractArticles\<close>
    (\<^verbatim>\<open>src/convert_data.js\<close> 4--45) with a reference grouping of the content
    lines between markers (C37--C39); every call of \<^verbatim>\<open>fetchWithRetry\<close> with
    at least one attempt returns (C30).
  \<^item> \<open>Crawl\<close>: the page-level code of the scrapers.  A fetched page is the
    record \<open>page\<close> of what the cheerio queries of the code read from it (the text
    of the elements a selector matches, of the first of them, the article
    elements and the link targets); the web is the record \<open>web\<close> of the page each
    request attempt returns and of the URL resolution.  From
    \<^verbatim>\<open>src/crawler.js\<close>: the clean-up chain of the page text, \<^verbatim>\<open>fetchArticleContent\<close>
    (\<open>fetch_article_content\<close>), the selector loops of \<^verbatim>\<open>crawlWebsite\<close>
    (\<open>crawl_candidates\<close>), the articles pushed by the concurrent content requests
    in their completion order (\<open>crawl_articles\<close>, the order a parameter) and the
    written report (\<open>crawl_report\<close>, \<open>crawl_website\<close>).  From
    \<^verbatim>\<open>src/newsScraper.js\<close>: \<^verbatim>\<open>getArticleContent\<close>, \<^verbatim>\<open>getArticleLinks\<close> with its
    \<^verbatim>\<open>Set\<close> of links in insertion order, and \<^verbatim>\<open>scrapeDetikNews\<close> as the loops
    \<open>collect_links\<close> and \<open>scrape_loop\<close> on the clock.  Claims: the news report
    holds exactly the long fetched articles, each URL once (C6); the crawler's
    report read back by \<^verbatim>\<open>extractArticles\<close> gives its articles after a spurious
    header article (C25); the scraper's time is bounded below by its pauses and
    above by its retries (C12); an article element matched by both overlapping
    selectors is crawled twice, whatever the completion order (C29).
  \<^item> This theory: the server as a transition system (\<open>reachable\<close>, the
    inductive closure of \<open>handle\<close> from the empty store, and \<open>run\<close>, a finite
    sequence of requests), the store invariant \<open>store_inv\<close> and the properties
    that span the components (C32--C34).

  \<^bold>\<open>Effects.\<close>  Every \<^verbatim>\<open>await\<close>ed call is a function of the world that returns
  its result and the new world; a \<^verbatim>\<open>throw\<close> is an \<open>Inl\<close> value that the
  callers pass on unchanged, so what an operation did before failing stays in the
  returned world (partial ingestion, C15).  \<^verbatim>\<open>Date.now()\<close> reads the clock;
  each embedding call advances it by \<open>embed_latency\<close> and each poll round by
  2000 ms.

  \<^bold>\<open>Bounds.\<close>  \<^verbatim>\<open>CHUNK_SIZE\<close> is 1000, the index dimension 4096, the poll makes
  at most 10 rounds, 2000 ms apart, \<^verbatim>\<open>fetchWithRetry\<close> at most \<^verbatim>\<open>maxRetries\<close>
  attempts with \<open>1000 * (i + 1)\<close> ms after failure \<open>i\<close>.  No fuel is needed: every loop of the
  program is bounded by its input (the sentences, the chunks, the documents, the
  lines, the 10 rounds, the retries), so every definition is a terminating \<open>fun\<close>, \<open>function\<close> with a
  measure, or a fold, and the liveness claims (C8, C14) are proved as the existence
  of the result.  The readiness poll succeeds exactly when the index is ready
  within \<open>9 * 2000\<close> ms of its creation (C8, C9).  The scrapers make three
  attempts per page and pause 500 ms after each article; the concurrent content
  requests of \<^verbatim>\<open>crawlWebsite\<close> complete in an order that is a parameter (any
  permutation of the candidates, C29).

  \<^bold>\<open>What the lemma groups show.\<close>  Functional behaviour of each operation on
  every branch; refinement of the chunking loop by a reference packing; the chunk
  length bound and its overshoot; termination and liveness of the poll; storage,
  partial failure, isolation and id collisions of ingestion; ranking, count,
  provenance and isolation of retrieval; the answer of the question route; tenant
  isolation of every HTTP request; and, by rule induction over all request
  sequences, the store invariant and the end-to-end isolation of answers; for
  the scripts, termination and timing of the retry loop, the refinement of
  \<^verbatim>\<open>extractArticles\<close> by a grouping of lines, the round trip from the crawler's
  report through \<^verbatim>\<open>extractArticles\<close>, and the content and uniqueness of the
  scraped news articles.

  \<^bold>\<open>Not modelled.\<close>  The interleaving of concurrent requests: Node runs the
  handlers of overlapping requests interleaved at every \<^verbatim>\<open>await\<close>, the model
  handles requests one at a time, so the properties of request sequences hold
  for requests that do not overlap.  Console output; the HTTP transport, JSON serialisation of
  replies and CORS/logging middleware; the numerical values of similarity scores
  (an arbitrary function of the environment, only their order matters); the
  real PDF parser (a partial function of the environment); the HTML parser
  itself (cheerio: a page is given by the answers of the selector queries the
  scrapers make, see \<open>Crawl\<close>); the file input and output of the scripts
  (\<^verbatim>\<open>fs.writeFileSync\<close>, \<^verbatim>\<open>mkdirSync\<close>, the file names), the console output and
  the real pauses, which are the clock.  A non-string truthy
  \<^verbatim>\<open>question\<close> is passed to the services in its string form.
\<close>


section \<open>The server as a transition system\<close>

text \<open>Every request the server may receive, in any order, from the empty store.\<close>

inductive reachable :: "env \<Rightarrow> world \<Rightarrow> bool" for E :: env where
  init: "reachable E init_world"
| step: "reachable E w \<Longrightarrow> handle E req w = (r, w') \<Longrightarrow> reachable E w'"

fun run :: "env \<Rightarrow> request list \<Rightarrow> world \<Rightarrow> reply list \<times> world" where
  "run E [] w = ([], w)"
| "run E (q # qs) w = (let (r, w1) = handle E q w; (rs, w2) = run E qs w1 in (r # rs, w2))"

text \<open>A stored record of tenant \<open>u\<close> as \<^verbatim>\<open>addDocument\<close> writes it: tagged with the
  tenant, with a string text, and a vector of the index dimension.\<close>

definition record_ok :: "tenant \<Rightarrow> stored \<Rightarrow> bool" where
  "record_ok u r \<longleftrightarrow>
     rec_meta r ''userId'' = Some (JStr u) \<and> sliceable (rec_meta r ''text'') \<and>
     length (rec_values r) = INDEX_DIMENSION"

definition store_inv :: "world \<Rightarrow> bool" where
  "store_inv w \<longleftrightarrow>
     (case index w of Some i \<Rightarrow> idx_dimension i = INDEX_DIMENSION | None \<Rightarrow> True) \<and>
     (\<forall>u. distinct (map fst (spaces w u)) \<and> (\<forall>p \<in> set (spaces w u). record_ok u (snd p)))"

section \<open>Preservation of the store invariant\<close>

lemma set_update_subset: "set (AList.update k v al) \<subseteq> insert (k, v) (set al)"
  by (induction al) auto

lemma store_inv_spaces:
  "store_inv w \<Longrightarrow> index w' = index w \<Longrightarrow> spaces w' = (spaces w)(u := al) \<Longrightarrow>
   distinct (map fst al) \<Longrightarrow> \<forall>p \<in> set al. record_ok u (snd p) \<Longrightarrow> store_inv w'"
  by (simp add: store_inv_def)

lemma chunk_metadata_tags:
  "chunk_metadata md c i n t u ''userId'' = Some (JStr u) \<and> chunk_metadata md c i n t u ''text'' = Some (JStr c)"
  by (simp add: chunk_metadata_def)

lemma pc_upsert_store_inv:
  assumes "store_inv w" and "pc_upsert u rid vals md w = Inr w'"
    and "md ''userId'' = Some (JStr u)" and "md ''text'' = Some (JStr c)"
  shows "store_inv w'"
proof -
  from assms(2) obtain i v where i: "index w = Some i" and v: "to_numbers vals = Some v" "length v = idx_dimension i"
    and w': "w' = w\<lparr>spaces := (spaces w)(u := AList.update rid \<lparr>rec_values = v, rec_meta = md\<rparr> (spaces w u))\<rparr>"
    by (auto simp: pc_upsert_Inr)
  from assms(1) i have "idx_dimension i = INDEX_DIMENSION" by (simp add: store_inv_def)
  with v have ok: "record_ok u \<lparr>rec_values = v, rec_meta = md\<rparr>"
    by (simp add: record_ok_def sliceable_def assms(3,4))
  from assms(1) have d: "distinct (map fst (spaces w u))" and all: "\<forall>p \<in> set (spaces w u). record_ok u (snd p)"
    by (auto simp: store_inv_def)
  have all': "\<forall>p \<in> set (AList.update rid \<lparr>rec_values = v, rec_meta = md\<rparr> (spaces w u)). record_ok u (snd p)"
  proof
    fix p
    assume "p \<in> set (AList.update rid \<lparr>rec_values = v, rec_meta = md\<rparr> (spaces w u))"
    then have "p \<in> insert (rid, \<lparr>rec_values = v, rec_meta = md\<rparr>) (set (spaces w u))"
      by (rule subsetD [OF set_update_subset])
    with ok all show "record_ok u (snd p)" by auto
  qed
  show ?thesis
    by (rule store_inv_spaces [OF assms(1) _ _ distinct_update [OF d] all']) (simp_all add: w')
qed

lemma add_chunks_store_inv:
  "add_chunks E u md n i cs acc w = (r, w') \<Longrightarrow> store_inv w \<Longrightarrow> store_inv w'"
proof (induction cs arbitrary: i acc w)
  case (Cons c cs)
  obtain x w1 where ge: "get_embedding E c w = (x, w1)" by fastforce
  then have w1: "w1 = w\<lparr>clock := clock w + embed_latency E\<rparr>" by (rule get_embedding_world)
  with Cons.prems(2) have inv1: "store_inv w1" by (simp add: store_inv_def)
  show ?case
  proof (cases x)
    case (Inl e)
    with Cons.prems(1) ge inv1 show ?thesis by simp
  next
    case (Inr emb)
    show ?thesis
    proof (cases "pc_upsert u (doc_id (clock w1) i) emb (chunk_metadata md c i n (clock w1) u) w1")
      case (Inl e)
      with Cons.prems(1) ge Inr inv1 show ?thesis by (simp add: Let_def)
    next
      case (Inr w2)
      with inv1 have "store_inv w2" using chunk_metadata_tags by (blast intro: pc_upsert_store_inv)
      with Cons.prems(1) ge \<open>x = Inr emb\<close> Inr show ?thesis by (auto simp: Let_def intro: Cons.IH)
    qed
  qed
qed simp

lemma add_document_store_inv:
  "add_document E u text md w = (r, w') \<Longrightarrow> store_inv w \<Longrightarrow> store_inv w'"
  by (blast dest: add_document_chunks add_chunks_store_inv)

lemma add_pdf_document_store_inv:
  "add_pdf_document E u buf md w = (r, w') \<Longrightarrow> store_inv w \<Longrightarrow> store_inv w'"
  by (auto simp: add_pdf_document_def split: sum.splits dest: add_document_store_inv)

lemma add_documents_loop_store_inv:
  "add_documents_loop E u md docs acc w = (r, w') \<Longrightarrow> store_inv w \<Longrightarrow> store_inv w'"
proof (induction docs arbitrary: acc w)
  case (Cons d ds)
  then show ?case
    by (auto split: json.splits prod.splits sum.splits dest: add_document_store_inv)
qed simp

lemma clear_index_store_inv: "clear_index u w = (r, w') \<Longrightarrow> store_inv w \<Longrightarrow> store_inv w'"
  using clear_index_store [of u w] by (auto simp: store_inv_def split: if_splits)

lemma delete_user_index_store_inv: "delete_user_index u w = (r, w') \<Longrightarrow> store_inv w \<Longrightarrow> store_inv w'"
  using delete_user_index_store [of u w] clear_index_store_inv [of u w "fst (clear_index u w)" w'] by simp

lemma create_user_index_store_inv:
  "create_user_index E u w = (r, w') \<Longrightarrow> store_inv w \<Longrightarrow> store_inv w'"
  by (drule create_user_index_store) (auto simp: store_inv_def created_index_def)

lemma ask_question_store_inv: "ask_question E u q rd w = (r, w') \<Longrightarrow> store_inv w \<Longrightarrow> store_inv w'"
  by (drule ask_question_world) (simp add: store_inv_def)

lemma admin_route_store_inv:
  "(\<And>r w'. res = (r, w') \<Longrightarrow> store_inv w') \<Longrightarrow> admin_route msg res = (r, w') \<Longrightarrow> store_inv w'"
  by (metis admin_route_world prod.collapse)

lemma handle_route_store_inv:
  assumes "handle_route E req w = (r, w')" and "store_inv w"
  shows "store_inv w'"
proof (cases req)
  case GetHealth
  with assms show ?thesis by (simp add: handle_route_def)
next
  case (PostUser u b)
  with assms show ?thesis
    by (auto simp: handle_route_def intro: admin_route_store_inv dest: create_user_index_store_inv)
next
  case (DeleteUser u b)
  with assms show ?thesis
    by (auto simp: handle_route_def intro: admin_route_store_inv dest: delete_user_index_store_inv)
next
  case (DeleteDocuments u b)
  with assms show ?thesis
    by (auto simp: handle_route_def intro: admin_route_store_inv dest: clear_index_store_inv)
next
  case (PostDocuments u b)
  with assms show ?thesis
    by (auto simp: handle_route_def add_documents_def split: option.splits json.splits prod.splits sum.splits
        dest: add_documents_loop_store_inv)
next
  case (PostPdf u b f)
  with assms show ?thesis
    by (auto simp: handle_route_def split: option.splits prod.splits sum.splits dest: add_pdf_document_store_inv)
next
  case (PostTxt u b f)
  with assms show ?thesis
    by (auto simp: handle_route_def split: option.splits prod.splits sum.splits dest: add_document_store_inv)
next
  case (PostAsk u b)
  with assms show ?thesis
    by (auto simp: handle_route_def split: if_splits prod.splits sum.splits dest: ask_question_store_inv)
qed

lemma handle_store_inv: "handle E req w = (r, w') \<Longrightarrow> store_inv w \<Longrightarrow> store_inv w'"
  by (blast dest: handle_cases handle_route_store_inv)

lemma store_inv_init: "store_inv init_world"
  by (simp add: store_inv_def init_world_def)

lemma store_inv_docs:
  assumes "store_inv w" and "find_similar_documents E u q k w = (Inr ds, w')" and "d \<in> set ds"
  shows "doc_metadata d ''userId'' = Some (JStr u) \<and> sliceable (doc_text d)"
proof -
  from find_similar_documents_from_space [OF assms(2)] assms(3) obtain v rid r where
    p: "(rid, r) \<in> set (spaces w u)" and
    d: "d = \<lparr>doc_text = rec_meta r ''text'', doc_similarity = similarity E v (rec_values r), doc_metadata = rec_meta r\<rparr>"
    by blast
  from assms(1) have "\<forall>p \<in> set (spaces w u). record_ok u (snd p)" by (simp add: store_inv_def)
  with p have "record_ok u r" by auto
  then show ?thesis by (simp add: record_ok_def d)
qed

lemma handle_ask_answered:
  "handle E (PostAsk u b) w = (r, w') \<Longrightarrow> reply_body r = Answered (Some a) \<Longrightarrow>
   \<exists>w1. find_similar_documents E u (question_text (b ''question'')) 3 w = (Inr (ans_documents a), w1)"
  by (auto simp: handle_def handle_route_def ask_question_cases error_reply_def ok_reply_def
      split: if_splits prod.splits sum.splits)

lemma snd_run_Cons: "snd (run E (q # qs) w) = snd (run E qs (snd (handle E q w)))"
  by (simp add: Let_def split: prod.split)

lemma snd_run_snoc: "snd (run E (qs @ [q]) w) = snd (handle E q (snd (run E qs w)))"
  by (induction qs arbitrary: w) (simp_all del: run.simps(2) add: snd_run_Cons)

lemma run_reachable: "reachable E w \<Longrightarrow> reachable E (snd (run E qs w))"
proof (induction qs arbitrary: w)
  case (Cons q qs)
  obtain r w1 where h: "handle E q w = (r, w1)" by fastforce
  with Cons.prems have "reachable E w1" by (rule reachable.step)
  with h Cons.IH show ?case by (simp del: run.simps(2) add: snd_run_Cons)
qed simp

lemmas demo_eval = handle_def handle_route_def validate_user_id_def admin_route_def ok_reply_def
  create_user_index_def pc_describe_def pc_create_def wait_for_index_def wait_loop_step eval_nat_numeral ready_at_def
  INDEX_DIMENSION_def add_documents_def ingest_eval ask_question_cases find_similar_documents_def pc_query_def
  generate_def question_text_def

section \<open>Properties of the whole server\<close>

text \<open>
  C32. The store invariant holds in every world the server can reach by any
  sequence of requests: the index, once created, has dimension 4096; in every
  namespace the record ids are distinct, and every record carries its tenant's
  id in \<^verbatim>\<open>userId\<close>, a string \<^verbatim>\<open>text\<close> and a vector of 4096 numbers.
\<close>

theorem reachable_store_inv: "reachable E w \<Longrightarrow> store_inv w"
  by (induction rule: reachable.induct) (auto simp: store_inv_init dest: handle_store_inv)

text \<open>
  C33. End-to-end tenant isolation: in a reachable world, every document in the
  answer of \<^verbatim>\<open>POST /api/users/:userId/ask\<close> was stored by that tenant (its
  \<^verbatim>\<open>userId\<close> is the asking tenant) and has a string text.
\<close>

theorem handle_ask_isolation:
  assumes "reachable E w" and "handle E (PostAsk u b) w = (r, w')" and "reply_body r = Answered (Some a)"
  shows "\<forall>d \<in> set (ans_documents a). doc_metadata d ''userId'' = Some (JStr u) \<and> sliceable (doc_text d)"
  using handle_ask_answered [OF assms(2,3)] store_inv_docs reachable_store_inv [OF assms(1)] by blast

text \<open>
  C34. The \<^verbatim>\<open>TypeError\<close> of the printing branch of \<^verbatim>\<open>askQuestion\<close> cannot happen
  on a reachable world: when retrieval and generation succeed, the call without
  \<^verbatim>\<open>returnData\<close> returns \<^verbatim>\<open>undefined\<close>.
\<close>

theorem ask_question_print_reachable:
  assumes "reachable E w" and "fst (find_similar_documents E u q 3 w) = Inr docs"
    and "generate E (build_prompt (join (nl @ nl) (map (\<lambda>d. join_elem (doc_text d)) docs)) q) = Inr ans"
  shows "fst (ask_question E u q False w) = Inr None"
proof -
  obtain w1 where f: "find_similar_documents E u q 3 w = (Inr docs, w1)"
    using assms(2) by (metis prod.collapse)
  have "list_all (\<lambda>d. sliceable (doc_text d)) docs"
    using store_inv_docs [OF reachable_store_inv [OF assms(1)] f] by (simp add: list_all_iff)
  with f assms(3) show ?thesis by (simp add: ask_question_cases)
qed

text \<open>
  The reachable worlds are exactly the results of running a finite sequence
  of requests from the empty store, one after the other.
\<close>

theorem reachable_run: "reachable E w \<longleftrightarrow> (\<exists>qs. snd (run E qs init_world) = w)"
proof
  assume "reachable E w"
  then show "\<exists>qs. snd (run E qs init_world) = w"
  proof (induction rule: reachable.induct)
    case init
    show ?case by (rule exI [of _ "[]"]) simp
  next
    case (step w q r w')
    then obtain qs where "snd (run E qs init_world) = w" by blast
    with step.hyps(2) have "snd (run E (qs @ [q]) init_world) = w'" by (simp add: snd_run_snoc)
    then show ?case by blast
  qed
next
  assume "\<exists>qs. snd (run E qs init_world) = w"
  then show "reachable E w" using run_reachable [OF reachable.init] by blast
qed

section \<open>A session of requests\<close>

lemma demo_create:
  "handle (unit_vector_env 0) (PostUser ''alice'' Map.empty) init_world = (ok_reply (Admin (IndexCreated ''alice'')), ready_world)"
  by (simp add: demo_eval unit_vector_env_def init_world_def ready_world_def)

lemma demo_add_ask:
  "\<exists>w rs a. handle (unit_vector_env 0) (PostDocuments ''alice'' [''documents'' \<mapsto> JArr [JStr ''Hello.'']]) ready_world
       = (ok_reply (AddedAll rs), w) \<and>
     handle (unit_vector_env 0) (PostAsk ''alice'' [''question'' \<mapsto> JStr ''hi?'']) w = (ok_reply (Answered (Some a)), w) \<and>
     length (ans_documents a) = 1"
  by (simp add: demo_eval)

lemma ready_world_reachable: "reachable (unit_vector_env 0) ready_world"
  using reachable.step [OF reachable.init demo_create] .

theorem reachable_store_inv_witness:
  "store_inv (snd (handle (unit_vector_env 0) (PostDocuments ''alice'' [''documents'' \<mapsto> JArr [JStr ''Hello.'']]) ready_world))"
  by (rule reachable_store_inv [OF reachable.step [OF ready_world_reachable surjective_pairing]])

theorem handle_ask_isolation_witness:
  "\<exists>w a. reachable (unit_vector_env 0) w \<and> ans_documents a \<noteq> [] \<and>
     handle (unit_vector_env 0) (PostAsk ''alice'' [''question'' \<mapsto> JStr ''hi?'']) w = (ok_reply (Answered (Some a)), w) \<and>
     (\<forall>d \<in> set (ans_documents a). doc_metadata d ''userId'' = Some (JStr ''alice'') \<and> sliceable (doc_text d))"
proof -
  from demo_add_ask obtain w rs a where
    add: "handle (unit_vector_env 0) (PostDocuments ''alice'' [''documents'' \<mapsto> JArr [JStr ''Hello.'']]) ready_world
       = (ok_reply (AddedAll rs), w)"
    and ask: "handle (unit_vector_env 0) (PostAsk ''alice'' [''question'' \<mapsto> JStr ''hi?'']) w = (ok_reply (Answered (Some a)), w)"
    and len: "length (ans_documents a) = 1"
    by blast
  have reach: "reachable (unit_vector_env 0) w" by (rule reachable.step [OF ready_world_reachable add])
  have "\<forall>d \<in> set (ans_documents a). doc_metadata d ''userId'' = Some (JStr ''alice'') \<and> sliceable (doc_text d)"
    by (rule handle_ask_isolation [OF reach ask]) (simp add: ok_reply_def)
  with reach ask len show ?thesis by (intro exI [of _ w] exI [of _ a]) auto
qed

theorem ask_question_print_reachable_witness:
  "fst (ask_question (unit_vector_env 0) ''alice'' ''hi?'' False ready_world) = Inr None"
proof -
  have f: "fst (find_similar_documents (unit_vector_env 0) ''alice'' ''hi?'' 3 ready_world) = Inr []"
    by (simp add: find_similar_documents_def get_embedding_def pc_query_def unit_vector_env_def ready_world_def init_world_def)
  have g: "generate (unit_vector_env 0) (build_prompt (join (nl @ nl) (map (\<lambda>d. join_elem (doc_text d)) [])) ''hi?'')
      = Inr (Some (JStr ''ok''))"
    by (simp add: generate_def unit_vector_env_def)
  show ?thesis by (rule ask_question_print_reachable [OF ready_world_reachable f g])
qed

theorem reachable_run_witness:
  "reachable (unit_vector_env 0) (snd (run (unit_vector_env 0) [PostUser ''alice'' Map.empty] init_world))"
  using reachable_run [of "unit_vector_env 0"] by blast

end
